(* ===== verification/Prelude.thy ===== *)
theory Prelude
  imports Complex_Main "HOL-Library.Word"
begin

text \<open>
  The shared ground of the development: names for the machine integers of the C++ sources,
  results that carry an error, byte encodings of integers in both byte orders, and the generic
  lemmas on lists and words that the component theories use.
\<close>

unbundle bit_operations_syntax

type_synonym u8 = "8 word"
type_synonym u16 = "16 word"
type_synonym u32 = "32 word"
type_synonym u64 = "64 word"

named_theorems byte_defs "definitions of the byte encodings"
named_theorems const_defs "numeric constants of the sources"

section \<open>Results\<close>

fun bind_res :: "'e + 'a \<Rightarrow> ('a \<Rightarrow> 'e + 'b) \<Rightarrow> 'e + 'b" where
  "bind_res (Inl e) f = Inl e"
| "bind_res (Inr a) f = f a"

lemma bind_res_Inr_iff [simp]:
  "bind_res r f = Inr b \<longleftrightarrow> (\<exists>a. r = Inr a \<and> f a = Inr b)"
  by (cases r) auto

lemma bind_res_Inl_iff [simp]:
  "bind_res r f = Inl e \<longleftrightarrow> r = Inl e \<or> (\<exists>a. r = Inr a \<and> f a = Inl e)"
  by (cases r) auto

section \<open>Decimal numbers\<close>

text \<open>Decimal digits, as \<open>std::to_string\<close> prints them.\<close>

fun digits :: "nat \<Rightarrow> string" where
  "digits n = (if n < 10 then [char_of (48 + n)] else digits (n div 10) @ [char_of (48 + n mod 10)])"

declare digits.simps [simp del]

definition to_string :: "int \<Rightarrow> string" where
  "to_string i = (if i < 0 then CHR ''-'' # digits (nat (- i)) else digits (nat i))"

section \<open>Byte order\<close>

text \<open>
  The object representation of an integer on the little-endian targets of the SDK, and the
  network byte order produced by \<open>htons\<close> and \<open>htonl\<close>.
\<close>

definition le16 :: "u16 \<Rightarrow> u8 list" where
  [byte_defs]: "le16 w = [ucast w, ucast (drop_bit 8 w)]"

definition le32 :: "u32 \<Rightarrow> u8 list" where
  [byte_defs]: "le32 w = [ucast w, ucast (drop_bit 8 w), ucast (drop_bit 16 w), ucast (drop_bit 24 w)]"

definition be16 :: "u16 \<Rightarrow> u8 list" where
  [byte_defs]: "be16 w = rev (le16 w)"

definition be32 :: "u32 \<Rightarrow> u8 list" where
  [byte_defs]: "be32 w = rev (le32 w)"

definition of_le16 :: "u8 list \<Rightarrow> u16" where
  [byte_defs]: "of_le16 bs = ucast (bs ! 0) OR push_bit 8 (ucast (bs ! 1))"

definition of_le32 :: "u8 list \<Rightarrow> u32" where
  [byte_defs]: "of_le32 bs = ucast (bs ! 0) OR push_bit 8 (ucast (bs ! 1))
     OR push_bit 16 (ucast (bs ! 2)) OR push_bit 24 (ucast (bs ! 3))"

lemma length_le16 [simp]: "length (le16 w) = 2"
  by (simp add: le16_def)

lemma length_le32 [simp]: "length (le32 w) = 4"
  by (simp add: le32_def)

lemma length_be16 [simp]: "length (be16 w) = 2"
  by (simp add: be16_def)

lemma length_be32 [simp]: "length (be32 w) = 4"
  by (simp add: be32_def)

lemma of_le16_le16 [simp]: "of_le16 (le16 w) = w"
  by (rule bit_word_eqI) (auto simp: byte_defs bit_simps)

lemma bit_of_le16: "bit (of_le16 [lo, hi]) n = (if n < 8 then bit lo n else bit hi (n - 8))"
  by (auto simp: byte_defs bit_simps dest: bit_imp_le_length)

lemma of_le32_le32 [simp]: "of_le32 (le32 w) = w"
proof (rule bit_word_eqI)
  fix n :: nat
  assume "n < LENGTH(32)"
  then consider "n < 8" | "8 \<le> n \<and> n < 16" | "16 \<le> n \<and> n < 24" | "24 \<le> n \<and> n < 32"
    by force
  then show "bit (of_le32 (le32 w)) n = bit w n"
    by cases (auto simp: byte_defs bit_simps)
qed

lemma of_le16_rev_be16 [simp]: "of_le16 (rev (be16 w)) = w"
  by (simp add: be16_def)

lemma of_le32_rev_be32 [simp]: "of_le32 (rev (be32 w)) = w"
  by (simp add: be32_def)

section \<open>Words\<close>

lemma xor_eq_iff [simp]:
  fixes a b c :: "'a::len word"
  shows "a XOR c = b XOR c \<longleftrightarrow> a = b"
proof
  assume "a XOR c = b XOR c"
  then have "(a XOR c) XOR c = (b XOR c) XOR c" by simp
  then show "a = b" by (simp add: xor.assoc)
qed simp

lemma unat_dec: "0 < w \<Longrightarrow> unat (w - 1) = unat w - 1" for w :: "'l::len word"
  by (simp add: unat_minus_one word_neq_0_conv)

lemma unat_inc: "w < v \<Longrightarrow> unat (w + 1) = Suc (unat w)" for w v :: "'l::len word"
proof -
  assume "w < v"
  then have "Suc (unat w) < 2 ^ LENGTH('l)"
    using unsigned_less [of v, where ?'a = nat] by (simp only: word_less_nat_alt)
  then show ?thesis by (simp add: unat_word_ariths)
qed

section \<open>Lists\<close>

lemma fold_inj_start:
  assumes "\<And>x. inj (f x)" and "fold f xs a = fold f xs b"
  shows "a = b"
  using assms(2)
proof (induction xs arbitrary: a b)
  case Nil
  then show ?case by simp
next
  case (Cons x xs)
  then have "f x a = f x b" by simp
  with assms(1) show ?case by (auto dest: injD)
qed

end
