(* ===== verification/Crc.thy ===== *)
theory Crc
  imports Prelude
begin

text \<open>
  The checksums of \<open>unitree/dds_wrapper/common/crc.h\<close>, which protect the low-level command and
  state messages. The model follows the two loops of \<open>crc32_core\<close> bit by bit and the table loop of
  \<open>crc16_core\<close>; the reference definitions are a linear feedback shift register and the
  bitwise reflected division, and the lemmas relate the two and derive the error detection the
  checksums are used for.
\<close>

section \<open>crc32_core\<close>

definition dwPolynomial :: u32 where
  [const_defs]: "dwPolynomial = 0x04c11db7"

definition crc32_bit :: "u32 \<Rightarrow> u32 \<times> u32 \<Rightarrow> u32 \<times> u32" where
  "crc32_bit data s = (case s of (CRC32, xbit) \<Rightarrow>
     let CRC32 = (if CRC32 AND 0x80000000 \<noteq> 0 then push_bit 1 CRC32 XOR dwPolynomial
                  else push_bit 1 CRC32);
         CRC32 = (if data AND xbit \<noteq> 0 then CRC32 XOR dwPolynomial else CRC32)
     in (CRC32, drop_bit 1 xbit))"

definition crc32_word :: "u32 \<Rightarrow> u32 \<Rightarrow> u32" where
  "crc32_word data CRC32 = fst ((crc32_bit data ^^ 32) (CRC32, push_bit 31 1))"

definition crc32_words :: "u32 list \<Rightarrow> u32" where
  "crc32_words ws = fold crc32_word ws 0xFFFFFFFF"

text \<open>The caller passes the buffer and the number of words to read; reading past the buffer is \<open>None\<close>.\<close>

definition crc32_core :: "u32 list \<Rightarrow> u32 \<Rightarrow> u32 option" where
  "crc32_core ptr len =
     (if unat len \<le> length ptr then Some (crc32_words (take (unat len) ptr)) else None)"

subsection \<open>The shift register\<close>

definition lfsr :: "u32 \<Rightarrow> u32" where
  "lfsr c = push_bit 1 c XOR (if bit c 31 then dwPolynomial else 0)"

lemma and_msb_neq_0: "(c :: u32) AND 0x80000000 \<noteq> 0 \<longleftrightarrow> bit c 31"
proof -
  have "(0x80000000 :: u32) = push_bit 31 1" by simp
  then show ?thesis by (simp add: bit_iff_and_push_bit_not_eq_0 and.commute)
qed

lemma lfsr_xor: "lfsr (a XOR b) = lfsr a XOR lfsr b"
  by (auto simp: lfsr_def push_bit_xor bit_xor_iff xor.assoc xor.left_commute xor.commute)

lemma lfsr_0 [simp]: "lfsr 0 = 0"
  by (simp add: lfsr_def)

lemma lfsr_pow_xor: "(lfsr ^^ n) (a XOR b) = (lfsr ^^ n) a XOR (lfsr ^^ n) b"
  by (induction n) (simp_all add: lfsr_xor)

lemma lfsr_pow_0 [simp]: "(lfsr ^^ n) 0 = 0"
  by (induction n) simp_all


lemma lfsr_bit0: "bit (lfsr c) 0 \<longleftrightarrow> bit c 31"
  unfolding lfsr_def bit_xor_iff bit_push_bit_iff by (simp add: const_defs)

lemma lfsr_inj: "inj lfsr"
proof (rule injI)
  fix a b :: u32
  assume eq: "lfsr a = lfsr b"
  then have top: "bit a 31 = bit b 31"
    using lfsr_bit0 [of a] lfsr_bit0 [of b] by simp
  with eq have "push_bit 1 a = push_bit 1 b"
    by (simp add: lfsr_def)
  then have "bit (push_bit 1 a) (Suc n) = bit (push_bit 1 b) (Suc n)" for n
    by (rule arg_cong)
  then have low: "n < 31 \<Longrightarrow> bit a n = bit b n" for n
    unfolding bit_push_bit_iff by auto
  show "a = b"
  proof (rule bit_word_eqI)
    fix n :: nat
    assume "n < LENGTH(32)"
    then consider "n = 31" | "n < 31" by force
    then show "bit a n = bit b n"
      using top low [of n] by cases simp_all
  qed
qed

lemma lfsr_pow_inj: "inj (lfsr ^^ n)"
proof (induction n)
  case (Suc n)
  show ?case unfolding funpow.simps by (rule inj_compose [OF lfsr_inj Suc])
qed simp

lemma lfsr_single_bit: "n < 31 \<Longrightarrow> lfsr (push_bit n 1) = push_bit (Suc n) 1"
  by (simp add: lfsr_def bit_exp_iff)

lemma lfsr_pow_single_bit: "n \<le> 31 \<Longrightarrow> (lfsr ^^ n) (push_bit (31 - n) 1) = push_bit 31 1"
proof (induction n)
  case 0
  then show ?case by simp
next
  case (Suc n)
  have "(lfsr ^^ Suc n) (push_bit (31 - Suc n) 1) = (lfsr ^^ n) (lfsr (push_bit (31 - Suc n) 1))"
    by (simp add: funpow_swap1)
  also have "lfsr (push_bit (31 - Suc n) 1) = push_bit (31 - n) 1"
  proof -
    have "Suc (31 - Suc n) = 31 - n" using Suc.prems by simp
    then show ?thesis using lfsr_single_bit [of "31 - Suc n"] by (simp only: )
  qed
  finally show ?case using Suc by simp
qed

text \<open>One round of the inner loop is one register step on the state with the data bit fed in at the top.\<close>

lemma crc32_bit_lfsr:
  assumes "n < 32"
  shows "crc32_bit d (c, push_bit n 1) =
     (lfsr (c XOR (if bit d n then push_bit 31 1 else 0)), drop_bit 1 (push_bit n 1))"
proof -
  have b: "d AND push_bit n 1 \<noteq> 0 \<longleftrightarrow> bit d n"
    by (simp add: bit_iff_and_push_bit_not_eq_0)
  have "lfsr (push_bit 31 1) = dwPolynomial"
    by (simp add: lfsr_def const_defs)
  then show ?thesis
    unfolding crc32_bit_def Let_def and_msb_neq_0 b prod.case
    by (simp add: lfsr_xor) (simp add: lfsr_def)
qed

text \<open>The first \<open>n\<close> bits of a word, from the most significant end.\<close>

definition high_bits :: "nat \<Rightarrow> u32 \<Rightarrow> u32" where
  "high_bits n d = push_bit (32 - n) (drop_bit (32 - n) d)"

lemma bit_high_bits: "bit (high_bits n d) k \<longleftrightarrow> 32 - n \<le> k \<and> bit d k"
  by (auto simp: high_bits_def bit_simps dest: bit_imp_le_length)

lemma high_bits_0 [simp]: "high_bits 0 d = 0"
  by (rule bit_word_eqI) (simp add: bit_high_bits)

lemma high_bits_32 [simp]: "high_bits 32 d = d"
  by (rule bit_word_eqI) (simp add: bit_high_bits)

lemma high_bits_Suc:
  "n < 32 \<Longrightarrow> high_bits (Suc n) d = high_bits n d XOR (if bit d (31 - n) then push_bit (31 - n) 1 else 0)"
proof (rule bit_word_eqI)
  fix k :: nat
  assume n: "n < 32" and k: "k < LENGTH(32)"
  have "32 - Suc n \<le> k \<longleftrightarrow> 32 - n \<le> k \<or> k = 31 - n"
    using n by auto
  moreover have "\<not> 32 - n \<le> 31 - n"
    using n by simp
  ultimately show "bit (high_bits (Suc n) d) k =
      bit (high_bits n d XOR (if bit d (31 - n) then push_bit (31 - n) 1 else 0)) k"
    using k by (auto simp: bit_high_bits bit_xor_iff bit_exp_iff)
qed

lemma crc32_bit_pow:
  "n \<le> 32 \<Longrightarrow> (crc32_bit d ^^ n) (c, push_bit 31 1) =
     ((lfsr ^^ n) (c XOR high_bits n d), drop_bit n (push_bit 31 1))"
proof (induction n)
  case 0
  then show ?case by simp
next
  case (Suc n)
  have x: "drop_bit n (push_bit 31 1) = (push_bit (31 - n) 1 :: u32)"
  proof (rule bit_word_eqI)
    fix k :: nat
    assume "k < LENGTH(32)"
    then show "bit (drop_bit n (push_bit 31 1) :: u32) k = bit (push_bit (31 - n) 1 :: u32) k"
      using Suc.prems unfolding bit_drop_bit_eq o_def bit_push_bit_iff by (auto simp: bit_1_iff)
  qed
  let ?b = "if bit d (31 - n) then push_bit 31 1 else (0 :: u32)"
  have b: "?b = (lfsr ^^ n) (if bit d (31 - n) then push_bit (31 - n) 1 else 0)"
    using Suc.prems lfsr_pow_single_bit [of n] by simp
  have "(crc32_bit d ^^ Suc n) (c, push_bit 31 1) =
      crc32_bit d ((lfsr ^^ n) (c XOR high_bits n d), push_bit (31 - n) 1)"
    using Suc x by simp
  also have "\<dots> = (lfsr ((lfsr ^^ n) (c XOR high_bits n d) XOR ?b), drop_bit 1 (push_bit (31 - n) 1))"
    by (rule crc32_bit_lfsr) (use Suc.prems in simp)
  also have "(lfsr ^^ n) (c XOR high_bits n d) XOR ?b = (lfsr ^^ n) (c XOR high_bits (Suc n) d)"
    unfolding b lfsr_pow_xor [symmetric] using Suc.prems by (simp add: high_bits_Suc xor.assoc)
  also have "drop_bit 1 (push_bit (31 - n) 1) = drop_bit (Suc n) (push_bit 31 (1 :: u32))"
    unfolding x [symmetric] by simp
  finally show ?case by simp
qed

lemma crc32_word_lfsr: "crc32_word d c = (lfsr ^^ 32) (c XOR d)"
  unfolding crc32_word_def using crc32_bit_pow [of 32 d c] by (simp only: high_bits_32 fst_conv)

lemma crc32_word_inj: "inj (crc32_word d)"
  unfolding crc32_word_lfsr
  by (rule injI) (metis lfsr_pow_inj injD xor_eq_iff)

lemma crc32_word_inj_data: "crc32_word d c = crc32_word d' c \<Longrightarrow> d = d'"
  unfolding crc32_word_lfsr
  by (metis lfsr_pow_inj injD xor_eq_iff xor.commute)

lemma crc32_words_append: "crc32_words (xs @ ys) = fold crc32_word ys (crc32_words xs)"
  by (simp add: crc32_words_def)


section \<open>crc16_core\<close>

definition wCRCTable :: "u16 list" where
  "wCRCTable = [
   0x0000, 0xC0C1, 0xC181, 0x0140, 0xC301, 0x03C0, 0x0280, 0xC241,
   0xC601, 0x06C0, 0x0780, 0xC741, 0x0500, 0xC5C1, 0xC481, 0x0440,
   0xCC01, 0x0CC0, 0x0D80, 0xCD41, 0x0F00, 0xCFC1, 0xCE81, 0x0E40,
   0x0A00, 0xCAC1, 0xCB81, 0x0B40, 0xC901, 0x09C0, 0x0880, 0xC841,
   0xD801, 0x18C0, 0x1980, 0xD941, 0x1B00, 0xDBC1, 0xDA81, 0x1A40,
   0x1E00, 0xDEC1, 0xDF81, 0x1F40, 0xDD01, 0x1DC0, 0x1C80, 0xDC41,
   0x1400, 0xD4C1, 0xD581, 0x1540, 0xD701, 0x17C0, 0x1680, 0xD641,
   0xD201, 0x12C0, 0x1380, 0xD341, 0x1100, 0xD1C1, 0xD081, 0x1040,
   0xF001, 0x30C0, 0x3180, 0xF141, 0x3300, 0xF3C1, 0xF281, 0x3240,
   0x3600, 0xF6C1, 0xF781, 0x3740, 0xF501, 0x35C0, 0x3480, 0xF441,
   0x3C00, 0xFCC1, 0xFD81, 0x3D40, 0xFF01, 0x3FC0, 0x3E80, 0xFE41,
   0xFA01, 0x3AC0, 0x3B80, 0xFB41, 0x3900, 0xF9C1, 0xF881, 0x3840,
   0x2800, 0xE8C1, 0xE981, 0x2940, 0xEB01, 0x2BC0, 0x2A80, 0xEA41,
   0xEE01, 0x2EC0, 0x2F80, 0xEF41, 0x2D00, 0xEDC1, 0xEC81, 0x2C40,
   0xE401, 0x24C0, 0x2580, 0xE541, 0x2700, 0xE7C1, 0xE681, 0x2640,
   0x2200, 0xE2C1, 0xE381, 0x2340, 0xE101, 0x21C0, 0x2080, 0xE041,
   0xA001, 0x60C0, 0x6180, 0xA141, 0x6300, 0xA3C1, 0xA281, 0x6240,
   0x6600, 0xA6C1, 0xA781, 0x6740, 0xA501, 0x65C0, 0x6480, 0xA441,
   0x6C00, 0xACC1, 0xAD81, 0x6D40, 0xAF01, 0x6FC0, 0x6E80, 0xAE41,
   0xAA01, 0x6AC0, 0x6B80, 0xAB41, 0x6900, 0xA9C1, 0xA881, 0x6840,
   0x7800, 0xB8C1, 0xB981, 0x7940, 0xBB01, 0x7BC0, 0x7A80, 0xBA41,
   0xBE01, 0x7EC0, 0x7F80, 0xBF41, 0x7D00, 0xBDC1, 0xBC81, 0x7C40,
   0xB401, 0x74C0, 0x7580, 0xB541, 0x7700, 0xB7C1, 0xB681, 0x7640,
   0x7200, 0xB2C1, 0xB381, 0x7340, 0xB101, 0x71C0, 0x7080, 0xB041,
   0x5000, 0x90C1, 0x9181, 0x5140, 0x9301, 0x53C0, 0x5280, 0x9241,
   0x9601, 0x56C0, 0x5780, 0x9741, 0x5500, 0x95C1, 0x9481, 0x5440,
   0x9C01, 0x5CC0, 0x5D80, 0x9D41, 0x5F00, 0x9FC1, 0x9E81, 0x5E40,
   0x5A00, 0x9AC1, 0x9B81, 0x5B40, 0x9901, 0x59C0, 0x5880, 0x9841,
   0x8801, 0x48C0, 0x4980, 0x8941, 0x4B00, 0x8BC1, 0x8A81, 0x4A40,
   0x4E00, 0x8EC1, 0x8F81, 0x4F40, 0x8D01, 0x4DC0, 0x4C80, 0x8C41,
   0x4400, 0x84C1, 0x8581, 0x4540, 0x8701, 0x47C0, 0x4680, 0x8641,
   0x8201, 0x42C0, 0x4380, 0x8341, 0x4100, 0x81C1, 0x8081, 0x4040]"

definition crc16_byte :: "u8 \<Rightarrow> u16 \<Rightarrow> u16" where
  "crc16_byte b wCRCWord =
     (let nTemp = ucast (ucast b XOR wCRCWord) :: u8
      in drop_bit 8 wCRCWord XOR wCRCTable ! unat nTemp)"

definition crc16_bytes :: "u8 list \<Rightarrow> u16" where
  "crc16_bytes bs = fold crc16_byte bs 0xFFFF"

definition crc16_core :: "u8 list \<Rightarrow> u16 \<Rightarrow> u16 option" where
  "crc16_core nData wLength =
     (if unat wLength \<le> length nData then Some (crc16_bytes (take (unat wLength) nData)) else None)"

subsection \<open>The reflected division\<close>

definition rlfsr :: "u16 \<Rightarrow> u16" where
  "rlfsr c = drop_bit 1 c XOR (if bit c 0 then 0xA001 else 0)"

lemma wCRCTable_length [simp]: "length wCRCTable = 256"
  by (simp add: wCRCTable_def)

lemma rlfsr_numeral:
  "rlfsr 0 = 0" "rlfsr 1 = 0xA001"
  "rlfsr (numeral (Num.Bit0 n)) = drop_bit 1 (numeral (Num.Bit0 n))"
  "rlfsr (numeral (Num.Bit1 n)) = drop_bit 1 (numeral (Num.Bit1 n)) XOR 0xA001"
  by (simp_all add: rlfsr_def)

lemma rlfsr_pow_8: "(rlfsr ^^ 8) x = rlfsr (rlfsr (rlfsr (rlfsr (rlfsr (rlfsr (rlfsr (rlfsr x)))))))"
  by (simp add: eval_nat_numeral)

text \<open>Each of the 256 table entries is the remainder of its index after eight division steps.\<close>

lemma wCRCTable_eq: "map (\<lambda>i. (rlfsr ^^ 8) (word_of_nat i)) [0..<256] = wCRCTable"
  by (simp add: wCRCTable_def rlfsr_pow_8 rlfsr_numeral upt_conv_Cons)

lemma wCRCTable_nth: "i < 256 \<Longrightarrow> wCRCTable ! i = (rlfsr ^^ 8) (word_of_nat i)"
  by (simp add: wCRCTable_eq [symmetric])

lemma rlfsr_xor: "rlfsr (a XOR b) = rlfsr a XOR rlfsr b"
  by (auto simp: rlfsr_def drop_bit_xor bit_xor_iff xor.assoc xor.left_commute xor.commute)

lemma rlfsr_pow_xor: "(rlfsr ^^ n) (a XOR b) = (rlfsr ^^ n) a XOR (rlfsr ^^ n) b"
  by (induction n) (simp_all add: rlfsr_xor)

lemma rlfsr_bit15: "bit (rlfsr c) 15 \<longleftrightarrow> bit c 0"
  unfolding rlfsr_def bit_xor_iff bit_drop_bit_eq o_def by (auto dest: bit_imp_le_length)

lemma rlfsr_inj: "inj rlfsr"
proof (rule injI)
  fix a b :: u16
  assume eq: "rlfsr a = rlfsr b"
  then have low: "bit a 0 = bit b 0"
    using rlfsr_bit15 [of a] rlfsr_bit15 [of b] by simp
  with eq have "drop_bit 1 a = drop_bit 1 b"
    by (simp add: rlfsr_def)
  then have "bit (drop_bit 1 a) n = bit (drop_bit 1 b) n" for n
    by (rule arg_cong)
  then have high: "bit a (Suc n) = bit b (Suc n)" for n
    unfolding bit_drop_bit_eq o_def by simp
  show "a = b"
  proof (rule bit_word_eqI)
    fix n
    show "bit a n = bit b n" using low high by (cases n) simp_all
  qed
qed

lemma rlfsr_pow_inj: "inj (rlfsr ^^ n)"
proof (induction n)
  case (Suc n)
  show ?case unfolding funpow.simps by (rule inj_compose [OF rlfsr_inj Suc])
qed simp

lemma rlfsr_pow_high: "(\<And>k. k < n \<Longrightarrow> \<not> bit x k) \<Longrightarrow> (rlfsr ^^ n) x = drop_bit n x"
proof (induction n arbitrary: x)
  case 0
  then show ?case by simp
next
  case (Suc n)
  have "rlfsr x = drop_bit 1 x"
    using Suc.prems [of 0] by (simp add: rlfsr_def)
  moreover have "(rlfsr ^^ n) (drop_bit 1 x) = drop_bit n (drop_bit 1 x)"
    by (rule Suc.IH) (use Suc.prems in \<open>simp add: bit_drop_bit_eq\<close>)
  ultimately show ?case
    by (simp add: funpow_swap1)
qed

lemma crc16_byte_rlfsr: "crc16_byte b s = (rlfsr ^^ 8) (s XOR ucast b)"
proof -
  let ?t = "s XOR ucast b"
  let ?l = "ucast ?t :: u8"
  have split: "?t = ucast ?l XOR push_bit 8 (drop_bit 8 s)"
    by (rule bit_word_eqI) (auto simp: bit_simps dest: bit_imp_le_length)
  have high: "(rlfsr ^^ 8) (push_bit 8 (drop_bit 8 s)) = drop_bit 8 s"
  proof -
    have "(rlfsr ^^ 8) (push_bit 8 (drop_bit 8 s)) = drop_bit 8 (push_bit 8 (drop_bit 8 s))"
      by (rule rlfsr_pow_high) (simp add: bit_push_bit_iff)
    also have "\<dots> = drop_bit 8 s"
      by (rule bit_word_eqI) (auto simp: bit_drop_bit_eq bit_push_bit_iff dest: bit_imp_le_length)
    finally show ?thesis .
  qed
  have "wCRCTable ! unat ?l = (rlfsr ^^ 8) (ucast ?l)"
    using wCRCTable_nth [of "unat ?l"] unsigned_less [of ?l] by simp
  then have "crc16_byte b s = drop_bit 8 s XOR (rlfsr ^^ 8) (ucast ?l)"
    by (simp add: crc16_byte_def Let_def xor.commute)
  also have "\<dots> = (rlfsr ^^ 8) ?t"
    by (subst split) (simp only: rlfsr_pow_xor high xor.commute)
  finally show ?thesis .
qed

lemma crc16_byte_inj: "crc16_byte b s = crc16_byte b t \<Longrightarrow> s = t"
  unfolding crc16_byte_rlfsr by (metis rlfsr_pow_inj injD xor_eq_iff)

lemma crc16_byte_inj_data: "crc16_byte b s = crc16_byte b' s \<Longrightarrow> b = b'"
proof -
  assume "crc16_byte b s = crc16_byte b' s"
  then have "s XOR ucast b = s XOR (ucast b' :: u16)"
    unfolding crc16_byte_rlfsr by (rule injD [OF rlfsr_pow_inj])
  then have "(ucast b :: u16) = ucast b'"
    by (metis xor.commute xor_eq_iff)
  then have bits: "bit (ucast b :: u16) n = bit (ucast b' :: u16) n" for n
    by simp
  show "b = b'"
  proof (rule bit_word_eqI)
    fix n :: nat
    assume "n < LENGTH(8)"
    then show "bit b n = bit b' n" using bits [of n] by (simp add: bit_simps)
  qed
qed

lemma crc16_residue_step: "fold crc16_byte (le16 c) c = 0"
proof -
  have high: "\<not> bit (c XOR ucast (ucast c :: u8)) k" if "k < 8" for k
    using that by (simp add: bit_simps)
  have "crc16_byte (ucast c) c = drop_bit 8 (c XOR ucast (ucast c :: u8))"
    unfolding crc16_byte_rlfsr by (rule rlfsr_pow_high) (rule high)
  also have "\<dots> = drop_bit 8 c"
    by (rule bit_word_eqI) (auto simp: bit_simps dest: bit_imp_le_length)
  finally have first: "crc16_byte (ucast c) c = drop_bit 8 c" .
  have "(ucast (ucast (drop_bit 8 c) :: u8) :: u16) = drop_bit 8 c"
    by (rule bit_word_eqI) (auto simp: bit_simps dest: bit_imp_le_length)
  then have "crc16_byte (ucast (drop_bit 8 c)) (drop_bit 8 c) = (rlfsr ^^ 8) 0"
    unfolding crc16_byte_rlfsr by simp
  also have "(rlfsr ^^ 8) 0 = 0"
    by (simp add: rlfsr_pow_8 rlfsr_def)
  finally show ?thesis
    by (simp add: le16_def first)
qed

section \<open>What a receiver may rely on\<close>

text \<open>
  A checksum whose step is injective in the running state and in the consumed symbol tells apart
  any two messages that differ in one symbol.
\<close>

locale checksum =
  fixes step :: "'b \<Rightarrow> 's \<Rightarrow> 's"
  assumes step_inj: "step d c = step d c' \<Longrightarrow> c = c'"
    and step_inj_data: "step d c = step d' c \<Longrightarrow> d = d'"
begin

lemma fold_step_inj: "fold step xs c = fold step xs c' \<longleftrightarrow> c = c'"
  using fold_inj_start [of step xs c c'] step_inj by (auto simp: inj_def)

lemma one_symbol_detected:
  assumes "i < length xs" and "w \<noteq> xs ! i"
  shows "fold step (xs[i := w]) c \<noteq> fold step xs c"
proof -
  have "fold step (xs[i := w]) c = fold step (drop (Suc i) xs) (step w (fold step (take i xs) c))"
    using assms(1) by (simp add: upd_conv_take_nth_drop)
  moreover have "fold step xs c = fold step (drop (Suc i) xs) (step (xs ! i) (fold step (take i xs) c))"
    using id_take_nth_drop [OF assms(1)] by (metis comp_apply fold_append fold_simps(2))
  ultimately show ?thesis
    using assms(2) step_inj_data by (auto simp: fold_step_inj)
qed

lemma last_symbol_unique:
  assumes "fold step (xs @ [d]) c = r" and "fold step (xs @ [d']) c = r"
  shows "d = d'"
  using assms step_inj_data by auto

end

interpretation crc32: checksum crc32_word
  by unfold_locales (auto dest: injD [OF crc32_word_inj] crc32_word_inj_data)

interpretation crc16: checksum crc16_byte
  by unfold_locales (auto dest: crc16_byte_inj crc16_byte_inj_data)

lemma crc32_residue_step: "crc32_word c c = 0"
  by (simp add: crc32_word_lfsr)

text \<open>C13: \<open>crc32_core\<close> (\<open>crc.h\<close>) is the CRC with generator 0x04C11DB7 and initial value
  0xFFFFFFFF: for a buffer that holds \<open>len\<close> words the two nested loops compute 32 clocks of the
  linear feedback shift register per word on the register combined with the word.\<close>

theorem crc32_core_is_lfsr:
  assumes "unat len \<le> length ptr"
  shows "crc32_core ptr len =
    Some (fold (\<lambda>w c. (lfsr ^^ 32) (c XOR w)) (take (unat len) ptr) 0xFFFFFFFF)"
  using assms by (simp add: crc32_core_def crc32_words_def crc32_word_lfsr [abs_def])

theorem crc32_core_is_lfsr_witness:
  "crc32_core [0x12345678] 1 = Some ((lfsr ^^ 32) (0xFFFFFFFF XOR 0x12345678))"
  using crc32_core_is_lfsr [of 1 "[0x12345678]"] by simp

text \<open>C14: A command buffer in which exactly one of the checksummed words was changed, whatever
  the change, has a different \<open>crc32_core\<close>.\<close>

theorem crc32_core_detects_word:
  assumes "i < unat len" and "unat len \<le> length ptr" and "w \<noteq> ptr ! i"
  shows "crc32_core (ptr[i := w]) len \<noteq> crc32_core ptr len"
proof -
  have "fold crc32_word ((take (unat len) ptr)[i := w]) 0xFFFFFFFF
      \<noteq> fold crc32_word (take (unat len) ptr) 0xFFFFFFFF"
    by (rule crc32.one_symbol_detected) (use assms in auto)
  with assms show ?thesis
    by (simp add: crc32_core_def crc32_words_def take_update_swap)
qed

theorem crc32_core_detects_word_witness:
  "crc32_core [7, 9, 9] 2 \<noteq> crc32_core [7, 8, 9] 2"
  using crc32_core_detects_word [of 1 2 "[7, 8, 9]" 9] by simp

text \<open>A receiver that runs \<open>crc32_core\<close> over a message followed by its checksum word obtains 0,
  and no other checksum word gives 0.\<close>

lemma crc32_core_residue:
  assumes "length msg + 1 < 2 ^ 32" and "crc32_core msg (word_of_nat (length msg)) = Some c"
  shows "crc32_core (msg @ [c']) (word_of_nat (length msg + 1)) = Some 0 \<longleftrightarrow> c' = c"
proof -
  have c: "c = crc32_words msg"
    using assms by (simp add: crc32_core_def unat_of_nat take_bit_nat_eq_self)
  have "unat (word_of_nat (length msg + 1) :: u32) = length msg + 1"
    using assms(1) by (simp only: unat_of_nat) (simp add: take_bit_nat_eq_self)
  then have "crc32_core (msg @ [c']) (word_of_nat (length msg + 1)) = Some (crc32_word c' c)"
    by (simp add: crc32_core_def c crc32_words_append del: of_nat_add of_nat_Suc)
  then show ?thesis
    using crc32_residue_step [of c] crc32_word_inj_data [of c' c c] by auto
qed

text \<open>C26: \<open>crc16_core\<close> with its 256-entry table is the bitwise reflected division by 0xA001
  (CRC-16/MODBUS), a single changed byte is always detected, and the message followed by its
  checksum in little-endian order checks to 0.\<close>

theorem crc16_core_correct:
  assumes "unat wLength = length nData" and "crc16_core nData wLength = Some c"
  shows "c = fold (\<lambda>b s. (rlfsr ^^ 8) (s XOR ucast b)) nData 0xFFFF \<and>
    (\<forall>i b. i < length nData \<longrightarrow> b \<noteq> nData ! i \<longrightarrow> crc16_core (nData[i := b]) wLength \<noteq> Some c) \<and>
    crc16_bytes (nData @ le16 c) = 0"
proof (intro conjI allI impI)
  have c: "c = fold crc16_byte nData 0xFFFF"
    using assms by (simp add: crc16_core_def crc16_bytes_def)
  show "c = fold (\<lambda>b s. (rlfsr ^^ 8) (s XOR ucast b)) nData 0xFFFF"
    by (simp add: c crc16_byte_rlfsr [abs_def])
  show "crc16_core (nData[i := b]) wLength \<noteq> Some c" if "i < length nData" "b \<noteq> nData ! i" for i b
    using crc16.one_symbol_detected [OF that, of "0xFFFF"] assms(1)
    by (simp add: c crc16_core_def crc16_bytes_def)
  show "crc16_bytes (nData @ le16 c) = 0"
    by (simp add: c crc16_bytes_def crc16_residue_step)
qed

theorem crc16_core_correct_witness:
  "crc16_core [0x01] 1 = Some 0x807E \<and> crc16_core [0x02] 1 \<noteq> Some 0x807E"
proof -
  have "crc16_core [0x01] 1 = Some 0x807E"
    by (simp add: crc16_core_def crc16_bytes_def crc16_byte_rlfsr rlfsr_pow_8 rlfsr_numeral)
  with crc16_core_correct [of 1 "[0x01]" "0x807E"] show ?thesis by auto
qed

end
