(* ===== verification/Floats.thy ===== *)
theory Floats
  imports Prelude "HOL-Library.Log_Nat"
begin

text \<open>
  The arithmetic of the C++ types \<open>float\<close> and \<open>double\<close>. A finite value is the real number it
  denotes, and every C++ operation is the exact real operation followed by the IEEE 754 rounding
  to nearest, ties to even, of its type: \<open>rnd32\<close> for \<open>float\<close> and \<open>rnd64\<close> for \<open>double\<close>. A decimal
  literal is the rounding of its decimal value. Subnormal numbers are covered by the exponent
  floor. Infinities, NaN and the sign of zero are not represented, so the theorems speak about
  runs in which no operation overflows; no expression is contracted to a fused operation.
\<close>

section \<open>Rounding\<close>

definition rne :: "real \<Rightarrow> int" where
  "rne x = (let n = \<lfloor>x\<rfloor>; r = x - of_int n in
     if r < 1/2 then n else if r > 1/2 then n + 1 else if even n then n else n + 1)"

definition ilog2 :: "real \<Rightarrow> int" where
  "ilog2 x = (if x \<ge> 1 then int (floorlog 2 (nat \<lfloor>x\<rfloor>)) - 1
              else - int (floorlog 2 (nat (\<lceil>1 / x\<rceil> - 1))))"

definition ulp_exp :: "int \<Rightarrow> int \<Rightarrow> real \<Rightarrow> int" where
  "ulp_exp p emin x = max (ilog2 \<bar>x\<bar> - (p - 1)) emin"

definition fl :: "int \<Rightarrow> int \<Rightarrow> real \<Rightarrow> real" where
  "fl p emin x = (if x = 0 then 0 else
     of_int (rne (x / 2 powi ulp_exp p emin x)) * 2 powi ulp_exp p emin x)"

definition rnd32 :: "real \<Rightarrow> real" where
  "rnd32 = fl 24 (-149)"

definition rnd64 :: "real \<Rightarrow> real" where
  "rnd64 = fl 53 (-1074)"

lemma rne_bounds: "\<bar>of_int (rne x) - x\<bar> \<le> 1/2"
proof -
  have "of_int \<lfloor>x\<rfloor> \<le> x" "x \<le> of_int \<lfloor>x\<rfloor> + 1" by linarith+
  then show ?thesis unfolding rne_def Let_def abs_if by (auto simp: algebra_simps) linarith+
qed

lemma rne_of_int [simp]: "rne (of_int n) = n"
  by (simp add: rne_def)

lemma rne_mono: "x \<le> y \<Longrightarrow> rne x \<le> rne y"
proof -
  assume le: "x \<le> y"
  show ?thesis
  proof (cases "\<lfloor>x\<rfloor> = \<lfloor>y\<rfloor>")
    case True
    with le show ?thesis by (auto simp: rne_def Let_def)
  next
    case False
    with le have "\<lfloor>x\<rfloor> + 1 \<le> \<lfloor>y\<rfloor>" using floor_mono [OF le] by linarith
    moreover have "rne x \<le> \<lfloor>x\<rfloor> + 1" "\<lfloor>y\<rfloor> \<le> rne y" by (auto simp: rne_def Let_def)
    ultimately show ?thesis by linarith
  qed
qed

lemma rne_minus: "rne (- x) = - rne x"
proof (cases "x = of_int \<lfloor>x\<rfloor>")
  case True
  then show ?thesis by (metis of_int_minus rne_of_int)
next
  case False
  then have "\<lfloor>- x\<rfloor> = - \<lfloor>x\<rfloor> - 1" by linarith
  then show ?thesis by (auto simp: rne_def Let_def)
qed

lemma rne_le_int: "x \<le> of_int n \<Longrightarrow> rne x \<le> n"
  using rne_mono [of x "of_int n"] by simp

lemma int_le_rne: "of_int n \<le> x \<Longrightarrow> n \<le> rne x"
  using rne_mono [of "of_int n" x] by simp

lemma ilog2_bounds:
  assumes "0 < x"
  shows "2 powi ilog2 x \<le> x" and "x < 2 powi (ilog2 x + 1)"
proof -
  have "2 powi ilog2 x \<le> x \<and> x < 2 powi (ilog2 x + 1)"
  proof (cases "x \<ge> 1")
    case True
    define n where "n = nat \<lfloor>x\<rfloor>"
    define f where "f = floorlog 2 n"
    have n: "n > 0" "real n \<le> x" "x < real n + 1" using True by (auto simp: n_def; linarith)+
    have b: "2 ^ (f - 1) \<le> n" "n < 2 ^ f"
      using floorlog_bounds [of n 2] n by (auto simp: f_def)
    have f: "f > 0" using b n by (cases f) auto
    have e: "ilog2 x = int (f - 1)" "ilog2 x + 1 = int f"
      using True f by (auto simp: ilog2_def f_def n_def)
    have "2 ^ (f - 1) \<le> real n" using b(1) by (metis of_nat_le_iff of_nat_numeral of_nat_power)
    moreover have "real n + 1 \<le> 2 ^ f"
      using b(2) by (metis Suc_leI of_nat_Suc of_nat_le_iff add.commute of_nat_numeral of_nat_power)
    ultimately have "2 ^ (f - 1) \<le> x \<and> x < 2 ^ f" using n by (meson order_trans less_le_trans)
    then show ?thesis unfolding e(2) unfolding e(1) power_int_of_nat by simp
  next
    case False
    define m where "m = nat (\<lceil>1 / x\<rceil> - 1)"
    define f where "f = floorlog 2 m"
    have gt: "1 < 1 / x" using assms False by simp
    then have m: "m > 0" "real m < 1 / x" "1 / x \<le> real m + 1"
      by (auto simp: m_def; linarith)+
    have b: "2 ^ (f - 1) \<le> m" "m < 2 ^ f"
      using floorlog_bounds [of m 2] m by (auto simp: f_def)
    have f: "f > 0" using b m by (cases f) auto
    have e: "ilog2 x = - int f" "ilog2 x + 1 = - int (f - 1)"
      using False f by (auto simp: ilog2_def f_def m_def)
    have "2 ^ (f - 1) \<le> real m" using b(1) by (metis of_nat_le_iff of_nat_numeral of_nat_power)
    moreover have "real m + 1 \<le> 2 ^ f"
      using b(2) by (metis Suc_leI of_nat_Suc of_nat_le_iff add.commute of_nat_numeral of_nat_power)
    ultimately have "2 ^ (f - 1) < 1 / x \<and> 1 / x \<le> 2 ^ f" using m by (meson order_trans le_less_trans)
    then have "inverse (2 ^ f) \<le> x \<and> x < inverse (2 ^ (f - 1))"
      using assms by (simp add: field_simps)
    then show ?thesis unfolding e(2) unfolding e(1) power_int_minus power_int_of_nat by simp
  qed
  then show "2 powi ilog2 x \<le> x" and "x < 2 powi (ilog2 x + 1)" by auto
qed

lemma powi2_less_iff: "(2 :: real) powi a < 2 powi b \<longleftrightarrow> a < b"
  by (metis linorder_not_less one_less_numeral_iff power_int_increasing power_int_strict_increasing
      order_less_imp_le semiring_norm(76))

lemma powi2_le_iff: "(2 :: real) powi a \<le> 2 powi b \<longleftrightarrow> a \<le> b"
  using powi2_less_iff [of b a] by (simp add: linorder_not_less [symmetric])

lemma ilog2_eqI:
  assumes "2 powi k \<le> x" and "x < 2 powi (k + 1)"
  shows "ilog2 x = k"
proof -
  have pos: "0 < x" using assms(1) by (smt (verit) zero_less_power_int)
  have "(2 :: real) powi k < 2 powi (ilog2 x + 1)" "(2 :: real) powi ilog2 x < 2 powi (k + 1)"
    using assms ilog2_bounds [OF pos] by linarith+
  then show ?thesis by (simp add: powi2_less_iff)
qed

lemma ilog2_mono: "0 < x \<Longrightarrow> x \<le> y \<Longrightarrow> ilog2 x \<le> ilog2 y"
proof -
  assume "0 < x" "x \<le> y"
  then have "(2 :: real) powi ilog2 x < 2 powi (ilog2 y + 1)"
    using ilog2_bounds [of x] ilog2_bounds [of y] by linarith
  then show ?thesis by (simp add: powi2_less_iff)
qed

section \<open>Properties of the rounding\<close>

definition representable :: "int \<Rightarrow> int \<Rightarrow> real \<Rightarrow> bool" where
  "representable p emin x \<longleftrightarrow> (\<exists>m e. x = of_int m * 2 powi e \<and> \<bar>m\<bar> < 2 ^ nat p \<and> emin \<le> e)"

lemma fl_0 [simp]: "fl p emin 0 = 0"
  by (simp add: fl_def)

lemma fl_minus: "fl p emin (- x) = - fl p emin x"
  by (simp add: fl_def ulp_exp_def rne_minus flip: minus_divide_left)

lemma fl_error: "\<bar>fl p emin x - x\<bar> \<le> 2 powi (ulp_exp p emin x) / 2"
proof (cases "x = 0")
  case False
  let ?u = "2 powi ulp_exp p emin x :: real"
  have u: "0 < ?u" by simp
  have "fl p emin x - x = (of_int (rne (x / ?u)) - x / ?u) * ?u"
    using False by (simp add: fl_def algebra_simps)
  then have "\<bar>fl p emin x - x\<bar> = \<bar>of_int (rne (x / ?u)) - x / ?u\<bar> * ?u"
    by (simp only: abs_mult) simp
  also have "\<dots> \<le> (1/2) * ?u"
    by (rule mult_right_mono [OF rne_bounds]) (use u in linarith)
  finally show ?thesis by simp
qed simp

lemma powi2_div: "e \<le> k \<Longrightarrow> (2 :: real) powi k / 2 powi e = of_int (2 ^ nat (k - e))"
proof -
  assume "e \<le> k"
  have "(2 :: real) powi k / 2 powi e = 2 powi (k - e)"
    using power_int_diff [of "2 :: real" k e] by simp
  also have "\<dots> = 2 ^ nat (k - e)"
    using \<open>e \<le> k\<close> by (simp add: power_int_def)
  finally show ?thesis by simp
qed

lemma fl_le_powi:
  assumes "0 < x" and "x \<le> 2 powi k" and "ulp_exp p emin x \<le> k"
  shows "fl p emin x \<le> 2 powi k"
proof -
  let ?u = "2 powi ulp_exp p emin x :: real"
  have "x / ?u \<le> of_int (2 ^ nat (k - ulp_exp p emin x))"
    unfolding powi2_div [OF assms(3), symmetric] by (rule divide_right_mono [OF assms(2)]) simp
  then have "rne (x / ?u) \<le> 2 ^ nat (k - ulp_exp p emin x)"
    by (rule rne_le_int)
  then have "of_int (rne (x / ?u)) \<le> (2 :: real) powi k / ?u"
    unfolding powi2_div [OF assms(3)] by (simp only: of_int_le_iff)
  then show ?thesis using assms(1) by (simp add: fl_def field_simps)
qed

lemma powi_le_fl:
  assumes "2 powi k \<le> x" and "ulp_exp p emin x \<le> k"
  shows "2 powi k \<le> fl p emin x"
proof -
  let ?u = "2 powi ulp_exp p emin x :: real"
  have "0 < (2 :: real) powi k" by simp
  then have pos: "0 < x" using assms(1) by linarith
  have "of_int (2 ^ nat (k - ulp_exp p emin x)) \<le> x / ?u"
    unfolding powi2_div [OF assms(2), symmetric] by (rule divide_right_mono [OF assms(1)]) simp
  then have "2 ^ nat (k - ulp_exp p emin x) \<le> rne (x / ?u)"
    by (rule int_le_rne)
  then have "(2 :: real) powi k / ?u \<le> of_int (rne (x / ?u))"
    unfolding powi2_div [OF assms(2)] by (simp only: of_int_le_iff)
  then show ?thesis using pos by (simp add: fl_def field_simps)
qed

lemma fl_mono_pos:
  assumes p: "1 \<le> p" and "0 < x" and "x \<le> y"
  shows "fl p emin x \<le> fl p emin y"
proof -
  let ?ex = "ulp_exp p emin x" and ?ey = "ulp_exp p emin y"
  have y: "0 < y" using assms by simp
  have le: "?ex \<le> ?ey"
    using ilog2_mono [OF assms(2,3)] assms y by (auto simp: ulp_exp_def)
  show ?thesis
  proof (cases "?ex = ?ey")
    case True
    have "rne (x / 2 powi ?ey) \<le> rne (y / 2 powi ?ey)"
      by (rule rne_mono) (use assms in \<open>simp add: divide_right_mono\<close>)
    with True assms y show ?thesis by (simp add: fl_def)
  next
    case False
    define k where "k = ilog2 y"
    have ey: "?ey = k - (p - 1)" and lx: "ilog2 x < k"
      using False le assms y by (auto simp: ulp_exp_def k_def max_def split: if_splits)
    have ek: "?ex \<le> k" "?ey \<le> k" using le ey p by linarith+
    have "(2 :: real) powi (ilog2 x + 1) \<le> 2 powi k" using lx by (simp add: powi2_le_iff)
    then have "x \<le> 2 powi k" using ilog2_bounds(2) [OF assms(2)] by linarith
    then have "fl p emin x \<le> 2 powi k" by (rule fl_le_powi [OF assms(2) _ ek(1)])
    also have "\<dots> \<le> fl p emin y"
      by (rule powi_le_fl [OF _ ek(2)]) (unfold k_def, rule ilog2_bounds(1) [OF y])
    finally show ?thesis .
  qed
qed

lemma fl_nonneg: "0 \<le> x \<Longrightarrow> 0 \<le> fl p emin x"
proof -
  assume "0 \<le> x"
  then have "0 \<le> rne (x / 2 powi ulp_exp p emin x)"
    by (intro int_le_rne) simp
  then show ?thesis by (simp add: fl_def)
qed

lemma fl_mono:
  assumes p: "1 \<le> p" and "x \<le> y"
  shows "fl p emin x \<le> fl p emin y"
proof -
  have neg: "fl p emin z \<le> 0" if "z \<le> 0" for z
    using fl_nonneg [of "- z" p emin] that by (simp add: fl_minus)
  consider "0 < x" | "x \<le> 0" "0 \<le> y" | "y < 0" by linarith
  then show ?thesis
  proof cases
    case 1
    then show ?thesis by (rule fl_mono_pos [OF p _ assms(2)])
  next
    case 2
    then show ?thesis using neg [of x] fl_nonneg [of y p emin] by linarith
  next
    case 3
    then have "fl p emin (- y) \<le> fl p emin (- x)"
      using assms by (intro fl_mono_pos) auto
    then show ?thesis by (simp add: fl_minus)
  qed
qed

lemma fl_representable:
  assumes p: "1 \<le> p" and "representable p emin x"
  shows "fl p emin x = x"
proof (cases "x = 0")
  case False
  from assms(2) obtain m e where x: "x = of_int m * 2 powi e" and m: "\<bar>m\<bar> < 2 ^ nat p" and e: "emin \<le> e"
    by (auto simp: representable_def)
  have "\<bar>x\<bar> = of_int \<bar>m\<bar> * 2 powi e" by (simp add: x abs_mult)
  also have "\<dots> < of_int (2 ^ nat p) * 2 powi e"
    using m by (intro mult_strict_right_mono) (simp_all only: of_int_less_iff, simp)
  also have "\<dots> = 2 powi (p + e)"
    using p power_int_add [of "2 :: real" p e] by (simp add: power_int_def [of _ p])
  finally have "\<bar>x\<bar> < 2 powi (p + e)" .
  then have "(2 :: real) powi ilog2 \<bar>x\<bar> < 2 powi (p + e)"
    using ilog2_bounds(1) [of "\<bar>x\<bar>"] False by simp
  then have u: "ulp_exp p emin x \<le> e"
    using e by (simp add: powi2_less_iff ulp_exp_def)
  have "x / 2 powi ulp_exp p emin x = of_int (m * 2 ^ nat (e - ulp_exp p emin x))"
    using powi2_div [OF u] unfolding x by (simp only: of_int_mult times_divide_eq_right [symmetric])
  then have "rne (x / 2 powi ulp_exp p emin x) = m * 2 ^ nat (e - ulp_exp p emin x)"
    by (simp only: rne_of_int)
  then show ?thesis
    using False powi2_div [OF u] by (simp add: fl_def x field_simps)
qed simp

lemma representable_fl:
  assumes "1 \<le> p"
  shows "representable p emin (fl p emin x)"
proof (cases "x = 0")
  case True
  then show ?thesis by (auto simp: representable_def intro!: exI [of _ 0] exI [of _ emin])
next
  case False
  let ?e = "ulp_exp p emin x"
  let ?n = "rne (x / 2 powi ?e)"
  have emin: "emin \<le> ?e" by (simp add: ulp_exp_def)
  have "\<bar>x\<bar> < 2 powi (ilog2 \<bar>x\<bar> + 1)" using False by (intro ilog2_bounds) simp
  also have "\<dots> \<le> 2 powi (?e + p)" by (simp add: powi2_le_iff ulp_exp_def)
  also have "\<dots> = 2 ^ nat p * 2 powi ?e"
    using assms power_int_add [of "2 :: real" ?e p] by (simp add: power_int_def [of _ p])
  finally have "\<bar>x / 2 powi ?e\<bar> \<le> of_int (2 ^ nat p)"
    by (simp add: abs_divide divide_le_eq)
  then have "x / 2 powi ?e \<le> of_int (2 ^ nat p)" "of_int (- (2 ^ nat p)) \<le> x / 2 powi ?e"
    unfolding of_int_minus by linarith+
  then have n: "\<bar>?n\<bar> \<le> 2 ^ nat p"
    using rne_le_int int_le_rne by (metis abs_leI minus_le_iff)
  have f: "fl p emin x = of_int ?n * 2 powi ?e" using False by (simp add: fl_def)
  show ?thesis
  proof (cases "\<bar>?n\<bar> < 2 ^ nat p")
    case True
    with f emin show ?thesis unfolding representable_def by blast
  next
    case False
    with n have abs: "\<bar>?n\<bar> = 2 ^ nat p" by simp
    have "fl p emin x = of_int (sgn ?n) * (of_int \<bar>?n\<bar> * 2 powi ?e)"
      unfolding mult.assoc [symmetric] of_int_mult [symmetric] sgn_mult_abs by (rule f)
    also have "\<dots> = of_int (sgn ?n) * 2 powi (?e + p)"
      using assms power_int_add [of "2 :: real" ?e p] by (simp add: abs power_int_def [of _ p])
    finally have "fl p emin x = of_int (sgn ?n) * 2 powi (?e + p)" .
    moreover have "\<bar>sgn ?n\<bar> < 2 ^ nat p"
      using assms abs by (auto simp: abs_sgn_eq)
    moreover have "emin \<le> ?e + p" using emin assms by linarith
    ultimately show ?thesis unfolding representable_def by blast
  qed
qed

section \<open>The contract of a rounding\<close>

text \<open>
  What the components use of floating point: rounding is monotone, odd and leaves the values of
  the type unchanged, so a comparison against a value of the type survives rounding.
\<close>

locale rounding =
  fixes rnd :: "real \<Rightarrow> real" and rep :: "real \<Rightarrow> bool"
  assumes rnd_mono: "x \<le> y \<Longrightarrow> rnd x \<le> rnd y"
    and rnd_minus: "rnd (- x) = - rnd x"
    and rnd_rep: "rep x \<Longrightarrow> rnd x = x"
    and rep_rnd: "rep (rnd x)"
begin

lemma rnd_idem [simp]: "rnd (rnd x) = rnd x"
  by (rule rnd_rep [OF rep_rnd])

lemma rnd_0 [simp]: "rnd 0 = 0"
  using rnd_minus [of 0] by simp

lemma rnd_le: "x \<le> b \<Longrightarrow> rep b \<Longrightarrow> rnd x \<le> b"
  using rnd_mono [of x b] by (simp add: rnd_rep)

lemma le_rnd: "b \<le> x \<Longrightarrow> rep b \<Longrightarrow> b \<le> rnd x"
  using rnd_mono [of b x] by (simp add: rnd_rep)

lemma rnd_nonneg: "0 \<le> x \<Longrightarrow> 0 \<le> rnd x"
  using rnd_mono [of 0 x] by simp

lemma rnd_nonpos: "x \<le> 0 \<Longrightarrow> rnd x \<le> 0"
  using rnd_mono [of x 0] by simp

lemma rnd_abs: "\<bar>rnd x\<bar> = rnd \<bar>x\<bar>"
  using rnd_nonneg [of x] rnd_nonpos [of x] by (cases "0 \<le> x") (simp_all add: rnd_minus)

lemma rnd_abs_le: "\<bar>x\<bar> \<le> b \<Longrightarrow> rep b \<Longrightarrow> \<bar>rnd x\<bar> \<le> b"
  unfolding rnd_abs by (rule rnd_le)

lemma rnd_interval: "a \<le> x \<Longrightarrow> x \<le> b \<Longrightarrow> rep a \<Longrightarrow> rep b \<Longrightarrow> a \<le> rnd x \<and> rnd x \<le> b"
  by (simp add: rnd_le le_rnd)

end

abbreviation rep32 :: "real \<Rightarrow> bool" where
  "rep32 \<equiv> representable 24 (-149)"

abbreviation rep64 :: "real \<Rightarrow> bool" where
  "rep64 \<equiv> representable 53 (-1074)"

interpretation f32: rounding rnd32 rep32
  unfolding rnd32_def
  by unfold_locales (simp_all add: fl_mono fl_minus fl_representable representable_fl)

interpretation f64: rounding rnd64 rep64
  unfolding rnd64_def
  by unfold_locales (simp_all add: fl_mono fl_minus fl_representable representable_fl)

lemma rep32_of_int [simp]: "\<bar>m\<bar> < 16777216 \<Longrightarrow> rep32 (of_int m)"
  unfolding representable_def by (rule exI [of _ m], rule exI [of _ 0]) simp

lemma rep64_of_int [simp]: "\<bar>m\<bar> < 9007199254740992 \<Longrightarrow> rep64 (of_int m)"
  unfolding representable_def by (rule exI [of _ m], rule exI [of _ 0]) simp

lemma rep64_rep32 [simp]: "rep32 x \<Longrightarrow> rep64 x"
  unfolding representable_def
  by (elim exE conjE, rule exI, rule exI, rule conjI, assumption) auto

text \<open>The absolute rounding error below a power of two, and for the ranges the components use.\<close>

lemma fl_error_below:
  assumes "\<bar>x\<bar> < 2 powi k" and "emin \<le> k - p"
  shows "\<bar>fl p emin x - x\<bar> \<le> 2 powi (k - p) / 2"
proof (cases "x = 0")
  case False
  then have "(2 :: real) powi ilog2 \<bar>x\<bar> < 2 powi k"
    using ilog2_bounds(1) [of "\<bar>x\<bar>"] assms(1) by linarith
  then have "ilog2 \<bar>x\<bar> < k" unfolding powi2_less_iff .
  then have "(2 :: real) powi ulp_exp p emin x \<le> 2 powi (k - p)"
    unfolding powi2_le_iff using assms(2) by (simp add: ulp_exp_def)
  then show ?thesis using fl_error [of p emin x] by linarith
qed simp

lemma rnd64_error: "\<bar>x\<bar> < 2 \<Longrightarrow> \<bar>rnd64 x - x\<bar> \<le> 1 / 9007199254740992"
  using fl_error_below [of x 1 "-1074" 53] by (simp add: rnd64_def power_int_minus)

lemma rnd32_error: "\<bar>x\<bar> < 2 \<Longrightarrow> \<bar>rnd32 x - x\<bar> \<le> 1 / 16777216"
  using fl_error_below [of x 1 "-149" 24] by (simp add: rnd32_def power_int_minus)

lemma rnd32_error8: "\<bar>x\<bar> < 8 \<Longrightarrow> \<bar>rnd32 x - x\<bar> \<le> 1 / 4194304"
  using fl_error_below [of x 3 "-149" 24] by (simp add: rnd32_def power_int_minus)

section \<open>Object representation of a float\<close>

text \<open>
  The 32 bits of a \<open>float\<close>: \<open>None\<close> stands for an infinity or a NaN. Zero is written with a
  positive sign.
\<close>

definition f32_of_bits :: "u32 \<Rightarrow> real option" where
  "f32_of_bits w =
     (let sgnb = uint w div 2 ^ 31; expo = (uint w div 2 ^ 23) mod 2 ^ 8; man = uint w mod 2 ^ 23;
          s = (if sgnb = 1 then -1 else 1 :: real)
      in if expo = 255 then None
         else if expo = 0 then Some (s * of_int man * 2 powi (-149))
         else Some (s * of_int (man + 2 ^ 23) * 2 powi (expo - 150)))"

definition bits_of_f32 :: "real \<Rightarrow> u32" where
  "bits_of_f32 x = (if x = 0 then 0 else
     (let e = max (ilog2 \<bar>x\<bar>) (-126); m = \<lfloor>\<bar>x\<bar> / 2 powi (e - 23)\<rfloor>
      in word_of_int ((if x < 0 then 2 ^ 31 else 0) + (e + 126) * 2 ^ 23 + m)))"

text \<open>A finite \<open>float\<close>: representable and below the overflow threshold.\<close>

definition finite32 :: "real \<Rightarrow> bool" where
  "finite32 x \<longleftrightarrow> rep32 x \<and> \<bar>x\<bar> < 2 powi 128"

lemma finite32_mantissa:
  assumes "finite32 x" and "x \<noteq> 0"
  defines "e \<equiv> max (ilog2 \<bar>x\<bar>) (-126)"
  obtains m where "\<bar>x\<bar> = of_int m * 2 powi (e - 23)" and "0 \<le> m" and "m < 2 ^ 24"
    and "e = -126 \<or> 2 ^ 23 \<le> m" and "e < 128"
proof -
  let ?u = "ulp_exp 24 (-149) x"
  have u: "?u = e - 23" by (simp add: ulp_exp_def e_def)
  have "fl 24 (-149) x = x"
    using assms(1) by (auto simp: finite32_def intro: fl_representable)
  then have "x = of_int (rne (x / 2 powi ?u)) * 2 powi ?u"
    using assms(2) by (simp add: fl_def)
  then have ax: "\<bar>x\<bar> = of_int \<bar>rne (x / 2 powi ?u)\<bar> * 2 powi (e - 23)"
    unfolding u by (metis abs_mult abs_of_pos of_int_abs zero_less_numeral zero_less_power_int)
  define m where "m = \<bar>rne (x / 2 powi ?u)\<bar>"
  have pos: "0 < \<bar>x\<bar>" using assms(2) by simp
  have "\<bar>x\<bar> < 2 powi (ilog2 \<bar>x\<bar> + 1)" by (rule ilog2_bounds(2) [OF pos])
  also have "\<dots> \<le> 2 powi (24 + (e - 23))" by (simp add: powi2_le_iff e_def)
  also have "\<dots> = 2 ^ 24 * 2 powi (e - 23)"
    using power_int_add [of "2 :: real" 24 "e - 23"] by simp
  finally have "of_int m * 2 powi (e - 23) < of_int (2 ^ 24) * (2 :: real) powi (e - 23)"
    using ax by (simp add: m_def)
  then have ub: "m < 2 ^ 24"
    by (simp only: mult_less_cancel_right_pos zero_less_power_int zero_less_numeral of_int_less_iff)
  have lb: "2 ^ 23 \<le> m" if "e \<noteq> -126"
  proof -
    from that have "e = ilog2 \<bar>x\<bar>" by (auto simp: e_def max_def split: if_splits)
    then have "2 powi (23 + (e - 23)) \<le> \<bar>x\<bar>" using ilog2_bounds(1) [OF pos] by simp
    moreover have "(2 :: real) powi (23 + (e - 23)) = of_int (2 ^ 23) * 2 powi (e - 23)"
      using power_int_add [of "2 :: real" 23 "e - 23"] by simp
    ultimately have "of_int (2 ^ 23) * (2 :: real) powi (e - 23) \<le> of_int m * 2 powi (e - 23)"
      using ax by (simp only: m_def)
    then show ?thesis
      by (simp only: mult_le_cancel_right_pos zero_less_power_int zero_less_numeral of_int_le_iff)
  qed
  have "(2 :: real) powi ilog2 \<bar>x\<bar> < 2 powi 128"
    using ilog2_bounds(1) [OF pos] assms(1) unfolding finite32_def by linarith
  then have "e < 128" unfolding powi2_less_iff e_def by simp
  with ax ub lb show thesis by (intro that [of m]) (auto simp: m_def)
qed

lemma f32_of_bits_int:
  assumes "w = (if neg then 2 ^ 31 else 0) + expo * 2 ^ 23 + man"
    and "0 \<le> man" and "man < 2 ^ 23" and "0 \<le> expo" and "expo < 255"
  shows "f32_of_bits (word_of_int w) = Some ((if neg then -1 else 1) *
    (if expo = 0 then of_int man * 2 powi (-149) else of_int (man + 2 ^ 23) * 2 powi (expo - 150)))"
proof -
  have range: "0 \<le> w" "w < 2 ^ 32" using assms by auto
  then have "uint (word_of_int w :: u32) = w"
    by (simp add: uint_word_of_int_eq take_bit_int_eq_self)
  moreover have "w div 2 ^ 31 = (if neg then 1 else 0)"
    using assms by auto
  moreover have w: "w = man + ((if neg then 256 else 0) + expo) * 2 ^ 23"
    using assms(1) by simp
  then have "w div 2 ^ 23 = (if neg then 256 else 0) + expo" "w mod 2 ^ 23 = man"
    unfolding w using assms(2,3) by (simp_all only: mod_mult_self1) simp_all
  ultimately show ?thesis
    using assms(4,5) by (simp add: f32_of_bits_def Let_def algebra_simps)
qed

lemma f32_of_bits_of_f32:
  assumes "finite32 x"
  shows "f32_of_bits (bits_of_f32 x) = Some x"
proof (cases "x = 0")
  case True
  then show ?thesis by (simp add: f32_of_bits_def bits_of_f32_def)
next
  case False
  define e where "e = max (ilog2 \<bar>x\<bar>) (-126)"
  obtain m where m: "\<bar>x\<bar> = of_int m * 2 powi (e - 23)" "0 \<le> m" "m < 2 ^ 24"
      "e = -126 \<or> 2 ^ 23 \<le> m" "e < 128"
    using finite32_mantissa [OF assms False] unfolding e_def by blast
  have e: "-126 \<le> e" by (simp add: e_def)
  have "\<lfloor>\<bar>x\<bar> / 2 powi (e - 23)\<rfloor> = m" using m(1) by simp
  then have bits: "bits_of_f32 x = word_of_int ((if x < 0 then 2 ^ 31 else 0) + (e + 126) * 2 ^ 23 + m)"
    using False by (simp add: bits_of_f32_def Let_def e_def)
  have x: "x = (if x < 0 then -1 else 1) * \<bar>x\<bar>" by simp
  show ?thesis
  proof (cases "m < 2 ^ 23")
    case True
    with m have "e = -126" by auto
    with f32_of_bits_int [OF refl m(2) True, of 0 "x < 0"] bits m(1) x show ?thesis
      by (cases "x < 0") simp_all
  next
    case False
    have "f32_of_bits (bits_of_f32 x) = Some ((if x < 0 then -1 else 1) *
        (if e + 127 = 0 then of_int (m - 2 ^ 23) * 2 powi (-149)
         else of_int (m - 2 ^ 23 + 2 ^ 23) * 2 powi (e + 127 - 150)))"
      unfolding bits by (rule f32_of_bits_int) (use False m e in auto)
    with e m(1) x show ?thesis by (simp add: algebra_simps)
  qed
qed

end
