(* ===== verification/Gamepad.thy ===== *)
theory Gamepad
  imports Floats
begin

text \<open>
  The wireless remote of \<open>example/state_machine/gamepad.hpp\<close> (the copy under
  \<open>example/g1/low_level\<close> has the same body): the 40 raw bytes of the low-level state message, the
  union that reads them, edge detection on the buttons and the smoothed axes.
\<close>

section \<open>Raw data\<close>

text \<open>The bit fields of the key union, least significant bit first.\<close>

record xKeySwitch =
  k_R1 :: bool
  k_L1 :: bool
  k_start :: bool
  k_select :: bool
  k_R2 :: bool
  k_L2 :: bool
  k_F1 :: bool
  k_F2 :: bool
  k_A :: bool
  k_B :: bool
  k_X :: bool
  k_Y :: bool
  k_up :: bool
  k_right :: bool
  k_down :: bool
  k_left :: bool

definition xKeySwitch_of :: "u16 \<Rightarrow> xKeySwitch" where
  "xKeySwitch_of v = \<lparr>
     k_R1 = bit v 0, k_L1 = bit v 1, k_start = bit v 2, k_select = bit v 3,
     k_R2 = bit v 4, k_L2 = bit v 5, k_F1 = bit v 6, k_F2 = bit v 7,
     k_A = bit v 8, k_B = bit v 9, k_X = bit v 10, k_Y = bit v 11,
     k_up = bit v 12, k_right = bit v 13, k_down = bit v 14, k_left = bit v 15\<rparr>"

text \<open>
  An axis is \<open>None\<close> when its bits are an infinity or a NaN. The padding \<open>idle\<close> is not read.
\<close>

record xRockerBtnData =
  x_head :: "u8 list"
  x_btn :: u16
  x_lx :: "real option"
  x_rx :: "real option"
  x_ry :: "real option"
  x_L2 :: "real option"
  x_ly :: "real option"
  x_idle :: "u8 list"

definition float_at :: "nat \<Rightarrow> u8 list \<Rightarrow> real option" where
  "float_at i bs = f32_of_bits (of_le32 (take 4 (drop i bs)))"

text \<open>Reading the 40-byte buffer through the \<open>RF_RX\<close> member of \<open>REMOTE_DATA_RX\<close>.\<close>

definition RF_RX :: "u8 list \<Rightarrow> xRockerBtnData" where
  "RF_RX buff = \<lparr>
     x_head = take 2 buff,
     x_btn = of_le16 (take 2 (drop 2 buff)),
     x_lx = float_at 4 buff, x_rx = float_at 8 buff, x_ry = float_at 12 buff,
     x_L2 = float_at 16 buff, x_ly = float_at 20 buff,
     x_idle = take 16 (drop 24 buff)\<rparr>"

section \<open>Buttons\<close>

record Button =
  pressed :: bool
  on_press :: bool
  on_release :: bool

definition button_init :: Button where
  "button_init = \<lparr>pressed = False, on_press = False, on_release = False\<rparr>"

definition button_update :: "bool \<Rightarrow> Button \<Rightarrow> Button" where
  "button_update st b = \<lparr>
     pressed = st,
     on_press = (if st then st \<noteq> pressed b else False),
     on_release = (if st then False else st \<noteq> pressed b)\<rparr>"

lemma button_update_simps [simp]:
  "pressed (button_update st b) = st"
  "on_press (button_update st b) = (st \<and> \<not> pressed b)"
  "on_release (button_update st b) = (\<not> st \<and> pressed b)"
  by (auto simp: button_update_def)

section \<open>The gamepad\<close>

record Gamepad =
  gp_lx :: "real option"
  gp_rx :: "real option"
  gp_ry :: "real option"
  gp_l2 :: "real option"
  gp_ly :: "real option"
  gp_R1 :: Button
  gp_L1 :: Button
  gp_start :: Button
  gp_select :: Button
  gp_R2 :: Button
  gp_L2 :: Button
  gp_F1 :: Button
  gp_F2 :: Button
  gp_A :: Button
  gp_B :: Button
  gp_X :: Button
  gp_Y :: Button
  gp_up :: Button
  gp_right :: Button
  gp_down :: Button
  gp_left :: Button

definition smooth :: real where
  "smooth = rnd32 (rnd64 (3 / 100))"

definition dead_zone :: real where
  "dead_zone = rnd32 (rnd64 (1 / 100))"

definition gamepad_init :: Gamepad where
  "gamepad_init = \<lparr>gp_lx = Some 0, gp_rx = Some 0, gp_ry = Some 0, gp_l2 = Some 0, gp_ly = Some 0,
     gp_R1 = button_init, gp_L1 = button_init, gp_start = button_init, gp_select = button_init,
     gp_R2 = button_init, gp_L2 = button_init, gp_F1 = button_init, gp_F2 = button_init,
     gp_A = button_init, gp_B = button_init, gp_X = button_init, gp_Y = button_init,
     gp_up = button_init, gp_right = button_init, gp_down = button_init, gp_left = button_init\<rparr>"

text \<open>
  One smoothing update. The conditional has type \<open>double\<close> because of its literal, so the second
  product and the sum are rounded to \<open>double\<close> before the result is stored as a \<open>float\<close>. An infinite
  or NaN axis value or raw value makes the result infinite or NaN.
\<close>

definition smooth_axis :: "real option \<Rightarrow> real option \<Rightarrow> real option" where
  "smooth_axis old raw = (case (old, raw) of
     (Some v, Some k) \<Rightarrow>
       Some (rnd32 (rnd64 (rnd32 (v * rnd32 (1 - smooth)) +
                           rnd64 ((if \<bar>k\<bar> < dead_zone then 0 else k) * smooth))))
   | _ \<Rightarrow> None)"

definition gamepad_update :: "xRockerBtnData \<Rightarrow> Gamepad \<Rightarrow> Gamepad" where
  "gamepad_update key_data g =
     (let c = xKeySwitch_of (x_btn key_data) in \<lparr>
     gp_lx = smooth_axis (gp_lx g) (x_lx key_data),
     gp_rx = smooth_axis (gp_rx g) (x_rx key_data),
     gp_ry = smooth_axis (gp_ry g) (x_ry key_data),
     gp_l2 = smooth_axis (gp_l2 g) (x_L2 key_data),
     gp_ly = smooth_axis (gp_ly g) (x_ly key_data),
     gp_R1 = button_update (k_R1 c) (gp_R1 g),
     gp_L1 = button_update (k_L1 c) (gp_L1 g),
     gp_start = button_update (k_start c) (gp_start g),
     gp_select = button_update (k_select c) (gp_select g),
     gp_R2 = button_update (k_R2 c) (gp_R2 g),
     gp_L2 = button_update (k_L2 c) (gp_L2 g),
     gp_F1 = button_update (k_F1 c) (gp_F1 g),
     gp_F2 = button_update (k_F2 c) (gp_F2 g),
     gp_A = button_update (k_A c) (gp_A g),
     gp_B = button_update (k_B c) (gp_B g),
     gp_X = button_update (k_X c) (gp_X g),
     gp_Y = button_update (k_Y c) (gp_Y g),
     gp_up = button_update (k_up c) (gp_up g),
     gp_right = button_update (k_right c) (gp_right g),
     gp_down = button_update (k_down c) (gp_down g),
     gp_left = button_update (k_left c) (gp_left g)\<rparr>)"

text \<open>The keys of a fresh sample are the bits of the raw word; edges compare with the previous sample.\<close>

lemma gamepad_update_pressed [simp]:
  "pressed (gp_R1 (gamepad_update k g)) = bit (x_btn k) 0"
  "pressed (gp_R2 (gamepad_update k g)) = bit (x_btn k) 4"
  "pressed (gp_L2 (gamepad_update k g)) = bit (x_btn k) 5"
  "pressed (gp_A (gamepad_update k g)) = bit (x_btn k) 8"
  "pressed (gp_B (gamepad_update k g)) = bit (x_btn k) 9"
  by (simp_all add: gamepad_update_def xKeySwitch_of_def Let_def)

lemma gamepad_update_on_press [simp]:
  "on_press (gp_R2 (gamepad_update k g)) = (bit (x_btn k) 4 \<and> \<not> pressed (gp_R2 g))"
  "on_press (gp_A (gamepad_update k g)) = (bit (x_btn k) 8 \<and> \<not> pressed (gp_A g))"
  by (simp_all add: gamepad_update_def xKeySwitch_of_def Let_def)

section \<open>Edges and bounds\<close>

lemma fold_button_update_pressed:
  "pressed (fold button_update sts b) = (if sts = [] then pressed b else last sts)"
  by (induction sts arbitrary: b) auto

definition rising_edges :: "bool list \<Rightarrow> nat" where
  "rising_edges sts = length (filter (\<lambda>i. sts ! i \<and> (i = 0 \<or> \<not> sts ! (i - 1))) [0..<length sts])"

definition presses :: "bool list \<Rightarrow> nat" where
  "presses sts = length (filter (\<lambda>i. on_press (fold button_update (take (Suc i) sts) button_init)) [0..<length sts])"

lemma on_press_nth:
  assumes "i < length sts"
  shows "on_press (fold button_update (take (Suc i) sts) button_init)
    \<longleftrightarrow> sts ! i \<and> (i = 0 \<or> \<not> sts ! (i - 1))"
proof -
  have "fold button_update (take (Suc i) sts) button_init =
      button_update (sts ! i) (fold button_update (take i sts) button_init)"
    using assms by (simp add: take_Suc_conv_app_nth)
  moreover have "take i sts \<noteq> [] \<Longrightarrow> last (take i sts) = sts ! (i - 1)"
    using assms by (subst last_conv_nth) (auto simp: min_def)
  ultimately show ?thesis
    using assms by (auto simp: fold_button_update_pressed button_init_def)
qed

lemma presses_eq_rising_edges: "presses sts = rising_edges sts"
  unfolding presses_def rising_edges_def
  by (rule arg_cong [of _ _ length], rule filter_cong) (auto simp: on_press_nth)

lemma smooth_eval: "smooth = 16106127 / 536870912"
  by code_simp

lemma one_minus_smooth_eval: "rnd32 (1 - smooth) = 16273900 / 16777216"
  by code_simp

lemma smooth_gain: "rnd32 (rnd64 (16273900 / 16777216 + 16106127 / 536870912)) = 1"
  by code_simp

lemma smooth_axis_bound:
  assumes "\<bar>v\<bar> \<le> 1" and "\<bar>k\<bar> \<le> 1"
  shows "\<exists>v'. smooth_axis (Some v) (Some k) = Some v' \<and> \<bar>v'\<bar> \<le> 1"
proof -
  let ?k = "if \<bar>k\<bar> < dead_zone then 0 else k"
  let ?a = "rnd32 (v * rnd32 (1 - smooth))" and ?b = "rnd64 (?k * smooth)"
  have "\<bar>v * rnd32 (1 - smooth)\<bar> \<le> rnd32 (1 - smooth)"
    using assms(1) by (simp add: one_minus_smooth_eval abs_mult)
  then have a: "\<bar>?a\<bar> \<le> 16273900 / 16777216"
    using f32.rnd_abs_le [OF _ f32.rep_rnd] by (metis one_minus_smooth_eval)
  have "\<bar>?k * smooth\<bar> \<le> smooth"
    using assms(2) by (auto simp: smooth_eval abs_mult)
  moreover have "rep64 smooth" unfolding smooth_def by (rule rep64_rep32) (rule f32.rep_rnd)
  ultimately have b: "\<bar>?b\<bar> \<le> 16106127 / 536870912"
    using f64.rnd_abs_le by (metis smooth_eval)
  have "\<bar>?a + ?b\<bar> \<le> 16273900 / 16777216 + 16106127 / 536870912"
    using a b by linarith
  then have "\<bar>rnd32 (rnd64 (?a + ?b))\<bar> \<le> 1"
    unfolding f32.rnd_abs f64.rnd_abs smooth_gain [symmetric]
    by (intro f32.rnd_mono f64.rnd_mono)
  then show ?thesis by (simp add: smooth_axis_def)
qed

lemma smooth_axis_non_finite [simp]:
  "smooth_axis None raw = None" "smooth_axis old None = None"
  by (auto simp: smooth_axis_def split: option.splits)

definition in_range :: "real option \<Rightarrow> bool" where
  "in_range a = (case a of Some v \<Rightarrow> \<bar>v\<bar> \<le> 1 | None \<Rightarrow> False)"

definition raw_in_range :: "xRockerBtnData \<Rightarrow> bool" where
  "raw_in_range k \<longleftrightarrow> in_range (x_lx k) \<and> in_range (x_rx k) \<and> in_range (x_ry k) \<and>
     in_range (x_L2 k) \<and> in_range (x_ly k)"

definition axes_in_range :: "Gamepad \<Rightarrow> bool" where
  "axes_in_range g \<longleftrightarrow> in_range (gp_lx g) \<and> in_range (gp_rx g) \<and> in_range (gp_ry g) \<and>
     in_range (gp_l2 g) \<and> in_range (gp_ly g)"

lemma smooth_axis_in_range: "in_range a \<Longrightarrow> in_range k \<Longrightarrow> in_range (smooth_axis a k)"
  using smooth_axis_bound by (fastforce simp: in_range_def split: option.splits)

lemma axes_in_range_update: "axes_in_range g \<Longrightarrow> raw_in_range k \<Longrightarrow> axes_in_range (gamepad_update k g)"
  by (simp add: axes_in_range_def raw_in_range_def gamepad_update_def Let_def smooth_axis_in_range)

lemma axes_in_range_init: "axes_in_range gamepad_init"
  by (simp add: axes_in_range_def gamepad_init_def in_range_def)

lemma axes_in_range_fold:
  "axes_in_range g \<Longrightarrow> list_all raw_in_range ks \<Longrightarrow> axes_in_range (fold gamepad_update ks g)"
  by (induction ks arbitrary: g) (auto intro: axes_in_range_update)

text \<open>C28: However often the gamepad is updated, if every raw axis sample of the remote is a finite
  number in [-1, 1] then the smoothed axes stay finite and in [-1, 1], although the two rounded
  smoothing coefficients add up to more than 1.\<close>

theorem gamepad_axes_bounded:
  assumes "list_all raw_in_range ks"
  shows "axes_in_range (fold gamepad_update ks gamepad_init)
    \<and> 1 < rnd32 (1 - smooth) + smooth"
proof
  show "axes_in_range (fold gamepad_update ks gamepad_init)"
    by (rule axes_in_range_fold [OF axes_in_range_init assms])
  show "1 < rnd32 (1 - smooth) + smooth"
    unfolding one_minus_smooth_eval unfolding smooth_eval by simp
qed

theorem gamepad_axes_bounded_witness:
  "axes_in_range (fold gamepad_update [RF_RX (replicate 40 0), RF_RX (replicate 40 0)] gamepad_init)"
proof -
  have "raw_in_range (RF_RX (replicate 40 0))"
    by (simp add: raw_in_range_def RF_RX_def float_at_def of_le32_def f32_of_bits_def in_range_def
        numeral_eq_Suc)
  then show ?thesis
    using gamepad_axes_bounded [of "[RF_RX (replicate 40 0), RF_RX (replicate 40 0)]"] by simp
qed

text \<open>Over any sequence of samples of a key, starting released, \<open>Button::update\<close> reports
  \<open>on_press\<close> exactly once for every rising edge of the key, at the sample of the edge, and never
  together with \<open>on_release\<close>.\<close>

lemma button_edges:
  "presses sts = rising_edges sts \<and>
   (\<forall>i. on_press (fold button_update (take i sts) button_init) \<longrightarrow>
        \<not> on_release (fold button_update (take i sts) button_init))"
proof (intro conjI allI)
  show "presses sts = rising_edges sts" by (rule presses_eq_rising_edges)
  fix i
  have "\<not> (on_press b' \<and> on_release b')" if "b' = fold button_update xs button_init" for b' xs
    using that by (cases xs rule: rev_cases) (auto simp: button_init_def)
  then show "on_press (fold button_update (take i sts) button_init) \<longrightarrow>
      \<not> on_release (fold button_update (take i sts) button_init)"
    by blast
qed

end
