(* ===== verification/StateMachine.thy ===== *)
theory StateMachine
  imports Floats
begin

text \<open>
  \<open>SimpleStateMachine\<close> of \<open>example/state_machine/state_machine.hpp\<close>: the mode of the example
  controller (damping, standing up, running the user controller) together with the gain ratio
  that is ramped while standing. The lemmas give its invariant, the guard on entering control and
  the number of steps after which a held stand key allows control.
\<close>

section \<open>The class\<close>

datatype STATES = DAMPING | STAND | CTRL

record SimpleStateMachine =
  sm_state :: STATES
  pd_ratio :: real
  delta_pd :: real

definition SimpleStateMachine_init :: "real \<Rightarrow> real \<Rightarrow> SimpleStateMachine" where
  "SimpleStateMachine_init pd_ratio_init d = \<lparr>sm_state = STAND, pd_ratio = pd_ratio_init, delta_pd = d\<rparr>"

definition state_machine_default :: SimpleStateMachine where
  "state_machine_default = SimpleStateMachine_init (rnd64 (1 / 10)) (rnd64 (5 / 1000))"

definition Stop :: "SimpleStateMachine \<Rightarrow> bool \<times> SimpleStateMachine" where
  "Stop m = (True, m\<lparr>sm_state := DAMPING, pd_ratio := 0\<rparr>)"

definition Stand :: "SimpleStateMachine \<Rightarrow> bool \<times> SimpleStateMachine" where
  "Stand m = (if sm_state m = DAMPING \<or> sm_state m = CTRL then (True, m\<lparr>sm_state := STAND\<rparr>)
              else (False, m))"

definition Ctrl :: "SimpleStateMachine \<Rightarrow> bool \<times> SimpleStateMachine" where
  "Ctrl m = (if sm_state m = STAND \<and> pd_ratio m > rnd64 (95 / 100) then (True, m\<lparr>sm_state := CTRL\<rparr>)
             else (False, m))"

definition Standing :: "bool \<Rightarrow> SimpleStateMachine \<Rightarrow> SimpleStateMachine" where
  "Standing up m = (if sm_state m = STAND then
       (let r = (if up then rnd64 (pd_ratio m + delta_pd m) else rnd64 (pd_ratio m - delta_pd m))
        in m\<lparr>pd_ratio := max 0 (min 1 r)\<rparr>)
     else m)"

section \<open>Invariant\<close>

definition ctrl_threshold :: real where
  "ctrl_threshold = rnd64 (95 / 100)"

definition sm_inv :: "SimpleStateMachine \<Rightarrow> bool" where
  "sm_inv m \<longleftrightarrow> 0 \<le> pd_ratio m \<and> pd_ratio m \<le> 1 \<and> rep64 (pd_ratio m) \<and>
     (sm_state m = DAMPING \<longrightarrow> pd_ratio m = 0) \<and>
     (sm_state m = CTRL \<longrightarrow> ctrl_threshold < pd_ratio m)"

lemma rep64_0_1 [simp]: "rep64 0" "rep64 1"
  using rep64_of_int [of 0] rep64_of_int [of 1] by simp_all

lemma ctrl_threshold_eval: "ctrl_threshold = 8556839292003942 / 9007199254740992"
  by code_simp

text \<open>The default increment, and bounds on what one ramp step adds after rounding.\<close>

definition delta_default :: real where
  "delta_default = rnd64 (5 / 1000)"

definition step_lo :: real where
  "step_lo = 499999 / 10 ^ 8"

definition step_hi :: real where
  "step_hi = 500001 / 10 ^ 8"

lemma delta_eval: "delta_default = 5764607523034235 / 1152921504606846976"
  by code_simp

lemma Ctrl_threshold:
  "Ctrl m = (if sm_state m = STAND \<and> ctrl_threshold < pd_ratio m then (True, m\<lparr>sm_state := CTRL\<rparr>)
     else (False, m))"
  by (simp add: Ctrl_def ctrl_threshold_def)

lemma sm_inv_default: "sm_inv state_machine_default"
proof -
  have "0 \<le> rnd64 (1 / 10)" by (rule f64.rnd_nonneg) simp
  moreover have "rnd64 (1 / 10) \<le> 1" by (rule f64.rnd_le) simp_all
  ultimately show ?thesis
    by (simp add: sm_inv_def state_machine_default_def SimpleStateMachine_init_def f64.rep_rnd)
qed

lemma sm_inv_Stop [intro]: "sm_inv (snd (Stop m))"
  by (simp add: sm_inv_def Stop_def)

lemma sm_inv_Stand [intro]: "sm_inv m \<Longrightarrow> sm_inv (snd (Stand m))"
  by (simp add: sm_inv_def Stand_def)

lemma sm_inv_Ctrl [intro]: "sm_inv m \<Longrightarrow> sm_inv (snd (Ctrl m))"
  by (simp add: sm_inv_def Ctrl_def ctrl_threshold_def)

lemma sm_inv_Standing [intro]: "sm_inv m \<Longrightarrow> sm_inv (Standing up m)"
  by (auto simp: sm_inv_def Standing_def Let_def max_def min_def f64.rep_rnd)

lemma delta_bounds:
  "0 < step_lo"
  "0 < step_hi"
  "step_lo + 1 / 9007199254740992 \<le> delta_default"
  "delta_default + 1 / 9007199254740992 \<le> step_hi"
  by (simp_all add: delta_eval step_lo_def step_hi_def)

section \<open>Runs of the machine\<close>

datatype sm_op = OpStop | OpStand | OpCtrl | OpStanding bool

fun sm_exec :: "sm_op \<Rightarrow> SimpleStateMachine \<Rightarrow> SimpleStateMachine" where
  "sm_exec OpStop m = snd (Stop m)"
| "sm_exec OpStand m = snd (Stand m)"
| "sm_exec OpCtrl m = snd (Ctrl m)"
| "sm_exec (OpStanding up) m = Standing up m"

lemma sm_inv_exec: "sm_inv m \<Longrightarrow> sm_inv (sm_exec c m)"
  by (cases c) (auto simp del: split_paired_All)

lemma sm_inv_run: "sm_inv m \<Longrightarrow> sm_inv (fold sm_exec cs m)"
  by (induction cs arbitrary: m) (auto intro: sm_inv_exec)

lemma delta_pd_exec [simp]: "delta_pd (sm_exec c m) = delta_pd m"
  by (cases c) (auto simp: Stop_def Stand_def Ctrl_def Standing_def Let_def)

text \<open>How far one call of \<open>Standing\<close> moves the ratio, rounding included.\<close>

lemma Standing_up_lower:
  assumes "sm_inv m" and "sm_state m = STAND" and "delta_pd m = delta_default"
  shows "min 1 (pd_ratio m + step_lo) \<le> pd_ratio (Standing True m)"
proof -
  have "\<bar>pd_ratio m + delta_pd m\<bar> < 2"
    using assms by (simp add: sm_inv_def delta_eval)
  then have "pd_ratio m + step_lo \<le> rnd64 (pd_ratio m + delta_pd m)"
    using rnd64_error [of "pd_ratio m + delta_pd m"] assms(3) delta_bounds by linarith
  then show ?thesis using assms(2) by (simp add: Standing_def Let_def)
qed

lemma Standing_upper:
  assumes "sm_inv m" and "delta_pd m = delta_default"
  shows "pd_ratio (Standing up m) \<le> pd_ratio m + (if up then step_hi else 0)"
proof -
  have range: "0 \<le> pd_ratio m" "pd_ratio m \<le> 1" "rep64 (pd_ratio m)"
    using assms(1) by (auto simp: sm_inv_def)
  have "\<bar>pd_ratio m + delta_pd m\<bar> < 2" using range assms(2) by (simp add: delta_eval)
  then have "rnd64 (pd_ratio m + delta_pd m) \<le> pd_ratio m + step_hi"
    using rnd64_error [of "pd_ratio m + delta_pd m"] assms(2) delta_bounds by linarith
  moreover have "rnd64 (pd_ratio m - delta_pd m) \<le> pd_ratio m"
    using range(3) assms(2) by (intro f64.rnd_le) (simp_all add: delta_eval)
  ultimately show ?thesis using range delta_bounds(2)
    by (auto simp: Standing_def Let_def min_def max_def)
qed

lemma Standing_state [simp]: "sm_state (Standing up m) = sm_state m"
  by (simp add: Standing_def Let_def)

lemma Standing_delta [simp]: "delta_pd (Standing up m) = delta_pd m"
  by (simp add: Standing_def Let_def)

lemma Standing_up_run:
  assumes "sm_inv m" and "sm_state m = STAND" and "delta_pd m = delta_default"
  shows "min 1 (pd_ratio m + real n * step_lo) \<le> pd_ratio ((Standing True ^^ n) m)
    \<and> sm_inv ((Standing True ^^ n) m) \<and> sm_state ((Standing True ^^ n) m) = STAND
    \<and> delta_pd ((Standing True ^^ n) m) = delta_default"
proof (induction n)
  case 0
  then show ?case using assms by simp
next
  case (Suc n)
  then have "min 1 (pd_ratio ((Standing True ^^ n) m) + step_lo)
      \<le> pd_ratio (Standing True ((Standing True ^^ n) m))"
    by (intro Standing_up_lower) auto
  with Suc delta_bounds(1) show ?case by (auto simp: algebra_simps min_def split: if_splits)
qed

definition ups :: "sm_op list \<Rightarrow> nat" where
  "ups cs = length (filter (\<lambda>c. c = OpStanding True) cs)"

lemma ups_simps [simp]:
  "ups [] = 0" "ups (c # cs) = (if c = OpStanding True then Suc (ups cs) else ups cs)"
  by (simp_all add: ups_def)

lemma exec_pd_upper:
  assumes "sm_inv m" and "delta_pd m = delta_default"
  shows "pd_ratio (sm_exec c m) \<le> pd_ratio m + (if c = OpStanding True then step_hi else 0)"
proof (cases c)
  case (OpStanding up)
  then show ?thesis using Standing_upper [OF assms, of up] by (cases up) simp_all
next
  case OpStop
  then show ?thesis using assms by (simp add: Stop_def sm_inv_def)
qed (simp_all add: Stand_def Ctrl_def)

lemma run_pd_upper:
  assumes "sm_inv m" and "delta_pd m = delta_default"
  shows "pd_ratio (fold sm_exec cs m) \<le> pd_ratio m + real (ups cs) * step_hi"
  using assms
proof (induction cs arbitrary: m)
  case (Cons c cs)
  have "pd_ratio (fold sm_exec cs (sm_exec c m)) \<le> pd_ratio (sm_exec c m) + real (ups cs) * step_hi"
    using Cons.prems by (intro Cons.IH) (auto intro: sm_inv_exec)
  also have "\<dots> \<le> pd_ratio m + real (ups (c # cs)) * step_hi"
    using exec_pd_upper [OF Cons.prems, of c] by (auto simp: algebra_simps)
  finally show ?case by simp
qed simp

section \<open>What the machine guarantees\<close>

text \<open>C16: In every run of the state machine from its default construction, whatever operations are
  called in whatever order, the gain ratio is in [0, 1], it is 0 while damping, and control is
  active only with a ratio above 0.95.\<close>

theorem state_machine_invariant:
  "sm_inv (fold sm_exec cs state_machine_default)"
  by (intro sm_inv_run sm_inv_default)

text \<open>C18: After an emergency stop the machine cannot be back in control before the stand-up ramp has
  been run: any run from a stop to the control state contains at least 190 upward ramp steps.\<close>

theorem ctrl_needs_stand_up:
  assumes "sm_inv m" and "delta_pd m = delta_default"
    and "sm_state (fold sm_exec cs (snd (Stop m))) = CTRL"
  shows "190 \<le> ups cs"
proof -
  let ?m = "fold sm_exec cs (snd (Stop m))"
  have "sm_inv ?m" by (intro sm_inv_run sm_inv_Stop)
  then have "ctrl_threshold < pd_ratio ?m" using assms(3) by (simp add: sm_inv_def)
  also have "pd_ratio ?m \<le> pd_ratio (snd (Stop m)) + real (ups cs) * step_hi"
    using assms(2) by (intro run_pd_upper sm_inv_Stop) (simp add: Stop_def)
  also have "pd_ratio (snd (Stop m)) = 0" by (simp add: Stop_def)
  finally have "189 < real (ups cs)" by (simp add: ctrl_threshold_eval step_hi_def)
  then show ?thesis by linarith
qed

lemma default_delta: "delta_pd state_machine_default = delta_default"
  by (simp add: state_machine_default_def SimpleStateMachine_init_def delta_default_def)

lemma stand_ramp_run:
  "fold sm_exec (replicate n (OpStanding True)) m = (Standing True ^^ n) m"
  by (induction n arbitrary: m) (simp_all add: funpow_swap1)

lemma stand_after_stop:
  "sm_inv (snd (Stand (snd (Stop m))))" "sm_state (snd (Stand (snd (Stop m)))) = STAND"
  "delta_pd (snd (Stand (snd (Stop m)))) = delta_pd m"
  by (auto simp: Stop_def Stand_def sm_inv_def)

lemma ramp_after_stop:
  "sm_state (fold sm_exec (OpStand # replicate 191 (OpStanding True) @ [OpCtrl])
     (snd (Stop state_machine_default))) = CTRL"
proof -
  let ?m = "snd (Stand (snd (Stop state_machine_default)))"
  have "191 * step_lo \<le> pd_ratio ((Standing True ^^ 191) ?m)"
    "sm_state ((Standing True ^^ 191) ?m) = STAND"
    using Standing_up_run [of ?m 191] stand_after_stop [of state_machine_default]
    by (auto simp: default_delta step_lo_def sm_inv_def)
  then have "sm_state (snd (Ctrl ((Standing True ^^ 191) ?m))) = CTRL"
    unfolding Ctrl_threshold by (simp add: step_lo_def ctrl_threshold_eval)
  then show ?thesis
    by (simp add: stand_ramp_run del: fold_replicate)
qed

theorem ctrl_needs_stand_up_witness:
  "190 \<le> ups (OpStand # replicate 191 (OpStanding True) @ [OpCtrl])"
  by (rule ctrl_needs_stand_up [OF sm_inv_default default_delta ramp_after_stop])

text \<open>C19: The stand-up ramp ends: from the stand state, 191 upward ramp steps always make \<open>Ctrl\<close>
  accept, and the machine is then in control.\<close>

theorem stand_up_reaches_ctrl:
  assumes "sm_inv m" and "sm_state m = STAND" and "delta_pd m = delta_default" and "191 \<le> n"
  shows "\<exists>m'. Ctrl ((Standing True ^^ n) m) = (True, m') \<and> sm_state m' = CTRL"
proof -
  let ?m = "(Standing True ^^ n) m"
  have "0 \<le> pd_ratio m" using assms(1) by (simp add: sm_inv_def)
  moreover have "191 * step_lo \<le> real n * step_lo" using assms(4) by (simp add: step_lo_def)
  moreover have "0 < step_lo" "ctrl_threshold < 191 * step_lo" "ctrl_threshold < 1"
    by (simp_all add: ctrl_threshold_eval step_lo_def)
  ultimately have "ctrl_threshold < min 1 (pd_ratio m + real n * step_lo)"
    by linarith
  then have "ctrl_threshold < pd_ratio ?m" "sm_state ?m = STAND"
    using Standing_up_run [OF assms(1-3), of n] by linarith+
  then show ?thesis by (simp add: Ctrl_def ctrl_threshold_def)
qed

theorem stand_up_reaches_ctrl_witness:
  "\<exists>m'. Ctrl ((Standing True ^^ 191) state_machine_default) = (True, m') \<and> sm_state m' = CTRL"
  by (rule stand_up_reaches_ctrl [OF sm_inv_default _ default_delta])
    (simp_all add: state_machine_default_def SimpleStateMachine_init_def)

end
