(* ===== verification/LowCmd.thy ===== *)
theory LowCmd
  imports Crc Floats
begin

text \<open>
  The low-level command of the Go2: the message class \<open>LowCmd_\<close> with its memory image, over which
  the examples compute the checksum, and the packed command of \<open>example/state_machine/comm.h\<close> with
  the conversion of \<open>conversion.hpp\<close>. The members of \<open>LowCmd_\<close> are laid out in declaration order at
  their natural alignment; the bytes the compiler leaves unused have the contents \<open>pad\<close>.
\<close>

section \<open>Messages\<close>

record MotorCmd_dds =
  mc_mode :: u8
  mc_q :: real
  mc_dq :: real
  mc_tau :: real
  mc_kp :: real
  mc_kd :: real
  mc_reserve :: "u32 list"

record BmsCmd_dds =
  bms_off :: u8
  bms_reserve :: "u8 list"

record LowCmd_dds =
  lc_head :: "u8 list"
  lc_level_flag :: u8
  lc_frame_reserve :: u8
  lc_sn :: "u32 list"
  lc_version :: "u32 list"
  lc_bandwidth :: u16
  lc_motor_cmd :: "MotorCmd_dds list"
  lc_bms_cmd :: BmsCmd_dds
  lc_wireless_remote :: "u8 list"
  lc_led :: "u8 list"
  lc_fan :: "u8 list"
  lc_gpio :: u8
  lc_reserve :: u32
  lc_crc :: u32

definition MotorCmd_default :: MotorCmd_dds where
  "MotorCmd_default = \<lparr>mc_mode = 0, mc_q = 0, mc_dq = 0, mc_tau = 0, mc_kp = 0, mc_kd = 0,
     mc_reserve = replicate 3 0\<rparr>"

definition LowCmd_default :: LowCmd_dds where
  "LowCmd_default = \<lparr>lc_head = [0, 0], lc_level_flag = 0, lc_frame_reserve = 0, lc_sn = [0, 0],
     lc_version = [0, 0], lc_bandwidth = 0, lc_motor_cmd = replicate 20 MotorCmd_default,
     lc_bms_cmd = \<lparr>bms_off = 0, bms_reserve = replicate 3 0\<rparr>, lc_wireless_remote = replicate 40 0,
     lc_led = replicate 12 0, lc_fan = [0, 0], lc_gpio = 0, lc_reserve = 0, lc_crc = 0\<rparr>"

definition wf_MotorCmd :: "MotorCmd_dds \<Rightarrow> bool" where
  "wf_MotorCmd m \<longleftrightarrow> length (mc_reserve m) = 3"

definition wf_LowCmd :: "LowCmd_dds \<Rightarrow> bool" where
  "wf_LowCmd c \<longleftrightarrow> length (lc_head c) = 2 \<and> length (lc_sn c) = 2 \<and> length (lc_version c) = 2 \<and>
     length (lc_motor_cmd c) = 20 \<and> list_all wf_MotorCmd (lc_motor_cmd c) \<and>
     length (bms_reserve (lc_bms_cmd c)) = 3 \<and> length (lc_wireless_remote c) = 40 \<and>
     length (lc_led c) = 12 \<and> length (lc_fan c) = 2"

section \<open>Memory image\<close>

definition le_float :: "real \<Rightarrow> u8 list" where
  "le_float x = le32 (bits_of_f32 x)"

definition motor_image :: "u8 list \<Rightarrow> MotorCmd_dds \<Rightarrow> u8 list" where
  "motor_image pad m = mc_mode m # take 3 pad @ le_float (mc_q m) @ le_float (mc_dq m) @
     le_float (mc_tau m) @ le_float (mc_kp m) @ le_float (mc_kd m) @ concat (map le32 (mc_reserve m))"

definition image_prefix :: "u8 list \<Rightarrow> LowCmd_dds \<Rightarrow> u8 list" where
  "image_prefix pad c =
     lc_head c @ [lc_level_flag c, lc_frame_reserve c] @ concat (map le32 (lc_sn c)) @
     concat (map le32 (lc_version c)) @ le16 (lc_bandwidth c) @ take 2 pad @
     concat (map (motor_image pad) (lc_motor_cmd c)) @
     bms_off (lc_bms_cmd c) # bms_reserve (lc_bms_cmd c) @ lc_wireless_remote c @ lc_led c @
     lc_fan c @ [lc_gpio c] @ take 1 pad @ le32 (lc_reserve c)"

definition LowCmd_image :: "u8 list \<Rightarrow> LowCmd_dds \<Rightarrow> u8 list" where
  "LowCmd_image pad c = image_prefix pad c @ le32 (lc_crc c)"

text \<open>Reading memory through a \<open>uint32_t *\<close>.\<close>

fun words_of :: "u8 list \<Rightarrow> u32 list" where
  "words_of (a # b # c # d # bs) = of_le32 [a, b, c, d] # words_of bs"
| "words_of _ = []"

definition sizeof_LowCmd :: nat where
  "sizeof_LowCmd = 812"

definition crc_words :: "nat \<Rightarrow> u32" where
  "crc_words sz = word_of_nat (sz div 4 - 1)"

definition LowCmd_crc :: "u8 list \<Rightarrow> LowCmd_dds \<Rightarrow> u32 option" where
  "LowCmd_crc pad c = crc32_core (words_of (LowCmd_image pad c)) (crc_words sizeof_LowCmd)"

lemma length_words_of: "length (words_of bs) = length bs div 4"
  by (induction bs rule: words_of.induct) simp_all

lemma length_le_float [simp]: "length (le_float x) = 4"
  by (simp add: le_float_def)

lemma length_concat_le32 [simp]: "length (concat (map le32 ws)) = 4 * length ws"
  by (induction ws) simp_all

lemma length_motor_image:
  assumes "3 \<le> length pad" and "wf_MotorCmd m"
  shows "length (motor_image pad m) = 36"
  using assms by (simp add: motor_image_def wf_MotorCmd_def)

lemma length_motor_images:
  assumes "3 \<le> length pad" and "list_all wf_MotorCmd ms"
  shows "length (concat (map (motor_image pad) ms)) = 36 * length ms"
  using assms(2) by (induction ms) (simp_all add: length_motor_image [OF assms(1)])

lemma length_image_prefix:
  assumes "3 \<le> length pad" and "wf_LowCmd c"
  shows "length (image_prefix pad c) = 808"
  using assms by (simp add: image_prefix_def wf_LowCmd_def length_motor_images)

lemma length_LowCmd_image:
  assumes "3 \<le> length pad" and "wf_LowCmd c"
  shows "length (LowCmd_image pad c) = sizeof_LowCmd"
  using length_image_prefix [OF assms] by (simp add: LowCmd_image_def sizeof_LowCmd_def)

lemma words_of_append:
  "length xs mod 4 = 0 \<Longrightarrow> words_of (xs @ ys) = words_of xs @ words_of ys"
  by (induction xs rule: words_of.induct) (auto simp: mod_Suc_eq)

lemma words_of_le32 [simp]: "words_of (le32 w) = [w]"
proof -
  obtain a b c d where bs: "le32 w = [a, b, c, d]" by (simp add: le32_def)
  then show ?thesis using of_le32_le32 [of w] by simp
qed

lemma image_prefix_crc [simp]: "image_prefix pad (c\<lparr>lc_crc := v\<rparr>) = image_prefix pad c"
  by (simp add: image_prefix_def)

lemma wf_LowCmd_crc [simp]: "wf_LowCmd (c\<lparr>lc_crc := v\<rparr>) = wf_LowCmd c"
  by (simp add: wf_LowCmd_def)

lemma unat_crc_words: "unat (crc_words 812) = 202" "unat (crc_words 749) = 186"
  by (simp_all add: crc_words_def)

lemma LowCmd_crc_eq:
  assumes "3 \<le> length pad" and "wf_LowCmd c"
  shows "LowCmd_crc pad c = Some (crc32_words (words_of (image_prefix pad c)))"
proof -
  have "words_of (LowCmd_image pad c) = words_of (image_prefix pad c) @ [lc_crc c]"
    using length_image_prefix [OF assms] by (simp add: LowCmd_image_def words_of_append)
  moreover have "length (words_of (image_prefix pad c)) = 202"
    by (simp add: length_words_of length_image_prefix [OF assms])
  ultimately show ?thesis
    by (simp add: LowCmd_crc_def crc32_core_def sizeof_LowCmd_def unat_crc_words)
qed

section \<open>The packed command and its conversion\<close>

record MotorCmd_raw =
  r_mode :: u8
  r_q :: real
  r_dq :: real
  r_tau :: real
  r_Kp :: real
  r_Kd :: real
  r_reserve :: "u32 list"

record BmsCmd_raw =
  r_off :: u8
  r_bms_reserve :: "u8 list"

record LowCmd_raw =
  r_head :: "u8 list"
  r_levelFlag :: u8
  r_frameReserve :: u8
  r_SN :: "u32 list"
  r_version :: "u32 list"
  r_bandWidth :: u16
  r_motorCmd :: "MotorCmd_raw list"
  r_bms :: BmsCmd_raw
  r_wirelessRemote :: "u8 list"
  r_led :: "u8 list"
  r_fan :: "u8 list"
  r_gpio :: u8
  r_lreserve :: u32
  r_crc :: u32

definition motor_raw_image :: "MotorCmd_raw \<Rightarrow> u8 list" where
  "motor_raw_image m = r_mode m # le_float (r_q m) @ le_float (r_dq m) @ le_float (r_tau m) @
     le_float (r_Kp m) @ le_float (r_Kd m) @ concat (map le32 (r_reserve m))"

definition raw_prefix :: "LowCmd_raw \<Rightarrow> u8 list" where
  "raw_prefix r =
     r_head r @ [r_levelFlag r, r_frameReserve r] @ concat (map le32 (r_SN r)) @
     concat (map le32 (r_version r)) @ le16 (r_bandWidth r) @
     concat (map motor_raw_image (r_motorCmd r)) @
     r_off (r_bms r) # r_bms_reserve (r_bms r) @ r_wirelessRemote r @ r_led r @ r_fan r @ [r_gpio r]"

definition LowCmd_raw_image :: "LowCmd_raw \<Rightarrow> u8 list" where
  "LowCmd_raw_image r = raw_prefix r @ le32 (r_lreserve r) @ le32 (r_crc r)"

definition wf_LowCmd_raw :: "LowCmd_raw \<Rightarrow> bool" where
  "wf_LowCmd_raw r \<longleftrightarrow> length (r_head r) = 2 \<and> length (r_SN r) = 2 \<and> length (r_version r) = 2 \<and>
     length (r_motorCmd r) = 20 \<and> list_all (\<lambda>m. length (r_reserve m) = 3) (r_motorCmd r) \<and>
     length (r_bms_reserve (r_bms r)) = 3 \<and> length (r_wirelessRemote r) = 40 \<and>
     length (r_led r) = 12 \<and> length (r_fan r) = 2"

definition sizeof_LowCmd_raw :: nat where
  "sizeof_LowCmd_raw = 749"

definition motorCmd2Dds :: "MotorCmd_raw list \<Rightarrow> MotorCmd_dds list \<Rightarrow> MotorCmd_dds list" where
  "motorCmd2Dds raw dds = map (\<lambda>i. (dds ! i)\<lparr>mc_mode := r_mode (raw ! i), mc_q := r_q (raw ! i),
     mc_dq := r_dq (raw ! i), mc_tau := r_tau (raw ! i), mc_kp := r_Kp (raw ! i),
     mc_kd := r_Kd (raw ! i), mc_reserve := r_reserve (raw ! i)\<rparr>) [0..<20]"

definition bmsCmd2Dds :: "BmsCmd_raw \<Rightarrow> BmsCmd_dds \<Rightarrow> BmsCmd_dds" where
  "bmsCmd2Dds raw dds = dds\<lparr>bms_off := r_off raw, bms_reserve := r_bms_reserve raw\<rparr>"

text \<open>The conversion also stores the checksum in the raw command.\<close>

definition lowCmd2Dds :: "LowCmd_raw \<Rightarrow> LowCmd_dds \<Rightarrow> (LowCmd_raw \<times> LowCmd_dds) option" where
  "lowCmd2Dds raw dds =
     (let dds = dds\<lparr>lc_head := r_head raw, lc_level_flag := r_levelFlag raw,
            lc_frame_reserve := r_frameReserve raw, lc_sn := r_SN raw, lc_version := r_version raw,
            lc_bandwidth := r_bandWidth raw,
            lc_motor_cmd := motorCmd2Dds (r_motorCmd raw) (lc_motor_cmd dds),
            lc_bms_cmd := bmsCmd2Dds (r_bms raw) (lc_bms_cmd dds),
            lc_wireless_remote := r_wirelessRemote raw, lc_led := r_led raw, lc_fan := r_fan raw,
            lc_gpio := r_gpio raw, lc_reserve := r_lreserve raw\<rparr>
      in case crc32_core (words_of (LowCmd_raw_image raw)) (crc_words sizeof_LowCmd_raw) of
           None \<Rightarrow> None
         | Some crc \<Rightarrow> Some (raw\<lparr>r_crc := crc\<rparr>, dds\<lparr>lc_crc := crc\<rparr>))"

lemma take_words_of: "take n (words_of bs) = words_of (take (4 * n) bs)"
proof (induction bs arbitrary: n rule: words_of.induct)
  case (1 a b c d bs)
  have "4 * Suc m = Suc (Suc (Suc (Suc (4 * m))))" for m :: nat by simp
  with 1 show ?case by (cases n) (simp_all del: mult_Suc_right)
qed (case_tac n; simp)+

lemma length_motor_raw_images:
  "list_all (\<lambda>m. length (r_reserve m) = 3) ms \<Longrightarrow> length (concat (map motor_raw_image ms)) = 33 * length ms"
  by (induction ms) (simp_all add: motor_raw_image_def)

lemma length_raw_prefix: "wf_LowCmd_raw r \<Longrightarrow> length (raw_prefix r) = 741"
  by (simp add: raw_prefix_def wf_LowCmd_raw_def length_motor_raw_images)

lemma raw_crc_eq:
  assumes "wf_LowCmd_raw r"
  shows "crc32_core (words_of (LowCmd_raw_image r)) (crc_words sizeof_LowCmd_raw)
    = Some (crc32_words (words_of (raw_prefix r @ take 3 (le32 (r_lreserve r)))))"
proof -
  have "take 744 (LowCmd_raw_image r) = raw_prefix r @ take 3 (le32 (r_lreserve r))"
    by (simp add: LowCmd_raw_image_def length_raw_prefix [OF assms])
  moreover have "length (words_of (LowCmd_raw_image r)) = 187"
    by (simp add: length_words_of LowCmd_raw_image_def length_raw_prefix [OF assms])
  ultimately show ?thesis
    by (simp add: crc32_core_def sizeof_LowCmd_raw_def unat_crc_words take_words_of)
qed

lemma raw_prefix_simps [simp]:
  "raw_prefix (r\<lparr>r_crc := v\<rparr>) = raw_prefix r" "raw_prefix (r\<lparr>r_lreserve := w\<rparr>) = raw_prefix r"
  "wf_LowCmd_raw (r\<lparr>r_crc := v\<rparr>) = wf_LowCmd_raw r"
  "wf_LowCmd_raw (r\<lparr>r_lreserve := w\<rparr>) = wf_LowCmd_raw r"
  by (simp_all add: raw_prefix_def wf_LowCmd_raw_def)

lemma le32_take3: "take_bit 24 v = take_bit 24 w \<Longrightarrow> take 3 (le32 v) = take 3 (le32 w)"
proof -
  assume "take_bit 24 v = take_bit 24 w"
  then have "bit v n = bit w n" if "n < 24" for n
    using that by (metis bit_take_bit_iff)
  then show ?thesis
    by (auto simp: le32_def intro!: bit_word_eqI simp: bit_simps)
qed

lemma motorCmd2Dds_nth:
  "i < 20 \<Longrightarrow> motorCmd2Dds raw dds ! i = \<lparr>mc_mode = r_mode (raw ! i), mc_q = r_q (raw ! i),
     mc_dq = r_dq (raw ! i), mc_tau = r_tau (raw ! i), mc_kp = r_Kp (raw ! i),
     mc_kd = r_Kd (raw ! i), mc_reserve = r_reserve (raw ! i)\<rparr>"
  by (simp add: motorCmd2Dds_def)

lemma length_motorCmd2Dds [simp]: "length (motorCmd2Dds raw dds) = 20"
  by (simp add: motorCmd2Dds_def)

lemma motorCmd2Dds_const: "motorCmd2Dds raw dds = motorCmd2Dds raw dds'"
  by (rule nth_equalityI) (simp_all add: motorCmd2Dds_nth)

section \<open>What the conversion guarantees\<close>

text \<open>The conversion of a packed command always yields a message; it carries the head, the
  reserve word and every motor's mode, position, velocity, torque and gains unchanged, its checksum
  is the one stored in the packed command, and converting the result again changes nothing.\<close>

lemma lowCmd2Dds_total:
  assumes "wf_LowCmd_raw raw"
  shows "\<exists>raw' dds'. lowCmd2Dds raw dds = Some (raw', dds') \<and>
     lc_head dds' = r_head raw \<and> lc_reserve dds' = r_lreserve raw \<and> lc_crc dds' = r_crc raw' \<and>
     (\<forall>i<20. lc_motor_cmd dds' ! i = \<lparr>mc_mode = r_mode (r_motorCmd raw ! i),
        mc_q = r_q (r_motorCmd raw ! i), mc_dq = r_dq (r_motorCmd raw ! i),
        mc_tau = r_tau (r_motorCmd raw ! i), mc_kp = r_Kp (r_motorCmd raw ! i),
        mc_kd = r_Kd (r_motorCmd raw ! i), mc_reserve = r_reserve (r_motorCmd raw ! i)\<rparr>) \<and>
     lowCmd2Dds raw' dds' = Some (raw', dds')"
proof -
  have "crc32_core (words_of (LowCmd_raw_image (raw\<lparr>r_crc := v\<rparr>))) (crc_words sizeof_LowCmd_raw)
      = Some (crc32_words (words_of (raw_prefix raw @ take 3 (le32 (r_lreserve raw)))))" for v
    using raw_crc_eq [of "raw\<lparr>r_crc := v\<rparr>"] assms by simp
  note crc = this raw_crc_eq [OF assms]
  show ?thesis
    by (simp add: lowCmd2Dds_def crc motorCmd2Dds_nth bmsCmd2Dds_def
        motorCmd2Dds_const [of _ "motorCmd2Dds _ _" "lc_motor_cmd dds"])
qed

text \<open>C39: The checksum of the packed command does not cover the last byte of \<open>reserve\<close>: the
  packed size 749 is not a multiple of four and the word count drops it, so two commands that
  differ only in that byte get the same checksum.\<close>

theorem lowCmd2Dds_reserve_uncovered:
  assumes "wf_LowCmd_raw raw" and "take_bit 24 v = take_bit 24 (r_lreserve raw)"
  shows "map_option (r_crc \<circ> fst) (lowCmd2Dds (raw\<lparr>r_lreserve := v\<rparr>) dds)
    = map_option (r_crc \<circ> fst) (lowCmd2Dds raw dds)"
  using raw_crc_eq [OF assms(1)] raw_crc_eq [of "raw\<lparr>r_lreserve := v\<rparr>"] assms le32_take3 [OF assms(2)]
  by (simp add: lowCmd2Dds_def Let_def)

definition sample_raw :: LowCmd_raw where
  "sample_raw = \<lparr>r_head = [0xFE, 0xEF], r_levelFlag = 0xFF, r_frameReserve = 0, r_SN = [0, 0],
     r_version = [0, 0], r_bandWidth = 0,
     r_motorCmd = replicate 20 \<lparr>r_mode = 1, r_q = 0, r_dq = 0, r_tau = 0, r_Kp = 0, r_Kd = 0,
       r_reserve = [0, 0, 0]\<rparr>,
     r_bms = \<lparr>r_off = 0, r_bms_reserve = [0, 0, 0]\<rparr>, r_wirelessRemote = replicate 40 0,
     r_led = replicate 12 0, r_fan = [0, 0], r_gpio = 0, r_lreserve = 0, r_crc = 0\<rparr>"

lemma wf_sample_raw: "wf_LowCmd_raw sample_raw"
  by (simp add: wf_LowCmd_raw_def sample_raw_def list_all_iff)

lemma lowCmd2Dds_total_sample:
  "\<exists>raw' dds'. lowCmd2Dds sample_raw LowCmd_default = Some (raw', dds') \<and> lc_head dds' = [0xFE, 0xEF]"
  using lowCmd2Dds_total [OF wf_sample_raw, of LowCmd_default] by (auto simp: sample_raw_def)

theorem lowCmd2Dds_reserve_uncovered_witness:
  "map_option (r_crc \<circ> fst) (lowCmd2Dds (sample_raw\<lparr>r_lreserve := 0xAB000000\<rparr>) LowCmd_default)
    = map_option (r_crc \<circ> fst) (lowCmd2Dds sample_raw LowCmd_default)"
  by (rule lowCmd2Dds_reserve_uncovered [OF wf_sample_raw])
    (simp add: sample_raw_def take_bit_eq_mod)

end
