(* ===== verification/RobotController.thy ===== *)
theory RobotController
  imports LowCmd Gamepad StateMachine
begin

text \<open>
  The example controller of \<open>example/state_machine\<close>: the robot interface that turns messages into
  joint data and joint targets into commands (\<open>robot_interface.hpp\<close>), the example user controller
  (\<open>user_controller.hpp\<close>) and the controller that drives them from three threads
  (\<open>robot_controller.hpp\<close>). Each thread's handler is one step; the state machine and the gamepad
  are those of their own theories.
\<close>

section \<open>The robot interface\<close>

record MotorState_dds =
  ms_q :: real
  ms_dq :: real
  ms_tau_est :: real

record LowState_dds =
  ls_quaternion :: "real list"
  ls_rpy :: "real list"
  ls_gyroscope :: "real list"
  ls_motor_state :: "MotorState_dds list"
  ls_wireless_remote :: "u8 list"

record RobotInterface =
  ri_jpos :: "real list"
  ri_jvel :: "real list"
  ri_tau :: "real list"
  ri_quat :: "real list"
  ri_rpy :: "real list"
  ri_gyro :: "real list"
  ri_projected_gravity :: "real list"
  ri_jpos_des :: "real list"
  ri_jvel_des :: "real list"
  ri_kp :: "real list"
  ri_kd :: "real list"
  ri_tau_ff :: "real list"
  ri_low_cmd :: LowCmd_dds

definition PosStopF :: real where
  "PosStopF = rnd32 2146000000"

definition VelStopF :: real where
  "VelStopF = rnd32 16000"

definition InitLowCmd :: "LowCmd_dds \<Rightarrow> LowCmd_dds" where
  "InitLowCmd c = c\<lparr>lc_head := [0xFE, 0xEF], lc_level_flag := 0xFF, lc_gpio := 0,
     lc_motor_cmd := map (\<lambda>m. m\<lparr>mc_mode := 1, mc_q := rnd32 PosStopF, mc_kp := 0,
       mc_dq := rnd32 VelStopF, mc_kd := 0, mc_tau := 0\<rparr>) (lc_motor_cmd c)\<rparr>"

text \<open>The measured values are not initialised by the constructor; \<open>m\<close> supplies them.\<close>

definition RobotInterface_init :: "RobotInterface \<Rightarrow> RobotInterface" where
  "RobotInterface_init m = m\<lparr>
     ri_jpos_des := replicate 12 0, ri_jvel_des := replicate 12 0, ri_kp := replicate 12 0,
     ri_kd := replicate 12 0, ri_tau_ff := replicate 12 0, ri_projected_gravity := [0, 0, -1],
     ri_low_cmd := InitLowCmd LowCmd_default\<rparr>"

definition UpdateProjectedGravity :: "RobotInterface \<Rightarrow> RobotInterface" where
  "UpdateProjectedGravity r =
     (let w = ri_quat r ! 0; x = - (ri_quat r ! 1); y = - (ri_quat r ! 2); z = - (ri_quat r ! 3);
          x2 = rnd32 (x * x); y2 = rnd32 (y * y); z2 = rnd32 (z * z); w2 = rnd32 (w * w);
          xz = rnd32 (x * z); yz = rnd32 (y * z); wx = rnd32 (w * x); wy = rnd32 (w * y)
      in r\<lparr>ri_projected_gravity :=
           [rnd32 (-2 * rnd32 (xz + wy)), rnd32 (-2 * rnd32 (yz - wx)),
            - rnd32 (rnd32 (rnd32 (w2 - x2) - y2) + z2)]\<rparr>)"

definition GetState :: "LowState_dds \<Rightarrow> RobotInterface \<Rightarrow> RobotInterface" where
  "GetState st r =
     (let r = r\<lparr>ri_quat := ls_quaternion st, ri_rpy := ls_rpy st, ri_gyro := ls_gyroscope st\<rparr>;
          r = UpdateProjectedGravity r;
          motor = take 12 (ls_motor_state st)
      in r\<lparr>ri_jpos := map ms_q motor, ri_jvel := map ms_dq motor, ri_tau := map ms_tau_est motor\<rparr>)"

text \<open>The returned message is the copy the caller stores in its \<open>cmd\<close>.\<close>

definition fill_motors :: "RobotInterface \<Rightarrow> MotorCmd_dds list \<Rightarrow> MotorCmd_dds list" where
  "fill_motors r ms = map (\<lambda>i. if i < 12 then
       (ms ! i)\<lparr>mc_q := ri_jpos_des r ! i, mc_dq := ri_jvel_des r ! i, mc_kp := ri_kp r ! i,
         mc_kd := ri_kd r ! i, mc_tau := ri_tau_ff r ! i\<rparr> else ms ! i) [0..<length ms]"

definition SetCommand :: "u8 list \<Rightarrow> RobotInterface \<Rightarrow> (RobotInterface \<times> LowCmd_dds) option" where
  "SetCommand pad r =
     (let low_cmd = (ri_low_cmd r)\<lparr>lc_motor_cmd := fill_motors r (lc_motor_cmd (ri_low_cmd r))\<rparr>
      in case LowCmd_crc pad low_cmd of
           None \<Rightarrow> None
         | Some crc \<Rightarrow> let low_cmd = low_cmd\<lparr>lc_crc := crc\<rparr> in Some (r\<lparr>ri_low_cmd := low_cmd\<rparr>, low_cmd))"

section \<open>The user controller\<close>

record ExampleCfg =
  cfg_kp :: real
  cfg_kd :: real
  cfg_dt :: real
  cfg_init_pos :: "real list"

record UserController =
  uc_dt :: real
  uc_kp :: real
  uc_kd :: real
  uc_init_pos :: "real list"
  uc_jpos_des :: "real list"
  uc_cmd :: "real option list"
  uc_jpos_processed :: "real list"
  uc_jvel_processed :: "real list"

text \<open>\<open>array::at\<close> and \<open>vector::at\<close> throw when the parameter file has fewer than twelve positions.\<close>

definition LoadParam :: "ExampleCfg \<Rightarrow> UserController \<Rightarrow> UserController option" where
  "LoadParam cfg c = (if length (cfg_init_pos cfg) < 12 then None else
     Some (c\<lparr>uc_dt := cfg_dt cfg, uc_kp := cfg_kp cfg, uc_kd := cfg_kd cfg,
             uc_init_pos := take 12 (cfg_init_pos cfg)\<rparr>))"

definition GetInput :: "RobotInterface \<Rightarrow> Gamepad \<Rightarrow> UserController \<Rightarrow> UserController" where
  "GetInput r g c = c\<lparr>
     uc_cmd := [gp_ly g, map_option uminus (gp_lx g), map_option uminus (gp_rx g)],
     uc_jpos_processed := map (\<lambda>i. rnd32 (ri_jpos r ! i - uc_init_pos c ! i)) [0..<12],
     uc_jvel_processed := map (\<lambda>i. rnd32 (rnd64 (ri_jvel r ! i / 2))) [0..<12]\<rparr>"

definition Calculate :: "UserController \<Rightarrow> UserController" where
  "Calculate c = c\<lparr>uc_jpos_des := uc_init_pos c\<rparr>"

definition Reset :: "RobotInterface \<Rightarrow> Gamepad \<Rightarrow> UserController \<Rightarrow> UserController" where
  "Reset r g c = Calculate (GetInput r g c)"

definition GetLog :: "UserController \<Rightarrow> real option list" where
  "GetLog c = uc_cmd c @ map Some (uc_jpos_processed c) @ map Some (uc_jvel_processed c) @
     map Some (uc_jpos_des c)"

section \<open>The controller\<close>

record RobotController =
  rc_cmd :: LowCmd_dds
  rc_state :: LowState_dds
  rc_gamepad :: Gamepad
  rc_state_machine :: SimpleStateMachine
  rc_ctrl :: UserController
  rc_robot_interface :: RobotInterface
  rc_log_open :: bool
  rc_log :: "real option list list"
  rc_ctrl_dt_micro_sec :: u64
  rc_compute_time :: "real list"

definition LowStateMessageHandler :: "LowState_dds \<Rightarrow> RobotController \<Rightarrow> RobotController" where
  "LowStateMessageHandler message s = s\<lparr>rc_state := message,
     rc_robot_interface := GetState message (rc_robot_interface s)\<rparr>"

definition InteprateGamePad :: "RobotController \<Rightarrow> RobotController" where
  "InteprateGamePad s = s\<lparr>rc_gamepad :=
     gamepad_update (RF_RX (take 40 (ls_wireless_remote (rc_state s)))) (rc_gamepad s)\<rparr>"

definition set_gains :: "real list \<Rightarrow> real \<Rightarrow> real \<Rightarrow> RobotInterface \<Rightarrow> RobotInterface" where
  "set_gains pos kp kd r = r\<lparr>ri_jpos_des := pos, ri_jvel_des := replicate 12 0,
     ri_kp := replicate 12 kp, ri_kd := replicate 12 kd, ri_tau_ff := replicate 12 0\<rparr>"

definition StandCallback :: "RobotController \<Rightarrow> RobotController" where
  "StandCallback s = s\<lparr>rc_robot_interface := set_gains (uc_init_pos (rc_ctrl s))
     (rnd32 (rnd64 (uc_kp (rc_ctrl s) * pd_ratio (rc_state_machine s))))
     (rnd32 (rnd64 (uc_kd (rc_ctrl s) * pd_ratio (rc_state_machine s)))) (rc_robot_interface s)\<rparr>"

definition CtrlCallback :: "RobotController \<Rightarrow> RobotController" where
  "CtrlCallback s =
     (let s = s\<lparr>rc_ctrl := Reset (rc_robot_interface s) (rc_gamepad s) (rc_ctrl s)\<rparr>
      in s\<lparr>rc_robot_interface := set_gains (uc_init_pos (rc_ctrl s)) (uc_kp (rc_ctrl s))
            (uc_kd (rc_ctrl s)) (rc_robot_interface s)\<rparr>)"

definition Damping :: "real \<Rightarrow> RobotController \<Rightarrow> RobotController" where
  "Damping kd s = s\<lparr>rc_robot_interface := set_gains (uc_init_pos (rc_ctrl s)) 0 kd (rc_robot_interface s)\<rparr>"

definition UserControlStep :: "bool \<Rightarrow> RobotController \<Rightarrow> RobotController" where
  "UserControlStep snd_cmd s =
     (let s = s\<lparr>rc_ctrl := Calculate (GetInput (rc_robot_interface s) (rc_gamepad s) (rc_ctrl s))\<rparr>
      in if snd_cmd then s\<lparr>rc_robot_interface := (rc_robot_interface s)\<lparr>ri_jpos_des := uc_jpos_des (rc_ctrl s)\<rparr>\<rparr>
         else s)"

definition StandingStep :: "real \<Rightarrow> real \<Rightarrow> RobotController \<Rightarrow> RobotController" where
  "StandingStep kp kd s =
     (let s = (if pressed (gp_R2 (rc_gamepad s)) then s\<lparr>rc_state_machine := Standing True (rc_state_machine s)\<rparr> else s);
          s = (if pressed (gp_R1 (rc_gamepad s)) then s\<lparr>rc_state_machine := Standing False (rc_state_machine s)\<rparr> else s);
          s = UserControlStep False s
      in s\<lparr>rc_robot_interface := (rc_robot_interface s)\<lparr>
            ri_kp := replicate 12 (rnd32 (rnd64 (kp * pd_ratio (rc_state_machine s)))),
            ri_kd := replicate 12 (rnd32 (rnd64 (kd * pd_ratio (rc_state_machine s))))\<rparr>\<rparr>)"

definition CheckTermination :: "RobotController \<Rightarrow> bool" where
  "CheckTermination s \<longleftrightarrow> ri_projected_gravity (rc_robot_interface s) ! 2 > 0"

definition UpdateStateMachine :: "RobotController \<Rightarrow> RobotController" where
  "UpdateStateMachine s =
     (let s = (if on_press (gp_R2 (rc_gamepad s)) then
                 (let (ok, m) = Stand (rc_state_machine s); s = s\<lparr>rc_state_machine := m\<rparr>
                  in if ok then StandCallback s else s)
               else s);
          s = (if on_press (gp_A (rc_gamepad s)) then
                 (let (ok, m) = Ctrl (rc_state_machine s); s = s\<lparr>rc_state_machine := m\<rparr>
                  in if ok then CtrlCallback s else s)
               else s)
      in if pressed (gp_L2 (rc_gamepad s)) \<and> pressed (gp_B (rc_gamepad s))
         then s\<lparr>rc_state_machine := snd (Stop (rc_state_machine s))\<rparr> else s)"

text \<open>The mode-dependent part of \<open>ControlStep\<close>: each test reads the state left by the previous one.\<close>

definition ControlModes :: "RobotController \<Rightarrow> RobotController" where
  "ControlModes s =
     (let s = (if sm_state (rc_state_machine s) = STAND then StandingStep 40 1 s else s);
          s = (if sm_state (rc_state_machine s) = DAMPING then Damping 2 s else s)
      in if sm_state (rc_state_machine s) = CTRL then
           (let s = UserControlStep True s
            in if CheckTermination s then s\<lparr>rc_state_machine := snd (Stop (rc_state_machine s))\<rparr> else s)
         else s)"

definition WriteLog :: "RobotController \<Rightarrow> RobotController" where
  "WriteLog s = (if rc_log_open s then s\<lparr>rc_log := rc_log s @ [GetLog (rc_ctrl s)]\<rparr> else s)"

text \<open>\<open>duration\<close> is the measured run time in milliseconds; the statistics printed every 100 steps are output only.\<close>

definition ControlStep :: "u8 list \<Rightarrow> real \<Rightarrow> RobotController \<Rightarrow> RobotController option" where
  "ControlStep pad duration s =
     (let s = ControlModes (UpdateStateMachine (InteprateGamePad s))
      in case SetCommand pad (rc_robot_interface s) of
           None \<Rightarrow> None
         | Some (ri, c) \<Rightarrow>
             let s = s\<lparr>rc_robot_interface := ri, rc_cmd := c\<rparr>;
                 s = s\<lparr>rc_compute_time := rc_compute_time s @ [duration]\<rparr>;
                 s = WriteLog s
             in Some (if length (rc_compute_time s) = 100 then s\<lparr>rc_compute_time := []\<rparr> else s))"

text \<open>
  \<open>StartControl\<close> samples the remote until R2 is pressed; \<open>states\<close> are the messages present at the
  successive samples, and \<open>None\<close> means that R2 was not pressed in any of them.
\<close>

fun WaitForStart :: "LowState_dds list \<Rightarrow> RobotController \<Rightarrow> RobotController option" where
  "WaitForStart [] s = None"
| "WaitForStart (m # states) s =
     (let s = InteprateGamePad (LowStateMessageHandler m s)
      in if on_press (gp_R2 (rc_gamepad s)) then Some s else WaitForStart states s)"

definition StartControl :: "LowState_dds list \<Rightarrow> RobotController \<Rightarrow> RobotController option" where
  "StartControl states s = (case WaitForStart states s of
     None \<Rightarrow> None
   | Some s \<Rightarrow> let s = Damping 2 s in
       Some (s\<lparr>rc_ctrl_dt_micro_sec := word_of_int \<lfloor>rnd32 (uc_dt (rc_ctrl s) * 1000000)\<rfloor>\<rparr>))"

section \<open>Well-formedness\<close>

definition wf_LowState :: "LowState_dds \<Rightarrow> bool" where
  "wf_LowState m \<longleftrightarrow> length (ls_quaternion m) = 4 \<and> length (ls_rpy m) = 3 \<and>
     length (ls_gyroscope m) = 3 \<and> length (ls_motor_state m) = 20 \<and> length (ls_wireless_remote m) = 40"

definition frame_ok :: "LowCmd_dds \<Rightarrow> bool" where
  "frame_ok c \<longleftrightarrow> lc_head c = [0xFE, 0xEF] \<and> lc_level_flag c = 0xFF"

definition wf_ri :: "RobotInterface \<Rightarrow> bool" where
  "wf_ri r \<longleftrightarrow> length (ri_jpos r) = 12 \<and> length (ri_jvel r) = 12 \<and> length (ri_tau r) = 12 \<and>
     length (ri_projected_gravity r) = 3 \<and> length (ri_jpos_des r) = 12 \<and> length (ri_jvel_des r) = 12 \<and>
     length (ri_kp r) = 12 \<and> length (ri_kd r) = 12 \<and> length (ri_tau_ff r) = 12 \<and>
     wf_LowCmd (ri_low_cmd r) \<and> frame_ok (ri_low_cmd r)"

text \<open>The gains stay between 0 and the larger of the mode's constant and the configured gain.\<close>

definition gain_bounds :: "UserController \<Rightarrow> RobotInterface \<Rightarrow> bool" where
  "gain_bounds c r \<longleftrightarrow> list_all (\<lambda>k. 0 \<le> k \<and> k \<le> max 40 (uc_kp c)) (ri_kp r) \<and>
     list_all (\<lambda>k. 0 \<le> k \<and> k \<le> max 2 (uc_kd c)) (ri_kd r)"

definition wf_uc :: "UserController \<Rightarrow> bool" where
  "wf_uc c \<longleftrightarrow> length (uc_init_pos c) = 12 \<and> 0 \<le> uc_kp c \<and> rep32 (uc_kp c) \<and> 0 \<le> uc_kd c \<and> rep32 (uc_kd c)"

definition wf_rc :: "RobotController \<Rightarrow> bool" where
  "wf_rc s \<longleftrightarrow> wf_LowState (rc_state s) \<and> wf_ri (rc_robot_interface s) \<and> sm_inv (rc_state_machine s) \<and>
     wf_uc (rc_ctrl s) \<and> gain_bounds (rc_ctrl s) (rc_robot_interface s) \<and> length (rc_compute_time s) < 100"

lemmas rc_ops = StandCallback_def CtrlCallback_def Damping_def UserControlStep_def StandingStep_def
  set_gains_def Reset_def Calculate_def GetInput_def Let_def

lemma scaled_gain:
  assumes "0 \<le> k" and "rep32 k" and "0 \<le> p" and "p \<le> 1"
  shows "0 \<le> rnd32 (rnd64 (k * p))" and "rnd32 (rnd64 (k * p)) \<le> k"
proof -
  have "0 \<le> k * p" "k * p \<le> k" using assms by (auto simp: mult_left_le)
  then show "0 \<le> rnd32 (rnd64 (k * p))" "rnd32 (rnd64 (k * p)) \<le> k"
    using assms(2) by (auto intro!: f32.rnd_nonneg f64.rnd_nonneg f32.rnd_le f64.rnd_le)
qed

lemma rep32_consts [simp]: "rep32 40" "rep32 1"
  using rep32_of_int [of 40] rep32_of_int [of 1] by simp_all

lemma set_gains_wf: "wf_ri r \<Longrightarrow> length pos = 12 \<Longrightarrow> wf_ri (set_gains pos kp kd r)"
  by (simp add: wf_ri_def set_gains_def)

lemma set_gains_bounds:
  "0 \<le> kp \<Longrightarrow> kp \<le> max 40 (uc_kp c) \<Longrightarrow> 0 \<le> kd \<Longrightarrow> kd \<le> max 2 (uc_kd c) \<Longrightarrow>
     gain_bounds c (set_gains pos kp kd r)"
  by (simp add: gain_bounds_def set_gains_def list_all_iff)

lemma GetState_wf: "wf_LowState m \<Longrightarrow> wf_ri r \<Longrightarrow> wf_ri (GetState m r)"
  by (simp add: wf_LowState_def wf_ri_def GetState_def UpdateProjectedGravity_def Let_def)

lemma GetState_gains: "gain_bounds c r \<Longrightarrow> gain_bounds c (GetState m r)"
  by (simp add: gain_bounds_def GetState_def UpdateProjectedGravity_def Let_def)

lemma LowStateMessageHandler_wf: "wf_LowState m \<Longrightarrow> wf_rc s \<Longrightarrow> wf_rc (LowStateMessageHandler m s)"
  by (simp add: wf_rc_def LowStateMessageHandler_def GetState_wf GetState_gains)

lemma InteprateGamePad_wf: "wf_rc s \<Longrightarrow> wf_rc (InteprateGamePad s)"
  by (simp add: wf_rc_def InteprateGamePad_def)

lemma wf_rc_set_gains:
  assumes "wf_rc s" and "0 \<le> kp" and "kp \<le> max 40 (uc_kp (rc_ctrl s))" and "0 \<le> kd"
    and "kd \<le> max 2 (uc_kd (rc_ctrl s))"
  shows "wf_rc (s\<lparr>rc_robot_interface := set_gains (uc_init_pos (rc_ctrl s)) kp kd (rc_robot_interface s)\<rparr>)"
  using assms by (simp add: wf_rc_def wf_uc_def set_gains_wf set_gains_bounds)

lemma wf_rc_ctrl:
  "wf_rc s \<Longrightarrow> wf_rc (s\<lparr>rc_ctrl := Calculate (GetInput r g (rc_ctrl s))\<rparr>)"
  by (simp add: wf_rc_def wf_uc_def gain_bounds_def Calculate_def GetInput_def)

lemma wf_rc_StandCallback: "wf_rc s \<Longrightarrow> wf_rc (StandCallback s)"
  unfolding StandCallback_def
  by (rule wf_rc_set_gains) (auto simp: wf_rc_def wf_uc_def sm_inv_def intro: scaled_gain max.coboundedI2)

lemma wf_rc_CtrlCallback: "wf_rc s \<Longrightarrow> wf_rc (CtrlCallback s)"
  unfolding CtrlCallback_def Let_def Reset_def
  by (rule wf_rc_set_gains [OF wf_rc_ctrl]) (auto simp: wf_rc_def wf_uc_def Calculate_def GetInput_def)

lemma wf_rc_Damping: "wf_rc s \<Longrightarrow> wf_rc (Damping 2 s)"
  unfolding Damping_def by (rule wf_rc_set_gains) (auto simp: max_def)

lemma wf_rc_UserControlStep: "wf_rc s \<Longrightarrow> wf_rc (UserControlStep b s)"
proof -
  assume "wf_rc s"
  then have "wf_rc (s\<lparr>rc_ctrl := Calculate (GetInput (rc_robot_interface s) (rc_gamepad s) (rc_ctrl s))\<rparr>)"
    by (rule wf_rc_ctrl)
  then show ?thesis
    by (simp add: UserControlStep_def Let_def wf_rc_def wf_ri_def wf_uc_def gain_bounds_def Calculate_def GetInput_def)
qed

lemmas wf_rc_callbacks = wf_rc_StandCallback wf_rc_CtrlCallback wf_rc_Damping wf_rc_UserControlStep

lemma wf_rc_machine:
  "wf_rc s \<Longrightarrow> sm_inv m \<Longrightarrow> wf_rc (s\<lparr>rc_state_machine := m\<rparr>)"
  by (simp add: wf_rc_def)

lemma wf_rc_inv: "wf_rc s \<Longrightarrow> sm_inv (rc_state_machine s)"
  by (simp add: wf_rc_def)

lemma wf_rc_gains:
  assumes "wf_rc s" and "0 \<le> kp" and "rep32 kp" and "kp \<le> 40" and "0 \<le> kd" and "rep32 kd" and "kd \<le> 2"
  defines "p \<equiv> pd_ratio (rc_state_machine s)"
  shows "wf_rc (s\<lparr>rc_robot_interface := (rc_robot_interface s)\<lparr>
     ri_kp := replicate 12 (rnd32 (rnd64 (kp * p))), ri_kd := replicate 12 (rnd32 (rnd64 (kd * p)))\<rparr>\<rparr>)"
proof -
  have p: "0 \<le> p" "p \<le> 1" using wf_rc_inv [OF assms(1)] by (auto simp: p_def sm_inv_def)
  show ?thesis
    using assms(1) scaled_gain [OF assms(2,3) p] scaled_gain [OF assms(5,6) p] assms(4,7)
    by (auto simp: wf_rc_def wf_ri_def gain_bounds_def list_all_iff max_def)
qed

lemma UpdateStateMachine_wf: "wf_rc s \<Longrightarrow> wf_rc (UpdateStateMachine s)"
  using sm_inv_Stand sm_inv_Ctrl
  by (simp add: UpdateStateMachine_def Let_def split_beta wf_rc_machine wf_rc_callbacks wf_rc_inv
      sm_inv_Stop)

lemma StandingStep_wf: "wf_rc s \<Longrightarrow> wf_rc (StandingStep 40 1 s)"
  unfolding StandingStep_def Let_def
  by (intro wf_rc_gains wf_rc_callbacks) (simp_all add: wf_rc_machine sm_inv_Standing wf_rc_inv)

lemma ControlModes_wf: "wf_rc s \<Longrightarrow> wf_rc (ControlModes s)"
  by (simp add: ControlModes_def Let_def wf_rc_machine StandingStep_wf wf_rc_callbacks sm_inv_Stop)

lemma fill_motors_wf:
  assumes "list_all wf_MotorCmd ms" and "length ms = 20"
  shows "list_all wf_MotorCmd (fill_motors r ms)" and "length (fill_motors r ms) = 20"
  using assms by (auto simp: fill_motors_def list_all_iff wf_MotorCmd_def)

definition motor_set :: "RobotInterface \<Rightarrow> nat \<Rightarrow> MotorCmd_dds \<Rightarrow> bool" where
  "motor_set r i m \<longleftrightarrow> mc_q m = ri_jpos_des r ! i \<and> mc_dq m = ri_jvel_des r ! i \<and>
     mc_kp m = ri_kp r ! i \<and> mc_kd m = ri_kd r ! i \<and> mc_tau m = ri_tau_ff r ! i"

lemma wf_LowCmd_motors:
  "wf_LowCmd c \<Longrightarrow> wf_LowCmd (c\<lparr>lc_motor_cmd := fill_motors r (lc_motor_cmd c)\<rparr>)"
  using fill_motors_wf [of "lc_motor_cmd c" r] by (simp add: wf_LowCmd_def)

lemma SetCommand_ok:
  assumes pad: "3 \<le> length pad" and wf: "wf_ri r"
  obtains c where "SetCommand pad r = Some (r\<lparr>ri_low_cmd := c\<rparr>, c)" and "wf_LowCmd c" and "frame_ok c"
    and "LowCmd_crc pad c = Some (lc_crc c)" and "\<And>i. i < 12 \<Longrightarrow> motor_set r i (lc_motor_cmd c ! i)"
    and "\<And>i. 12 \<le> i \<Longrightarrow> i < 20 \<Longrightarrow> lc_motor_cmd c ! i = lc_motor_cmd (ri_low_cmd r) ! i"
proof -
  let ?c = "(ri_low_cmd r)\<lparr>lc_motor_cmd := fill_motors r (lc_motor_cmd (ri_low_cmd r))\<rparr>"
  have wfc: "wf_LowCmd ?c" using wf by (intro wf_LowCmd_motors) (simp add: wf_ri_def)
  note crc = LowCmd_crc_eq [OF pad wfc]
  let ?c' = "?c\<lparr>lc_crc := crc32_words (words_of (image_prefix pad ?c))\<rparr>"
  have len: "length (lc_motor_cmd (ri_low_cmd r)) = 20" using wf by (simp add: wf_ri_def wf_LowCmd_def)
  have "SetCommand pad r = Some (r\<lparr>ri_low_cmd := ?c'\<rparr>, ?c')"
    by (simp add: SetCommand_def crc Let_def)
  moreover have "wf_LowCmd ?c'" using wfc wf_LowCmd_crc by blast
  moreover have "frame_ok ?c'" using wf by (simp add: wf_ri_def frame_ok_def)
  moreover have "LowCmd_crc pad ?c' = Some (lc_crc ?c')"
    using LowCmd_crc_eq [OF pad, of ?c'] wfc by (simp del: LowCmd_dds.update_convs)
  moreover have "motor_set r i (lc_motor_cmd ?c' ! i)" if "i < 12" for i
    using that len by (simp add: fill_motors_def motor_set_def)
  moreover have "lc_motor_cmd ?c' ! i = lc_motor_cmd (ri_low_cmd r) ! i" if "12 \<le> i" "i < 20" for i
    using that len by (simp add: fill_motors_def)
  ultimately show thesis using that by blast
qed

text \<open>What a control step leaves: the modes decide the interface, the command is a checked copy of it.\<close>

lemma ControlStep_ok:
  assumes pad: "3 \<le> length pad" and wf: "wf_rc s"
  defines "m \<equiv> ControlModes (UpdateStateMachine (InteprateGamePad s))"
  obtains s' where "ControlStep pad d s = Some s'" and "wf_rc s'"
    and "rc_state_machine s' = rc_state_machine m" and "rc_gamepad s' = rc_gamepad m"
    and "rc_state s' = rc_state m" and "rc_ctrl s' = rc_ctrl m"
    and "LowCmd_crc pad (rc_cmd s') = Some (lc_crc (rc_cmd s'))" and "wf_LowCmd (rc_cmd s')"
    and "frame_ok (rc_cmd s')"
    and "\<And>i. i < 12 \<Longrightarrow> motor_set (rc_robot_interface m) i (lc_motor_cmd (rc_cmd s') ! i)"
proof -
  have wfm: "wf_rc m" unfolding m_def
    by (intro ControlModes_wf UpdateStateMachine_wf InteprateGamePad_wf wf)
  then have "wf_ri (rc_robot_interface m)" by (simp add: wf_rc_def)
  then obtain c where c: "SetCommand pad (rc_robot_interface m) =
        Some ((rc_robot_interface m)\<lparr>ri_low_cmd := c\<rparr>, c)" "wf_LowCmd c" "frame_ok c"
      "LowCmd_crc pad c = Some (lc_crc c)"
      "\<And>i. i < 12 \<Longrightarrow> motor_set (rc_robot_interface m) i (lc_motor_cmd c ! i)"
    using SetCommand_ok [OF pad] by metis
  let ?a = "m\<lparr>rc_robot_interface := (rc_robot_interface m)\<lparr>ri_low_cmd := c\<rparr>, rc_cmd := c,
      rc_compute_time := rc_compute_time m @ [d]\<rparr>"
  let ?s = "if length (rc_compute_time ?a) = 100 then (WriteLog ?a)\<lparr>rc_compute_time := []\<rparr> else WriteLog ?a"
  have "ControlStep pad d s = Some ?s"
    using c(1) by (simp add: ControlStep_def Let_def WriteLog_def flip: m_def)
  moreover have "wf_rc ?s"
    using wfm c(2,3) by (auto simp: wf_rc_def wf_ri_def gain_bounds_def WriteLog_def)
  ultimately show thesis
    using c by (intro that [of ?s]) (auto simp: WriteLog_def)
qed

section \<open>Effects of one control step\<close>

abbreviation mode_of :: "RobotController \<Rightarrow> STATES" where
  "mode_of s \<equiv> sm_state (rc_state_machine s)"

abbreviation keys :: "RobotController \<Rightarrow> u16" where
  "keys s \<equiv> x_btn (RF_RX (take 40 (ls_wireless_remote (rc_state s))))"

definition damping_motor :: "RobotController \<Rightarrow> nat \<Rightarrow> MotorCmd_dds \<Rightarrow> bool" where
  "damping_motor s i m \<longleftrightarrow> mc_q m = uc_init_pos (rc_ctrl s) ! i \<and> mc_dq m = 0 \<and> mc_kp m = 0 \<and>
     mc_kd m = 2 \<and> mc_tau m = 0"

text \<open>The callbacks change neither the gamepad nor the machine nor the initial pose.\<close>

definition same_frame :: "RobotController \<Rightarrow> RobotController \<Rightarrow> bool" where
  "same_frame s t \<longleftrightarrow> rc_gamepad t = rc_gamepad s \<and> uc_init_pos (rc_ctrl t) = uc_init_pos (rc_ctrl s) \<and>
     rc_state t = rc_state s \<and> uc_kp (rc_ctrl t) = uc_kp (rc_ctrl s) \<and> uc_kd (rc_ctrl t) = uc_kd (rc_ctrl s)"

lemma same_frame_callbacks [simp]:
  "same_frame s (StandCallback t) = same_frame s t" "same_frame s (CtrlCallback t) = same_frame s t"
  "same_frame s (Damping kd t) = same_frame s t" "same_frame s (UserControlStep b t) = same_frame s t"
  "same_frame s (t\<lparr>rc_state_machine := m\<rparr>) = same_frame s t"
  "same_frame s (t\<lparr>rc_robot_interface := r\<rparr>) = same_frame s t"
  by (simp_all add: same_frame_def StandCallback_def CtrlCallback_def Damping_def UserControlStep_def
      Reset_def Calculate_def GetInput_def Let_def)

lemma machine_callbacks [simp]:
  "rc_state_machine (StandCallback t) = rc_state_machine t"
  "rc_state_machine (CtrlCallback t) = rc_state_machine t"
  "rc_state_machine (Damping kd t) = rc_state_machine t"
  "rc_state_machine (UserControlStep b t) = rc_state_machine t"
  by (simp_all add: StandCallback_def CtrlCallback_def Damping_def UserControlStep_def Let_def)

lemma same_frame_refl [simp]: "same_frame s s"
  by (simp add: same_frame_def)

lemma same_frame_gamepad: "same_frame s t \<Longrightarrow> rc_gamepad t = rc_gamepad s"
  by (simp add: same_frame_def)

lemma same_frame_StandingStep [simp]: "same_frame s (StandingStep kp kd t) = same_frame s t"
  by (simp add: StandingStep_def Let_def)

lemma same_frame_if [simp]: "same_frame s (if b then t else u) = (if b then same_frame s t else same_frame s u)"
  by simp

lemma same_frame_Update: "same_frame s (UpdateStateMachine s)"
  by (simp add: UpdateStateMachine_def Let_def split_beta)

lemma same_frame_Modes: "same_frame s (ControlModes s)"
  by (simp add: ControlModes_def Let_def)

lemma gamepad_preserved [simp]:
  "rc_gamepad (UpdateStateMachine s) = rc_gamepad s"
  "rc_gamepad (ControlModes s) = rc_gamepad s"
  using same_frame_Update [of s] same_frame_Modes [of s] by (simp_all add: same_frame_def)

lemma init_pos_preserved [simp]:
  "uc_init_pos (rc_ctrl (InteprateGamePad s)) = uc_init_pos (rc_ctrl s)"
  "uc_init_pos (rc_ctrl (UpdateStateMachine s)) = uc_init_pos (rc_ctrl s)"
  "uc_init_pos (rc_ctrl (ControlModes s)) = uc_init_pos (rc_ctrl s)"
  using same_frame_Update [of s] same_frame_Modes [of s]
  by (simp_all add: same_frame_def InteprateGamePad_def)

lemma configured_gains_preserved [simp]:
  "uc_kp (rc_ctrl (InteprateGamePad s)) = uc_kp (rc_ctrl s)"
  "uc_kp (rc_ctrl (UpdateStateMachine s)) = uc_kp (rc_ctrl s)"
  "uc_kp (rc_ctrl (ControlModes s)) = uc_kp (rc_ctrl s)"
  "uc_kd (rc_ctrl (InteprateGamePad s)) = uc_kd (rc_ctrl s)"
  "uc_kd (rc_ctrl (UpdateStateMachine s)) = uc_kd (rc_ctrl s)"
  "uc_kd (rc_ctrl (ControlModes s)) = uc_kd (rc_ctrl s)"
  using same_frame_Update [of s] same_frame_Modes [of s]
  by (simp_all add: same_frame_def InteprateGamePad_def)

lemma gamepad_keys [simp]:
  "pressed (gp_L2 (rc_gamepad (InteprateGamePad s))) = bit (keys s) 5"
  "pressed (gp_B (rc_gamepad (InteprateGamePad s))) = bit (keys s) 9"
  "pressed (gp_R2 (rc_gamepad (InteprateGamePad s))) = bit (keys s) 4"
  "on_press (gp_R2 (rc_gamepad (InteprateGamePad s))) = (bit (keys s) 4 \<and> \<not> pressed (gp_R2 (rc_gamepad s)))"
  "on_press (gp_A (rc_gamepad (InteprateGamePad s))) = (bit (keys s) 8 \<and> \<not> pressed (gp_A (rc_gamepad s)))"
  by (simp_all add: InteprateGamePad_def)

lemma machine_after_pad [simp]: "rc_state_machine (InteprateGamePad s) = rc_state_machine s"
  by (simp add: InteprateGamePad_def)

lemma UpdateStateMachine_machine:
  "rc_state_machine (UpdateStateMachine s) =
     (let m = rc_state_machine s;
          m = (if on_press (gp_R2 (rc_gamepad s)) then snd (Stand m) else m);
          m = (if on_press (gp_A (rc_gamepad s)) then snd (Ctrl m) else m)
      in if pressed (gp_L2 (rc_gamepad s)) \<and> pressed (gp_B (rc_gamepad s)) then snd (Stop m) else m)"
  using same_frame_gamepad [OF same_frame_callbacks(1) [THEN iffD2, OF same_frame_refl]]
    same_frame_gamepad [OF same_frame_callbacks(2) [THEN iffD2, OF same_frame_refl]]
  by (simp add: UpdateStateMachine_def Let_def split_beta)

lemma ControlModes_damping:
  assumes "mode_of s = DAMPING"
  shows "ControlModes s = Damping 2 s"
  using assms by (simp add: ControlModes_def Damping_def Let_def)

lemma Damping_motor:
  assumes "motor_set (rc_robot_interface (Damping 2 s)) i m" and "i < 12"
  shows "damping_motor s i m"
  using assms by (simp add: motor_set_def damping_motor_def Damping_def set_gains_def)

lemma damping_step:
  assumes pad: "3 \<le> length pad" and wf: "wf_rc s"
    and "mode_of (UpdateStateMachine (InteprateGamePad s)) = DAMPING"
  shows "\<exists>s'. ControlStep pad d s = Some s' \<and> wf_rc s' \<and> mode_of s' = DAMPING \<and>
    (\<forall>i<12. damping_motor s i (lc_motor_cmd (rc_cmd s') ! i))"
proof -
  let ?u = "UpdateStateMachine (InteprateGamePad s)"
  have m: "ControlModes ?u = Damping 2 ?u" by (rule ControlModes_damping [OF assms(3)])
  obtain s' where s': "ControlStep pad d s = Some s'" "wf_rc s'" "rc_state_machine s' = rc_state_machine (Damping 2 ?u)"
      "\<And>i. i < 12 \<Longrightarrow> motor_set (rc_robot_interface (Damping 2 ?u)) i (lc_motor_cmd (rc_cmd s') ! i)"
    using ControlStep_ok [OF pad wf, of d] unfolding m by metis
  have "damping_motor ?u i (lc_motor_cmd (rc_cmd s') ! i)" if "i < 12" for i
    by (rule Damping_motor [OF s'(4)]) (use that in simp_all)
  then have "\<forall>i<12. damping_motor s i (lc_motor_cmd (rc_cmd s') ! i)"
    by (simp add: damping_motor_def)
  with s' assms(3) show ?thesis by (simp add: Damping_def)
qed

lemma fresh_R2_mode:
  assumes "\<not> (bit (keys s) 4 \<and> \<not> pressed (gp_R2 (rc_gamepad s)))" and "mode_of s = DAMPING"
  shows "mode_of (UpdateStateMachine (InteprateGamePad s)) = DAMPING"
proof -
  have "\<not> on_press (gp_R2 (rc_gamepad (InteprateGamePad s)))" using assms(1) by simp
  then show ?thesis
    using assms(2) unfolding UpdateStateMachine_machine by (auto simp: Let_def Ctrl_def Stop_def)
qed

lemma gravity_preserved [simp]:
  "ri_projected_gravity (set_gains pos kp kd r) = ri_projected_gravity r"
  by (simp add: set_gains_def)

lemma gravity_callbacks [simp]:
  "ri_projected_gravity (rc_robot_interface (InteprateGamePad s)) = ri_projected_gravity (rc_robot_interface s)"
  "ri_projected_gravity (rc_robot_interface (StandCallback s)) = ri_projected_gravity (rc_robot_interface s)"
  "ri_projected_gravity (rc_robot_interface (CtrlCallback s)) = ri_projected_gravity (rc_robot_interface s)"
  "ri_projected_gravity (rc_robot_interface (UserControlStep b s)) = ri_projected_gravity (rc_robot_interface s)"
  by (simp_all add: InteprateGamePad_def StandCallback_def CtrlCallback_def UserControlStep_def Let_def)

lemma gravity_Update [simp]:
  "ri_projected_gravity (rc_robot_interface (UpdateStateMachine s)) = ri_projected_gravity (rc_robot_interface s)"
  by (simp add: UpdateStateMachine_def Let_def split_beta)

lemma ControlModes_machine:
  "rc_state_machine (ControlModes s) =
     (case mode_of s of
        STAND \<Rightarrow> rc_state_machine (StandingStep 40 1 s)
      | DAMPING \<Rightarrow> rc_state_machine s
      | CTRL \<Rightarrow> if CheckTermination s then snd (Stop (rc_state_machine s)) else rc_state_machine s)"
proof -
  have "mode_of (StandingStep 40 1 s) = mode_of s"
    by (simp add: StandingStep_def Let_def)
  then show ?thesis
    by (cases "mode_of s") (simp_all add: ControlModes_def Let_def CheckTermination_def)
qed

lemma StandingStep_mode: "mode_of (StandingStep kp kd s) = mode_of s"
  by (simp add: StandingStep_def Let_def)

section \<open>Threads\<close>

text \<open>
  The message thread, the control thread and the publishing thread run their handlers in any
  order. The log of published commands is kept with the controller.
\<close>

record System =
  sys_rc :: RobotController
  sys_published :: "LowCmd_dds list"

definition LowCmdwriteHandler :: "System \<Rightarrow> System" where
  "LowCmdwriteHandler y = y\<lparr>sys_published := sys_published y @ [rc_cmd (sys_rc y)]\<rparr>"

inductive sys_step :: "u8 list \<Rightarrow> System \<Rightarrow> System \<Rightarrow> bool" for pad where
  message: "wf_LowState m \<Longrightarrow> sys_step pad y (y\<lparr>sys_rc := LowStateMessageHandler m (sys_rc y)\<rparr>)"
| control: "ControlStep pad d (sys_rc y) = Some s \<Longrightarrow> sys_step pad y (y\<lparr>sys_rc := s\<rparr>)"
| publish: "sys_step pad y (LowCmdwriteHandler y)"

text \<open>
  The controller after construction and \<open>LoadParam\<close>; measured values and the first message are
  arbitrary. The control thread is created when \<open>StartControl\<close> leaves its waiting loop.
\<close>

definition constructed :: "RobotController \<Rightarrow> bool" where
  "constructed s \<longleftrightarrow> (\<exists>m. rc_robot_interface s = RobotInterface_init m \<and>
       length (ri_jpos m) = 12 \<and> length (ri_jvel m) = 12 \<and> length (ri_tau m) = 12) \<and>
     rc_cmd s = LowCmd_default \<and> wf_LowState (rc_state s) \<and> rc_gamepad s = gamepad_init \<and>
     rc_state_machine s = state_machine_default \<and> wf_uc (rc_ctrl s) \<and> rc_compute_time s = []"

definition rc_initial :: "RobotController \<Rightarrow> bool" where
  "rc_initial s \<longleftrightarrow> (\<exists>s0 states. constructed s0 \<and> list_all wf_LowState states \<and> StartControl states s0 = Some s)"

inductive reachable :: "u8 list \<Rightarrow> System \<Rightarrow> bool" for pad where
  init: "rc_initial s \<Longrightarrow> reachable pad \<lparr>sys_rc = s, sys_published = []\<rparr>"
| step: "reachable pad y \<Longrightarrow> sys_step pad y z \<Longrightarrow> reachable pad z"

inductive_cases sys_stepE: "sys_step pad y z"

definition gains_ok :: "real \<Rightarrow> real \<Rightarrow> LowCmd_dds \<Rightarrow> bool" where
  "gains_ok kp kd c \<longleftrightarrow> (\<forall>i<12. 0 \<le> mc_kp (lc_motor_cmd c ! i) \<and> mc_kp (lc_motor_cmd c ! i) \<le> max 40 kp \<and>
     0 \<le> mc_kd (lc_motor_cmd c ! i) \<and> mc_kd (lc_motor_cmd c ! i) \<le> max 2 kd)"

definition cmd_ok :: "u8 list \<Rightarrow> real \<Rightarrow> real \<Rightarrow> LowCmd_dds \<Rightarrow> bool" where
  "cmd_ok pad kp kd c \<longleftrightarrow> wf_LowCmd c \<and> (c = LowCmd_default \<or>
     frame_ok c \<and> LowCmd_crc pad c = Some (lc_crc c) \<and> gains_ok kp kd c)"

definition configured :: "RobotController \<Rightarrow> real \<times> real" where
  "configured s = (uc_kp (rc_ctrl s), uc_kd (rc_ctrl s))"

definition sys_inv :: "u8 list \<Rightarrow> System \<Rightarrow> bool" where
  "sys_inv pad y \<longleftrightarrow> (let (kp, kd) = configured (sys_rc y) in wf_rc (sys_rc y) \<and>
     cmd_ok pad kp kd (rc_cmd (sys_rc y)) \<and> list_all (cmd_ok pad kp kd) (sys_published y))"

lemma wf_default: "wf_LowCmd LowCmd_default"
  by (simp add: wf_LowCmd_def LowCmd_default_def MotorCmd_default_def wf_MotorCmd_def list_all_iff)

lemma wf_init_cmd: "wf_LowCmd (InitLowCmd LowCmd_default)" "frame_ok (InitLowCmd LowCmd_default)"
  by (simp_all add: wf_LowCmd_def InitLowCmd_def LowCmd_default_def MotorCmd_default_def
      wf_MotorCmd_def list_all_iff frame_ok_def)

lemma constructed_wf: "constructed s \<Longrightarrow> wf_rc s"
  by (auto simp: constructed_def wf_rc_def wf_ri_def RobotInterface_init_def wf_init_cmd
      gain_bounds_def list_all_iff sm_inv_default le_max_iff_disj wf_uc_def)

lemma LowStateMessageHandler_cmd [simp]: "rc_cmd (LowStateMessageHandler m s) = rc_cmd s"
  by (simp add: LowStateMessageHandler_def)

lemma WaitForStart_wf:
  "wf_rc s \<Longrightarrow> list_all wf_LowState states \<Longrightarrow> WaitForStart states s = Some s' \<Longrightarrow>
     wf_rc s' \<and> rc_cmd s' = rc_cmd s"
proof (induction states arbitrary: s)
  case (Cons m states)
  let ?s = "InteprateGamePad (LowStateMessageHandler m s)"
  have "wf_rc ?s"
    using Cons.prems by (intro InteprateGamePad_wf LowStateMessageHandler_wf) simp_all
  moreover have "rc_cmd ?s = rc_cmd s" by (simp add: InteprateGamePad_def)
  ultimately show ?case
    using Cons.prems Cons.IH [of ?s] by (auto simp: Let_def split: if_splits)
qed simp

lemma rc_initial_wf: "rc_initial s \<Longrightarrow> wf_rc s \<and> rc_cmd s = LowCmd_default"
proof -
  assume "rc_initial s"
  then obtain s0 states where s0: "constructed s0" "list_all wf_LowState states" "StartControl states s0 = Some s"
    by (auto simp: rc_initial_def)
  then obtain s1 where s1: "WaitForStart states s0 = Some s1"
    and s: "s = (Damping 2 s1)\<lparr>rc_ctrl_dt_micro_sec := word_of_int \<lfloor>rnd32 (uc_dt (rc_ctrl (Damping 2 s1)) * 1000000)\<rfloor>\<rparr>"
    by (auto simp: StartControl_def Let_def split: option.splits)
  have "wf_rc s1 \<and> rc_cmd s1 = rc_cmd s0"
    by (rule WaitForStart_wf [OF constructed_wf [OF s0(1)] s0(2) s1])
  moreover from this have "wf_rc (Damping 2 s1)" by (intro wf_rc_Damping) simp
  ultimately show ?thesis using s0(1) by (simp add: s constructed_def wf_rc_def Damping_def)
qed

lemma gain_bounds_motor:
  assumes "gain_bounds c r" and "wf_ri r" and "i < 12" and "motor_set r i m"
  shows "0 \<le> mc_kp m \<and> mc_kp m \<le> max 40 (uc_kp c) \<and> 0 \<le> mc_kd m \<and> mc_kd m \<le> max 2 (uc_kd c)"
  using assms by (auto simp: gain_bounds_def wf_ri_def motor_set_def list_all_length)

lemma ControlStep_cmd_ok:
  assumes pad: "3 \<le> length pad" and wf: "wf_rc s" and "ControlStep pad d s = Some s'"
  shows "wf_rc s' \<and> configured s' = configured s \<and> cmd_ok pad (uc_kp (rc_ctrl s)) (uc_kd (rc_ctrl s)) (rc_cmd s')"
proof -
  let ?m = "ControlModes (UpdateStateMachine (InteprateGamePad s))"
  have wfm: "wf_rc ?m" by (intro ControlModes_wf UpdateStateMachine_wf InteprateGamePad_wf wf)
  have s': "wf_rc s'" "rc_ctrl s' = rc_ctrl ?m" "LowCmd_crc pad (rc_cmd s') = Some (lc_crc (rc_cmd s'))"
    "wf_LowCmd (rc_cmd s')" "frame_ok (rc_cmd s')"
    "\<And>i. i < 12 \<Longrightarrow> motor_set (rc_robot_interface ?m) i (lc_motor_cmd (rc_cmd s') ! i)"
    using ControlStep_ok [OF pad wf, of d] assms(3) by (metis option.inject)+
  have "gains_ok (uc_kp (rc_ctrl ?m)) (uc_kd (rc_ctrl ?m)) (rc_cmd s')"
    using wfm s'(6) gain_bounds_motor [of "rc_ctrl ?m" "rc_robot_interface ?m"]
    unfolding gains_ok_def wf_rc_def by blast
  with s' show ?thesis by (simp add: cmd_ok_def configured_def)
qed

lemma sys_inv_step:
  assumes "3 \<le> length pad" and "sys_step pad y z" and "sys_inv pad y"
  shows "sys_inv pad z"
  using assms(2)
proof cases
  case (message m)
  with assms show ?thesis
    by (simp add: sys_inv_def LowStateMessageHandler_wf configured_def)
      (simp add: LowStateMessageHandler_def)
next
  case (control d s)
  with assms show ?thesis
    using ControlStep_cmd_ok [OF assms(1), of "sys_rc y" d s] by (simp add: sys_inv_def configured_def)
next
  case publish
  with assms show ?thesis by (simp add: sys_inv_def LowCmdwriteHandler_def configured_def)
qed

lemma sys_inv_reachable:
  assumes "3 \<le> length pad" and "reachable pad y"
  shows "sys_inv pad y"
  using assms(2)
proof induction
  case (init s)
  then show ?case using rc_initial_wf [of s] by (simp add: sys_inv_def cmd_ok_def wf_default configured_def)
next
  case (step y z)
  then show ?case using sys_inv_step [OF assms(1)] by blast
qed

section \<open>What the controller guarantees\<close>

text \<open>C1: Emergency stop. Whatever the controller is doing, a control step during which the remote
  holds L2 and B ends in damping with ratio 0, and the command it stores has on all twelve joints
  zero stiffness, zero target velocity, zero torque, damping 2 and the initial pose.\<close>

theorem emergency_stop:
  assumes "3 \<le> length pad" and "wf_rc s" and "bit (keys s) 5" and "bit (keys s) 9"
  shows "\<exists>s'. ControlStep pad d s = Some s' \<and> mode_of s' = DAMPING \<and> pd_ratio (rc_state_machine s') = 0 \<and>
    (\<forall>i<12. damping_motor s i (lc_motor_cmd (rc_cmd s') ! i))"
proof -
  have "mode_of (UpdateStateMachine (InteprateGamePad s)) = DAMPING"
    unfolding UpdateStateMachine_machine using assms(3,4) by (simp add: Let_def Stop_def)
  from damping_step [OF assms(1,2) this, of d] show ?thesis
    by (auto simp: wf_rc_def sm_inv_def)
qed


text \<open>C4: Entering control. A control step that ends in control started in control, or in standing
  with A freshly pressed and the ratio above 0.95; it never started in damping, the stop keys were
  not held and the robot was not tipped over.\<close>

theorem ctrl_mode_guarded:
  assumes "3 \<le> length pad" and "wf_rc s" and "ControlStep pad d s = Some s'" and "mode_of s' = CTRL"
  shows "mode_of s \<noteq> DAMPING \<and> \<not> (bit (keys s) 5 \<and> bit (keys s) 9) \<and>
    \<not> ri_projected_gravity (rc_robot_interface s) ! 2 > 0 \<and>
    (mode_of s = STAND \<longrightarrow> bit (keys s) 8 \<and> \<not> pressed (gp_A (rc_gamepad s)) \<and>
       pd_ratio (rc_state_machine s) > ctrl_threshold)"
proof -
  let ?u = "UpdateStateMachine (InteprateGamePad s)"
  have "rc_state_machine s' = rc_state_machine (ControlModes ?u)"
    using ControlStep_ok [OF assms(1,2), of d] assms(3) by (metis option.inject)
  with assms(4) have u: "mode_of ?u = CTRL" "\<not> CheckTermination ?u"
    unfolding ControlModes_machine
    by (auto simp: Stop_def StandingStep_mode split: STATES.splits if_splits)
  have inv: "sm_inv (rc_state_machine s)" using assms(2) by (rule wf_rc_inv)
  have "0 < ctrl_threshold" by (simp add: ctrl_threshold_eval)
  with u inv show ?thesis
    unfolding UpdateStateMachine_machine CheckTermination_def
    by (auto simp: Let_def Stand_def Ctrl_threshold Stop_def sm_inv_def split: if_splits)
qed


section \<open>Sample runs\<close>

definition sample_msg :: "u8 \<Rightarrow> u8 \<Rightarrow> LowState_dds" where
  "sample_msg lo hi = \<lparr>ls_quaternion = [1, 0, 0, 0], ls_rpy = [0, 0, 0], ls_gyroscope = [0, 0, 0],
     ls_motor_state = replicate 20 \<lparr>ms_q = 0, ms_dq = 0, ms_tau_est = 0\<rparr>,
     ls_wireless_remote = [0x55, 0x51, lo, hi] @ replicate 36 0\<rparr>"

definition sample_uc :: UserController where
  "sample_uc = \<lparr>uc_dt = 0, uc_kp = 40, uc_kd = 1, uc_init_pos = replicate 12 0,
     uc_jpos_des = replicate 12 0, uc_cmd = replicate 3 (Some 0), uc_jpos_processed = replicate 12 0,
     uc_jvel_processed = replicate 12 0\<rparr>"

definition sample_measured :: RobotInterface where
  "sample_measured = \<lparr>ri_jpos = replicate 12 0, ri_jvel = replicate 12 0, ri_tau = replicate 12 0,
     ri_quat = [1, 0, 0, 0], ri_rpy = [0, 0, 0], ri_gyro = [0, 0, 0], ri_projected_gravity = [0, 0, -1],
     ri_jpos_des = [], ri_jvel_des = [], ri_kp = [], ri_kd = [], ri_tau_ff = [],
     ri_low_cmd = LowCmd_default\<rparr>"

definition sample_rc :: "LowState_dds \<Rightarrow> RobotController" where
  "sample_rc m = \<lparr>rc_cmd = LowCmd_default, rc_state = m, rc_gamepad = gamepad_init,
     rc_state_machine = state_machine_default, rc_ctrl = sample_uc,
     rc_robot_interface = RobotInterface_init sample_measured, rc_log_open = False, rc_log = [],
     rc_ctrl_dt_micro_sec = 2000, rc_compute_time = []\<rparr>"

definition sample_ctrl :: "real \<Rightarrow> RobotController" where
  "sample_ctrl z = (sample_rc (sample_msg 0 0))\<lparr>
     rc_state_machine := \<lparr>sm_state = CTRL, pd_ratio = 1, delta_pd = delta_default\<rparr>,
     rc_robot_interface := (RobotInterface_init sample_measured)\<lparr>ri_projected_gravity := [0, 0, z]\<rparr>\<rparr>"

lemma sample_msg_wf: "wf_LowState (sample_msg lo hi)"
  by (simp add: wf_LowState_def sample_msg_def)

lemma sample_constructed: "constructed (sample_rc (sample_msg lo hi))"
  by (auto simp: constructed_def sample_rc_def sample_measured_def sample_msg_wf wf_uc_def sample_uc_def)

lemma sample_ctrl_wf: "wf_rc (sample_ctrl z)"
  using constructed_wf [OF sample_constructed, of 0 0]
  by (simp add: wf_rc_def wf_ri_def gain_bounds_def sample_ctrl_def sample_rc_def RobotInterface_init_def
      sm_inv_def ctrl_threshold_eval)

lemma sample_keys: "rc_state s = sample_msg lo hi \<Longrightarrow> keys s = of_le16 [lo, hi]"
  by (simp add: sample_msg_def RF_RX_def)

theorem emergency_stop_witness:
  "\<exists>s'. ControlStep [0, 0, 0] 0 (sample_rc (sample_msg 0x20 0x02)) = Some s' \<and> mode_of s' = DAMPING \<and>
     mc_kd (lc_motor_cmd (rc_cmd s') ! 11) = 2"
proof -
  let ?s = "sample_rc (sample_msg 0x20 0x02)"
  have "keys ?s = of_le16 [0x20, 0x02]" by (rule sample_keys) (simp add: sample_rc_def)
  then have "bit (keys ?s) 5" "bit (keys ?s) 9" by (simp_all add: bit_of_le16)
  from emergency_stop [OF _ constructed_wf [OF sample_constructed] this, of "[0, 0, 0]" 0]
  show ?thesis by (auto simp: damping_motor_def)
qed


lemma sample_ctrl_stays:
  "\<exists>s'. ControlStep [0, 0, 0] 0 (sample_ctrl (-1)) = Some s' \<and> mode_of s' = CTRL"
proof -
  let ?s = "sample_ctrl (-1)" let ?u = "UpdateStateMachine (InteprateGamePad ?s)"
  have keys: "keys ?s = of_le16 [0, 0]"
    by (rule sample_keys) (simp add: sample_ctrl_def sample_rc_def)
  have "mode_of ?u = CTRL"
    unfolding UpdateStateMachine_machine by (simp add: keys Let_def bit_of_le16) (simp add: sample_ctrl_def)
  moreover have "\<not> CheckTermination ?u" by (simp add: CheckTermination_def sample_ctrl_def)
  ultimately have "mode_of (ControlModes ?u) = CTRL" by (simp add: ControlModes_machine)
  moreover have "3 \<le> length [0, 0, 0 :: u8]" by simp
  ultimately show ?thesis
    by (rule_tac ControlStep_ok [where d = 0, OF _ sample_ctrl_wf [of "-1"]]) (assumption, auto)
qed

theorem ctrl_mode_guarded_witness:
  "\<not> ri_projected_gravity (rc_robot_interface (sample_ctrl (-1))) ! 2 > 0"
proof -
  obtain s' where s': "ControlStep [0, 0, 0] 0 (sample_ctrl (-1)) = Some s'" "mode_of s' = CTRL"
    using sample_ctrl_stays by blast
  show ?thesis using ctrl_mode_guarded [OF _ sample_ctrl_wf s'] by simp
qed

lemma sample_started: "\<exists>s. rc_initial s"
proof -
  let ?s = "InteprateGamePad (LowStateMessageHandler (sample_msg 0x10 0) (sample_rc (sample_msg 0 0)))"
  have "keys (LowStateMessageHandler (sample_msg 0x10 0) (sample_rc (sample_msg 0 0))) = of_le16 [0x10, 0]"
    by (rule sample_keys) (simp add: LowStateMessageHandler_def)
  then have "on_press (gp_R2 (rc_gamepad ?s))"
    by (simp add: bit_of_le16) (simp add: LowStateMessageHandler_def sample_rc_def gamepad_init_def button_init_def)
  then obtain s where "StartControl [sample_msg 0x10 0] (sample_rc (sample_msg 0 0)) = Some s"
    by (simp add: StartControl_def Let_def)
  moreover have "list_all wf_LowState [sample_msg 0x10 0]" by (simp add: sample_msg_wf)
  ultimately show ?thesis unfolding rc_initial_def using sample_constructed [of 0 0] by blast
qed


end
