(* ===== verification/BlockQueue.thy ===== *)
theory BlockQueue
  imports Prelude "HOL-Library.Multiset"
begin

text \<open>
  The bounded blocking queue of \<open>unitree/common/block_queue.hpp\<close>. First the operations as they act
  on the queue while its lock is held, with the contract of a bounded FIFO queue; then the threads
  that block in \<open>Get\<close>, as a step relation over the waiting and woken threads of the condition
  variable, with the order, capacity and wake-up properties over all interleavings.
\<close>

section \<open>Operations under the lock\<close>

record 'a BlockQueue =
  mMaxSize :: u64
  mCurSize :: u64
  mQueue :: "'a list"

definition UT_QUEUE_MAX_LEN :: u64 where
  "UT_QUEUE_MAX_LEN = 2147483647"

definition BlockQueue_new :: "u64 \<Rightarrow> 'a BlockQueue" where
  "BlockQueue_new maxSize =
     \<lparr>mMaxSize = (if maxSize = 0 then UT_QUEUE_MAX_LEN else maxSize), mCurSize = 0, mQueue = []\<rparr>"

definition Put :: "'a \<Rightarrow> bool \<Rightarrow> bool \<Rightarrow> 'a BlockQueue \<Rightarrow> bool \<times> 'a BlockQueue" where
  "Put t replace putfront q =
     (if mCurSize q \<ge> mMaxSize q \<and> \<not> replace then (False, q)
      else
        (let noneReplaced = \<not> mCurSize q \<ge> mMaxSize q;
             q = (if noneReplaced then q else q\<lparr>mQueue := tl (mQueue q), mCurSize := mCurSize q - 1\<rparr>);
             q = (if putfront then q\<lparr>mQueue := t # mQueue q\<rparr> else q\<lparr>mQueue := mQueue q @ [t]\<rparr>)
         in (noneReplaced, q\<lparr>mCurSize := mCurSize q + 1\<rparr>)))"

text \<open>The end of \<open>GetTimeout\<close>: take the front element.\<close>

definition take_front :: "'a BlockQueue \<Rightarrow> 'a option \<times> 'a BlockQueue" where
  "take_front q = (case mQueue q of
     [] \<Rightarrow> (None, q)
   | x # xs \<Rightarrow> (Some x, q\<lparr>mQueue := xs, mCurSize := mCurSize q - 1\<rparr>))"

text \<open>
  \<open>wait\<close> is the condition variable: it releases the lock and returns whether it was notified,
  together with the queue the other threads left behind.
\<close>

definition GetTimeout :: "('a BlockQueue \<Rightarrow> bool \<times> 'a BlockQueue) \<Rightarrow> 'a BlockQueue \<Rightarrow> 'a option \<times> 'a BlockQueue" where
  "GetTimeout wait q =
     (if mQueue q = [] then
        (case wait q of (notified, q) \<Rightarrow>
           if \<not> notified then (None, q)
           else if mQueue q = [] then (None, q)
           else take_front q)
      else take_front q)"

datatype queue_error = TimeoutException

definition Get_or_throw :: "('a BlockQueue \<Rightarrow> bool \<times> 'a BlockQueue) \<Rightarrow> 'a BlockQueue \<Rightarrow> (queue_error + 'a) \<times> 'a BlockQueue" where
  "Get_or_throw wait q = (case GetTimeout wait q of
     (Some t, q) \<Rightarrow> (Inr t, q)
   | (None, q) \<Rightarrow> (Inl TimeoutException, q))"

definition Empty :: "'a BlockQueue \<Rightarrow> bool" where
  "Empty q \<longleftrightarrow> mCurSize q = 0"

definition Size :: "'a BlockQueue \<Rightarrow> u64" where
  "Size q = mCurSize q"

section \<open>Invariant and contract\<close>

definition bq_inv :: "'a BlockQueue \<Rightarrow> bool" where
  "bq_inv q \<longleftrightarrow> unat (mCurSize q) = length (mQueue q) \<and> mCurSize q \<le> mMaxSize q \<and> 0 < mMaxSize q"

lemma bq_inv_new: "bq_inv (BlockQueue_new n)"
  by (simp add: bq_inv_def BlockQueue_new_def UT_QUEUE_MAX_LEN_def word_greater_zero_iff)

lemma bq_nonempty: "bq_inv q \<Longrightarrow> mMaxSize q \<le> mCurSize q \<Longrightarrow> mQueue q \<noteq> []"
  by (auto simp: bq_inv_def unat_eq_0)

lemma Put_cases:
  assumes inv: "bq_inv q"
  shows "Put t replace putfront q =
    (let add = (\<lambda>xs. if putfront then t # xs else xs @ [t]) in
     if length (mQueue q) < unat (mMaxSize q)
     then (True, q\<lparr>mQueue := add (mQueue q), mCurSize := mCurSize q + 1\<rparr>)
     else if replace then (False, q\<lparr>mQueue := add (tl (mQueue q)), mCurSize := mCurSize q\<rparr>)
     else (False, q))"
proof -
  have "mMaxSize q \<le> mCurSize q \<longleftrightarrow> \<not> length (mQueue q) < unat (mMaxSize q)"
    using inv by (simp add: bq_inv_def word_le_nat_alt not_less)
  then show ?thesis by (simp add: Put_def Let_def)
qed

lemma bq_inv_Put: "bq_inv q \<Longrightarrow> bq_inv (snd (Put t replace putfront q))"
proof -
  assume inv: "bq_inv q"
  show ?thesis
  proof (cases "length (mQueue q) < unat (mMaxSize q)")
    case True
    then have "mCurSize q < mMaxSize q" using inv by (simp add: bq_inv_def word_less_nat_alt)
    with True inv show ?thesis
      by (simp add: Put_cases [OF inv] Let_def bq_inv_def unat_inc word_le_nat_alt)
  next
    case False
    then have "mQueue q \<noteq> []" using inv by (auto simp: bq_inv_def word_less_nat_alt)
    with False inv show ?thesis
      by (cases "mQueue q") (auto simp: Put_cases [OF inv] Let_def bq_inv_def)
  qed
qed

lemma bq_inv_take_front: "bq_inv q \<Longrightarrow> bq_inv (snd (take_front q))"
proof (cases "mQueue q")
  case (Cons x xs)
  assume inv: "bq_inv q"
  then have "0 < mCurSize q" using Cons by (simp add: bq_inv_def word_less_nat_alt)
  with inv Cons show ?thesis
    by (simp add: take_front_def bq_inv_def unat_dec word_le_nat_alt)
qed (simp add: take_front_def)

lemma GetTimeout_nowait: "mQueue q \<noteq> [] \<Longrightarrow> GetTimeout wait q = take_front q"
  by (simp add: GetTimeout_def)

lemma GetTimeout_wait:
  "mQueue q = [] \<Longrightarrow> GetTimeout wait q = (if fst (wait q) then take_front (snd (wait q)) else (None, snd (wait q)))"
  by (auto simp: GetTimeout_def take_front_def split: prod.splits list.splits)

text \<open>
  The contract of a bounded first-in first-out queue, over the contents and the capacity.
\<close>

datatype 'a queue_op = QPut 'a | QGet

locale bounded_fifo =
  fixes inv :: "'q \<Rightarrow> bool" and contents :: "'q \<Rightarrow> 'a list" and cap :: "'q \<Rightarrow> nat"
    and put :: "'a \<Rightarrow> 'q \<Rightarrow> bool \<times> 'q" and get :: "'q \<Rightarrow> 'a option \<times> 'q"
  assumes put_inv: "inv q \<Longrightarrow> inv (snd (put x q))"
    and get_inv: "inv q \<Longrightarrow> inv (snd (get q))"
    and bounded: "inv q \<Longrightarrow> length (contents q) \<le> cap q"
    and put_ok: "inv q \<Longrightarrow> fst (put x q) \<longleftrightarrow> length (contents q) < cap q"
    and put_contents: "inv q \<Longrightarrow> contents (snd (put x q)) = contents q @ (if fst (put x q) then [x] else [])"
    and get_contents: "inv q \<Longrightarrow> contents q = (case fst (get q) of None \<Rightarrow> [] | Some x \<Rightarrow> x # contents (snd (get q)))"
    and get_none: "inv q \<Longrightarrow> fst (get q) = None \<Longrightarrow> contents (snd (get q)) = []"
    and cap_kept: "inv q \<Longrightarrow> cap (snd (put x q)) = cap q" "inv q \<Longrightarrow> cap (snd (get q)) = cap q"
begin

fun exec :: "'a queue_op list \<Rightarrow> 'q \<Rightarrow> 'a list \<times> 'a list \<times> 'q" where
  "exec [] q = ([], [], q)"
| "exec (QPut x # ops) q = (case put x q of (ok, q) \<Rightarrow> case exec ops q of
     (ins, outs, q) \<Rightarrow> (if ok then x # ins else ins, outs, q))"
| "exec (QGet # ops) q = (case get q of (r, q) \<Rightarrow> case exec ops q of
     (ins, outs, q) \<Rightarrow> (ins, (case r of None \<Rightarrow> [] | Some x \<Rightarrow> [x]) @ outs, q))"

lemma exec_fifo:
  assumes "inv q" and "exec ops q = (ins, outs, q')"
  shows "outs @ contents q' = contents q @ ins \<and> inv q' \<and> cap q' = cap q"
  using assms
proof (induction ops arbitrary: q ins outs)
  case (Cons op ops)
  show ?case
  proof (cases op)
    case (QPut x)
    obtain ok q1 where p: "put x q = (ok, q1)" by force
    obtain ins1 outs1 where e: "exec ops q1 = (ins1, outs1, q')" and
      io: "ins = (if ok then x # ins1 else ins1)" "outs = outs1"
      using Cons.prems(2) QPut p by (auto split: prod.splits)
    have "inv q1" using put_inv [OF Cons.prems(1), of x] p by simp
    from Cons.IH [OF this e] show ?thesis
      using put_contents [OF Cons.prems(1), of x] cap_kept(1) [OF Cons.prems(1), of x] p io by auto
  next
    case QGet
    obtain r q1 where g: "get q = (r, q1)" by force
    obtain ins1 outs1 where e: "exec ops q1 = (ins1, outs1, q')" and
      io: "ins = ins1" "outs = (case r of None \<Rightarrow> [] | Some x \<Rightarrow> [x]) @ outs1"
      using Cons.prems(2) QGet g by (auto split: prod.splits)
    have "inv q1" using get_inv [OF Cons.prems(1)] g by simp
    from Cons.IH [OF this e] show ?thesis
      using get_contents [OF Cons.prems(1)] get_none [OF Cons.prems(1)] cap_kept(2) [OF Cons.prems(1)] g io
      by (auto split: option.splits)
  qed
qed auto

end

interpretation bq: bounded_fifo bq_inv mQueue "\<lambda>q. unat (mMaxSize q)" "\<lambda>x. Put x False False" take_front
proof
  fix q :: "'a BlockQueue" and x :: 'a
  assume inv: "bq_inv q"
  show "bq_inv (snd (Put x False False q))" by (rule bq_inv_Put [OF inv])
  show "bq_inv (snd (take_front q))" by (rule bq_inv_take_front [OF inv])
  show "length (mQueue q) \<le> unat (mMaxSize q)" using inv by (simp add: bq_inv_def word_le_nat_alt)
  show "fst (Put x False False q) \<longleftrightarrow> length (mQueue q) < unat (mMaxSize q)"
    and "mQueue (snd (Put x False False q)) = mQueue q @ (if fst (Put x False False q) then [x] else [])"
    and "unat (mMaxSize (snd (Put x False False q))) = unat (mMaxSize q)"
    by (simp_all add: Put_cases [OF inv] Let_def)
  show "mQueue q = (case fst (take_front q) of None \<Rightarrow> [] | Some x \<Rightarrow> x # mQueue (snd (take_front q)))"
    and "fst (take_front q) = None \<Longrightarrow> mQueue (snd (take_front q)) = []"
    and "unat (mMaxSize (snd (take_front q))) = unat (mMaxSize q)"
    by (auto simp: take_front_def split: list.splits)
qed

section \<open>Threads blocked on the queue\<close>

text \<open>
  Every operation holds the lock except while it waits, so an operation is one step, or two steps
  around the wait of a \<open>Get\<close>. \<open>bs_waiting\<close> are the threads inside \<open>Wait\<close> that were not notified,
  \<open>bs_woken\<close> those that were and have not yet reacquired the lock. The remaining components record
  what was put, what left the queue (and whether a \<open>Get\<close> took it) and what each \<open>Get\<close> returned.
\<close>

record 'a bq_sys =
  bs_queue :: "'a BlockQueue"
  bs_waiting :: "nat list"
  bs_woken :: "nat list"
  bs_accepted :: "'a list"
  bs_removed :: "('a \<times> bool) list"
  bs_results :: "(nat \<times> 'a option) list"

definition bq_start :: "u64 \<Rightarrow> 'a bq_sys" where
  "bq_start n = \<lparr>bs_queue = BlockQueue_new n, bs_waiting = [], bs_woken = [], bs_accepted = [],
     bs_removed = [], bs_results = []\<rparr>"

datatype 'a event = EPut 'a bool bool | EGet nat | ETimeout nat | EResume nat | ESpurious nat | EInterrupt bool

text \<open>\<open>Notify\<close> moves one waiting thread, if there is one.\<close>

inductive notify :: "'a bq_sys \<Rightarrow> 'a bq_sys \<Rightarrow> bool" where
  notify_none: "bs_waiting s = [] \<Longrightarrow> notify s s"
| notify_one: "t \<in> set (bs_waiting s) \<Longrightarrow>
    notify s (s\<lparr>bs_waiting := remove1 t (bs_waiting s), bs_woken := t # bs_woken s\<rparr>)"

text \<open>The effect of one lock-protected take by thread \<open>t\<close>.\<close>

definition take_by :: "nat \<Rightarrow> 'a bq_sys \<Rightarrow> 'a bq_sys" where
  "take_by t s = (case take_front (bs_queue s) of (r, q) \<Rightarrow>
     s\<lparr>bs_queue := q, bs_results := bs_results s @ [(t, r)],
       bs_removed := bs_removed s @ (case r of None \<Rightarrow> [] | Some x \<Rightarrow> [(x, True)])\<rparr>)"

definition put_by :: "'a \<Rightarrow> bool \<Rightarrow> bool \<Rightarrow> 'a bq_sys \<Rightarrow> 'a bq_sys" where
  "put_by x replace putfront s = (case Put x replace putfront (bs_queue s) of (ok, q) \<Rightarrow>
     s\<lparr>bs_queue := q, bs_accepted := bs_accepted s @ [x],
       bs_removed := bs_removed s @ (if ok then [] else [(hd (mQueue (bs_queue s)), False)])\<rparr>)"

inductive bq_step :: "'a bq_sys \<Rightarrow> 'a event \<Rightarrow> 'a bq_sys \<Rightarrow> bool" where
  put_rejected: "\<not> fst (Put x replace putfront (bs_queue s)) \<Longrightarrow> \<not> replace \<Longrightarrow> bq_step s (EPut x replace putfront) s"
| put_stored: "fst (Put x replace putfront (bs_queue s)) \<or> replace \<Longrightarrow> notify (put_by x replace putfront s) s' \<Longrightarrow>
    bq_step s (EPut x replace putfront) s'"
| get_now: "t \<notin> set (bs_waiting s) \<union> set (bs_woken s) \<Longrightarrow> mQueue (bs_queue s) \<noteq> [] \<Longrightarrow> bq_step s (EGet t) (take_by t s)"
| get_wait: "t \<notin> set (bs_waiting s) \<union> set (bs_woken s) \<Longrightarrow> mQueue (bs_queue s) = [] \<Longrightarrow>
    bq_step s (EGet t) (s\<lparr>bs_waiting := t # bs_waiting s\<rparr>)"
| timeout: "t \<in> set (bs_waiting s) \<Longrightarrow>
    bq_step s (ETimeout t) (s\<lparr>bs_waiting := remove1 t (bs_waiting s), bs_results := bs_results s @ [(t, None)]\<rparr>)"
| resume: "t \<in> set (bs_woken s) \<Longrightarrow> bq_step s (EResume t) (take_by t (s\<lparr>bs_woken := remove1 t (bs_woken s)\<rparr>))"
| spurious: "t \<in> set (bs_waiting s) \<Longrightarrow>
    bq_step s (ESpurious t) (s\<lparr>bs_waiting := remove1 t (bs_waiting s), bs_woken := t # bs_woken s\<rparr>)"
| interrupt_one: "notify s s' \<Longrightarrow> bq_step s (EInterrupt False) s'"
| interrupt_all: "bq_step s (EInterrupt True) (s\<lparr>bs_waiting := [], bs_woken := bs_waiting s @ bs_woken s\<rparr>)"

inductive bq_run :: "'a bq_sys \<Rightarrow> 'a event list \<Rightarrow> 'a bq_sys \<Rightarrow> bool" where
  run_nil: "bq_run s [] s"
| run_snoc: "bq_run s es t \<Longrightarrow> bq_step t e u \<Longrightarrow> bq_run s (es @ [e]) u"

fun back_put :: "'a event \<Rightarrow> bool" where
  "back_put (EPut x replace putfront) = (\<not> putfront)"
| "back_put _ = True"

definition got_of :: "(nat \<times> 'a option) list \<Rightarrow> 'a list" where
  "got_of rs = concat (map (\<lambda>(t, r). case r of None \<Rightarrow> [] | Some x \<Rightarrow> [x]) rs)"

definition bs_inv :: "'a bq_sys \<Rightarrow> bool" where
  "bs_inv s \<longleftrightarrow> bq_inv (bs_queue s) \<and>
     (bs_waiting s \<noteq> [] \<longrightarrow> length (mQueue (bs_queue s)) \<le> length (bs_woken s)) \<and>
     mset (bs_accepted s) = mset (map fst (bs_removed s)) + mset (mQueue (bs_queue s)) \<and>
     got_of (bs_results s) = map fst (filter snd (bs_removed s))"

definition bs_order :: "'a bq_sys \<Rightarrow> bool" where
  "bs_order s \<longleftrightarrow> map fst (bs_removed s) @ mQueue (bs_queue s) = bs_accepted s"

lemma mQueue_new [simp]: "mQueue (BlockQueue_new n) = []"
  by (simp add: BlockQueue_new_def)

lemma bs_inv_start: "bs_inv (bq_start n)" "bs_order (bq_start n)"
  by (simp_all add: bs_inv_def bs_order_def bq_start_def bq_inv_new got_of_def)

text \<open>Notification keeps everything but the two thread lists.\<close>

lemma notify_frame:
  assumes "notify s s'"
  shows "bs_queue s' = bs_queue s" and "bs_accepted s' = bs_accepted s" and "bs_removed s' = bs_removed s"
    and "bs_results s' = bs_results s" and "length (bs_woken s) \<le> length (bs_woken s')"
    and "bs_waiting s \<noteq> [] \<Longrightarrow> length (bs_woken s') = Suc (length (bs_woken s))"
    and "bs_waiting s' \<noteq> [] \<Longrightarrow> bs_waiting s \<noteq> []"
  using assms by (auto elim!: notify.cases)

lemma take_by_waiting [simp]: "bs_waiting (take_by t s) = bs_waiting s" "bs_woken (take_by t s) = bs_woken s"
  by (simp_all add: take_by_def split_beta)

lemma take_by_queue: "mQueue (bs_queue (take_by t s)) = tl (mQueue (bs_queue s))"
  by (simp add: take_by_def take_front_def split: list.splits)

lemma bs_inv_take:
  assumes "bq_inv (bs_queue s)"
    and "mset (bs_accepted s) = mset (map fst (bs_removed s)) + mset (mQueue (bs_queue s))"
    and "got_of (bs_results s) = map fst (filter snd (bs_removed s))"
    and "bs_waiting s \<noteq> [] \<Longrightarrow> length (mQueue (bs_queue s)) \<le> Suc (length (bs_woken s))"
  shows "bs_inv (take_by t s)"
proof -
  have "bq_inv (bs_queue (take_by t s))"
    using bq_inv_take_front [OF assms(1)] by (simp add: take_by_def split_beta)
  moreover have "got_of (rs @ [(t, r)]) = got_of rs @ (case r of None \<Rightarrow> [] | Some x \<Rightarrow> [x])" for rs t and r :: "'a option"
    by (simp add: got_of_def)
  ultimately show ?thesis
    using assms by (auto simp: bs_inv_def take_by_queue)
      (auto simp: take_by_def take_front_def split: list.splits)
qed

lemma bs_order_take: "bs_order s \<Longrightarrow> bs_order (take_by t s)"
  by (cases "mQueue (bs_queue s)") (auto simp: bs_order_def take_by_def take_front_def)

lemma put_by_frame [simp]:
  "bs_waiting (put_by x r f s) = bs_waiting s" "bs_woken (put_by x r f s) = bs_woken s"
  "bs_results (put_by x r f s) = bs_results s"
  by (simp_all add: put_by_def split_beta)

lemma put_by_cases:
  assumes "bq_inv (bs_queue s)" and "fst (Put x replace putfront (bs_queue s)) \<or> replace"
  defines "q \<equiv> mQueue (bs_queue s)" and "add \<equiv> (\<lambda>xs. if putfront then x # xs else xs @ [x])"
  obtains (stored) "mQueue (bs_queue (put_by x replace putfront s)) = add q"
      and "bs_removed (put_by x replace putfront s) = bs_removed s"
  | (replaced) "q \<noteq> []" and "mQueue (bs_queue (put_by x replace putfront s)) = add (tl q)"
      and "bs_removed (put_by x replace putfront s) = bs_removed s @ [(hd q, False)]"
proof (cases "length (mQueue (bs_queue s)) < unat (mMaxSize (bs_queue s))")
  case True
  then show ?thesis using stored by (simp add: put_by_def Put_cases [OF assms(1)] Let_def q_def add_def)
next
  case False
  then have r: "replace" using assms(2) by (auto simp: Put_cases [OF assms(1)] Let_def split: if_splits)
  have "q \<noteq> []"
    using False assms(1) by (auto simp: q_def bq_inv_def word_less_nat_alt)
  with False r show ?thesis
    using replaced by (simp add: put_by_def Put_cases [OF assms(1)] Let_def q_def add_def)
qed

lemma bs_inv_put:
  assumes inv: "bs_inv s" and ok: "fst (Put x replace putfront (bs_queue s)) \<or> replace"
    and "notify (put_by x replace putfront s) s'"
  shows "bs_inv s'"
proof -
  let ?p = "put_by x replace putfront s"
  note n = notify_frame [OF assms(3)]
  have q: "bq_inv (bs_queue s)" using inv by (simp add: bs_inv_def)
  have "bq_inv (bs_queue ?p)"
    using bq_inv_Put [OF q] by (simp add: put_by_def split_beta)
  moreover have acc: "bs_accepted ?p = bs_accepted s @ [x]" by (simp add: put_by_def split_beta)
  have "mset (bs_accepted ?p) = mset (map fst (bs_removed ?p)) + mset (mQueue (bs_queue ?p)) \<and>
      length (mQueue (bs_queue ?p)) \<le> Suc (length (mQueue (bs_queue s))) \<and>
      filter snd (bs_removed ?p) = filter snd (bs_removed s)"
  proof (cases rule: put_by_cases [OF q ok])
    case 1
    then show ?thesis using inv by (simp add: acc bs_inv_def)
  next
    case 2
    then show ?thesis using inv by (cases "mQueue (bs_queue s)") (simp_all add: acc bs_inv_def)
  qed
  ultimately show ?thesis
    using inv n by (auto simp: bs_inv_def)
qed

lemma bs_inv_step: "bq_step s e s' \<Longrightarrow> bs_inv s \<Longrightarrow> bs_inv s'"
proof (induction rule: bq_step.induct)
  case (put_stored x replace putfront s s')
  then show ?case by (blast intro: bs_inv_put)
next
  case (get_now t s)
  then show ?case by (intro bs_inv_take) (auto simp: bs_inv_def)
next
  case (resume t s)
  have "length (bs_woken s) = Suc (length (remove1 t (bs_woken s)))"
    using resume length_pos_if_in_set [of t "bs_woken s"] by (simp add: length_remove1)
  with resume show ?case by (intro bs_inv_take) (auto simp: bs_inv_def)
next
  case (timeout t s)
  then show ?case by (auto simp: bs_inv_def got_of_def)
next
  case (interrupt_one s s')
  then show ?case using notify_frame [OF interrupt_one(1)] by (auto simp: bs_inv_def)
qed (auto simp: bs_inv_def)

lemma bs_order_step:
  assumes "bq_step s e s'" and "bs_inv s" and "bs_order s" and "back_put e"
  shows "bs_order s'"
  using assms
proof (induction rule: bq_step.induct)
  case (put_stored x replace putfront s s')
  have q: "bq_inv (bs_queue s)" using put_stored by (simp add: bs_inv_def)
  have "bs_accepted (put_by x replace putfront s) = bs_accepted s @ [x]" by (simp add: put_by_def split_beta)
  with put_stored notify_frame [OF put_stored(2)] show ?case
    by (cases rule: put_by_cases [OF q put_stored(1)]) (auto simp: bs_order_def)
next
  case (interrupt_one s s')
  then show ?case using notify_frame [OF interrupt_one(1)] by (simp add: bs_order_def)
next
  case (resume t s)
  then show ?case by (intro bs_order_take) (simp add: bs_order_def)
qed (simp_all add: bs_order_take, simp_all add: bs_order_def)

lemma bs_inv_run: "bq_run s es s' \<Longrightarrow> bs_inv s \<Longrightarrow> bs_inv s'"
  by (induction rule: bq_run.induct) (auto intro: bs_inv_step)

lemma bs_order_run: "bq_run s es s' \<Longrightarrow> bs_inv s \<Longrightarrow> bs_order s \<Longrightarrow> list_all back_put es \<Longrightarrow> bs_order s'"
  by (induction rule: bq_run.induct) (auto intro: bs_order_step bs_inv_run)

section \<open>What the queue guarantees\<close>

text \<open>C21: The queue used by one thread is a bounded FIFO queue: for every sequence of puts and
  gets, what was taken followed by what is still stored is exactly what was accepted, in order; the
  size counter is the number of stored elements and never exceeds the capacity.\<close>

theorem queue_is_bounded_fifo:
  assumes "bq.exec ops (BlockQueue_new n) = (ins, outs, q)"
  shows "outs @ mQueue q = ins \<and> unat (Size q) = length (mQueue q) \<and> length (mQueue q) \<le> unat (mMaxSize q) \<and>
    (Empty q \<longleftrightarrow> mQueue q = [])"
proof -
  have "outs @ mQueue q = ins" and inv: "bq_inv q"
    using bq.exec_fifo [OF bq_inv_new assms] by simp_all
  moreover have "length (mQueue q) \<le> unat (mMaxSize q)" by (rule bq.bounded [OF inv])
  moreover have "Empty q \<longleftrightarrow> mQueue q = []"
    using inv unfolding bq_inv_def Empty_def by (metis length_0_conv unat_eq_0)
  ultimately show ?thesis using inv by (simp add: bq_inv_def Size_def)
qed

theorem queue_is_bounded_fifo_witness:
  "\<exists>ins outs q. bq.exec [QPut (1::nat), QPut 2, QGet] (BlockQueue_new 1) = (ins, outs, q) \<and> outs @ mQueue q = ins"
proof -
  obtain ins outs q where e: "bq.exec [QPut (1::nat), QPut 2, QGet] (BlockQueue_new 1) = (ins, outs, q)"
    by (rule prod_cases3)
  with queue_is_bounded_fifo [OF e] show ?thesis by blast
qed

text \<open>A run in which thread 2 takes the element that thread 1 was woken for.\<close>

fun undisturbed :: "'a event \<Rightarrow> bool" where
  "undisturbed (ETimeout t) = False"
| "undisturbed (ESpurious t) = False"
| "undisturbed (EInterrupt a) = False"
| "undisturbed _ = True"

lemma get_wait_first: "bq_step (bq_start n) (EGet t) ((bq_start n)\<lparr>bs_waiting := [t]\<rparr>)"
  using bq_step.get_wait [of t "bq_start n"] by (simp add: bq_start_def)

lemma stolen_run:
  obtains s where "bq_run (bq_start 1 :: nat bq_sys) [EGet 1, EPut 7 False False, EGet 2, EResume 1] s"
    and "bs_results s = [(2, Some 7), (1, None)]"
proof -
  define s0 where "s0 = (bq_start 1 :: nat bq_sys)"
  define s1 where "s1 = s0\<lparr>bs_waiting := [1]\<rparr>"
  define p where "p = put_by 7 False False s1"
  define s2 where "s2 = p\<lparr>bs_waiting := [], bs_woken := [1]\<rparr>"
  define s3 where "s3 = take_by 2 s2"
  define s4 where "s4 = take_by 1 (s3\<lparr>bs_woken := []\<rparr>)"
  have put: "fst (Put 7 False False (bs_queue s1))"
    by (simp add: s1_def s0_def bq_start_def BlockQueue_new_def Put_def)
  have p: "mQueue (bs_queue p) = [7]" "bs_results p = []" "bs_waiting p = [1]" "bs_woken p = []"
    by (simp_all add: p_def put_by_def s1_def s0_def bq_start_def BlockQueue_new_def Put_def)
  have 1: "bq_step s0 (EGet 1) s1" unfolding s1_def s0_def by (rule get_wait_first)
  have "notify p s2" unfolding s2_def using notify_one [of 1 p] p by simp
  then have 2: "bq_step s1 (EPut 7 False False) s2"
    unfolding p_def by (rule put_stored [rotated]) (use put in simp)
  have s2: "mQueue (bs_queue s2) = [7]" "bs_results s2 = []" "bs_waiting s2 = []" "bs_woken s2 = [1]"
    by (simp_all add: s2_def p)
  have 3: "bq_step s2 (EGet 2) s3" unfolding s3_def by (rule get_now) (simp_all add: s2)
  have s3: "mQueue (bs_queue s3) = []" "bs_results s3 = [(2, Some 7)]" "bs_woken s3 = [1]"
    by (simp_all add: s3_def take_by_def take_front_def s2)
  have 4: "bq_step s3 (EResume 1) s4"
    using bq_step.resume [of 1 s3] s3(3) unfolding s4_def by simp
  have "bq_run s0 ([] @ [EGet 1]) s1" by (rule run_snoc [OF run_nil 1])
  then have "bq_run s0 [EGet 1, EPut 7 False False] s2" using run_snoc [OF _ 2] by fastforce
  then have "bq_run s0 [EGet 1, EPut 7 False False, EGet 2] s3" using run_snoc [OF _ 3] by fastforce
  then have "bq_run (bq_start 1) [EGet 1, EPut 7 False False, EGet 2, EResume 1] s4"
    using run_snoc [OF _ 4] unfolding s0_def by fastforce
  moreover have "bs_results s4 = [(2, Some 7), (1, None)]"
    by (simp add: s4_def take_by_def take_front_def s3)
  ultimately show thesis by (rule that)
qed

text \<open>C5: Over all interleavings of producers and consumers, with timeouts, interruptions and
  spurious wake-ups: nothing is lost or duplicated, the values returned by the gets are those
  removed by them in order, and if elements are put at the back only then elements leave in the
  order in which they were put, whether they are taken or replaced.\<close>

theorem queue_order_all_interleavings:
  assumes "bq_run (bq_start n) es s"
  shows "mset (bs_accepted s) = mset (map fst (bs_removed s)) + mset (mQueue (bs_queue s)) \<and>
    got_of (bs_results s) = map fst (filter snd (bs_removed s)) \<and>
    (list_all back_put es \<longrightarrow> map fst (bs_removed s) @ mQueue (bs_queue s) = bs_accepted s)"
  using bs_inv_run [OF assms bs_inv_start(1)] bs_order_run [OF assms bs_inv_start]
  by (simp add: bs_inv_def bs_order_def)

theorem queue_order_all_interleavings_witness:
  "\<exists>es s. bq_run (bq_start 1 :: nat bq_sys) es s \<and> got_of (bs_results s) = [7] \<and>
     mset (bs_accepted s) = mset (map fst (bs_removed s)) + mset (mQueue (bs_queue s))"
proof -
  obtain s where s: "bq_run (bq_start 1 :: nat bq_sys) [EGet 1, EPut 7 False False, EGet 2, EResume 1] s"
    and "bs_results s = [(2, Some 7), (1, None)]"
    by (rule stolen_run)
  then show ?thesis
    using queue_order_all_interleavings [OF s]
    by (intro exI [of _ "[EGet 1, EPut 7 False False, EGet 2, EResume 1]"] exI [of _ s]) (simp add: got_of_def)
qed



text \<open>C40: A \<open>Get\<close> that waits may return nothing although it was notified by a \<open>Put\<close>, no time-out
  expired and nobody interrupted it: another consumer can take the element before the woken thread
  reacquires the lock, and the wait is not repeated.\<close>

theorem queue_stolen_wakeup:
  "\<exists>es s. bq_run (bq_start 1 :: nat bq_sys) es s \<and> list_all undisturbed es \<and> (1, None) \<in> set (bs_results s)"
proof -
  obtain s where "bq_run (bq_start 1 :: nat bq_sys) [EGet 1, EPut 7 False False, EGet 2, EResume 1] s"
    and "bs_results s = [(2, Some 7), (1, None)]"
    by (rule stolen_run)
  then show ?thesis
    by (intro exI [of _ "[EGet 1, EPut 7 False False, EGet 2, EResume 1]"] exI [of _ s]) simp
qed

end
