(* ===== verification/Any.thy ===== *)
theory Any
  imports Floats "HOL-Library.AList"
begin

text \<open>
  The type-erased value of \<open>unitree/common/any.hpp\<close> with its predicates and casts, and the JSON
  containers built on it (\<open>unitree/common/json/json.hpp\<close>). A value carries the run-time type that the
  source reads with \<open>typeid\<close>; integers are kept at their width.
\<close>

section \<open>Values\<close>

datatype any =
    AEmpty
  | ABool bool
  | AInt8 "8 word" | AUint8 u8 | AInt16 "16 word" | AUint16 u16
  | AInt "32 word" | AUint u32 | AInt64 "64 word" | AUint64 u64
  | AFloat real | ADouble real | ALongDouble real
  | AString string
  | AArray "any list"
  | AMap "(string \<times> any) list"

type_synonym JsonArray = "any list"
type_synonym JsonMap = "(string \<times> any) list"

datatype ty = TVoid | TBool | TInt8 | TUint8 | TInt16 | TUint16 | TInt | TUint | TInt64 | TUint64
  | TFloat | TDouble | TLongDouble | TString | TArray | TMap

fun GetTypeInfo :: "any \<Rightarrow> ty" where
  "GetTypeInfo AEmpty = TVoid"
| "GetTypeInfo (ABool _) = TBool"
| "GetTypeInfo (AInt8 _) = TInt8"
| "GetTypeInfo (AUint8 _) = TUint8"
| "GetTypeInfo (AInt16 _) = TInt16"
| "GetTypeInfo (AUint16 _) = TUint16"
| "GetTypeInfo (AInt _) = TInt"
| "GetTypeInfo (AUint _) = TUint"
| "GetTypeInfo (AInt64 _) = TInt64"
| "GetTypeInfo (AUint64 _) = TUint64"
| "GetTypeInfo (AFloat _) = TFloat"
| "GetTypeInfo (ADouble _) = TDouble"
| "GetTypeInfo (ALongDouble _) = TLongDouble"
| "GetTypeInfo (AString _) = TString"
| "GetTypeInfo (AArray _) = TArray"
| "GetTypeInfo (AMap _) = TMap"

definition Empty_any :: "any \<Rightarrow> bool" where
  "Empty_any a \<longleftrightarrow> a = AEmpty"

text \<open>Assignment goes through a temporary that is swapped with the target.\<close>

definition Swap :: "any \<times> any \<Rightarrow> any \<times> any" where
  "Swap p = (snd p, fst p)"

definition assign :: "any \<Rightarrow> any \<Rightarrow> any" where
  "assign target other = snd (Swap (other, target))"

section \<open>Predicates\<close>

definition IsBool :: "any \<Rightarrow> bool" where "IsBool a \<longleftrightarrow> GetTypeInfo a = TBool"
definition IsString :: "any \<Rightarrow> bool" where "IsString a \<longleftrightarrow> GetTypeInfo a = TString"
definition IsInt8 :: "any \<Rightarrow> bool" where "IsInt8 a \<longleftrightarrow> GetTypeInfo a = TInt8"
definition IsUint8 :: "any \<Rightarrow> bool" where "IsUint8 a \<longleftrightarrow> GetTypeInfo a = TUint8"
definition IsInt16 :: "any \<Rightarrow> bool" where "IsInt16 a \<longleftrightarrow> GetTypeInfo a = TInt16"
definition IsUint16 :: "any \<Rightarrow> bool" where "IsUint16 a \<longleftrightarrow> GetTypeInfo a = TUint16"
definition IsInt :: "any \<Rightarrow> bool" where "IsInt a \<longleftrightarrow> GetTypeInfo a = TInt"
definition IsUint :: "any \<Rightarrow> bool" where "IsUint a \<longleftrightarrow> GetTypeInfo a = TUint"
definition IsInt64 :: "any \<Rightarrow> bool" where "IsInt64 a \<longleftrightarrow> GetTypeInfo a = TInt64"
definition IsUint64 :: "any \<Rightarrow> bool" where "IsUint64 a \<longleftrightarrow> GetTypeInfo a = TUint64"
definition IsFloat :: "any \<Rightarrow> bool" where "IsFloat a \<longleftrightarrow> GetTypeInfo a = TFloat"
definition IsDouble :: "any \<Rightarrow> bool" where "IsDouble a \<longleftrightarrow> GetTypeInfo a = TDouble"
definition IsLongDouble :: "any \<Rightarrow> bool" where "IsLongDouble a \<longleftrightarrow> GetTypeInfo a = TLongDouble"

definition IsInteger :: "any \<Rightarrow> bool" where
  "IsInteger a \<longleftrightarrow> IsInt a \<or> IsUint a \<or> IsInt64 a \<or> IsUint64 a \<or> IsInt16 a \<or> IsUint16 a \<or> IsInt8 a \<or> IsUint8 a"

definition IsNumber :: "any \<Rightarrow> bool" where
  "IsNumber a \<longleftrightarrow> IsBool a \<or> IsInteger a \<or> IsFloat a \<or> IsDouble a \<or> IsLongDouble a"

definition IsBoolType :: "ty \<Rightarrow> bool" where "IsBoolType t \<longleftrightarrow> t = TBool"
definition IsInt8Type :: "ty \<Rightarrow> bool" where "IsInt8Type t \<longleftrightarrow> t = TInt8"
definition IsUint8Type :: "ty \<Rightarrow> bool" where "IsUint8Type t \<longleftrightarrow> t = TUint8"
definition IsInt16Type :: "ty \<Rightarrow> bool" where "IsInt16Type t \<longleftrightarrow> t = TInt16"
definition IsUint16Type :: "ty \<Rightarrow> bool" where "IsUint16Type t \<longleftrightarrow> t = TUint16"
definition IsIntType :: "ty \<Rightarrow> bool" where "IsIntType t \<longleftrightarrow> t = TInt"
definition IsUintType :: "ty \<Rightarrow> bool" where "IsUintType t \<longleftrightarrow> t = TUint"
definition IsInt64Type :: "ty \<Rightarrow> bool" where "IsInt64Type t \<longleftrightarrow> t = TInt64"
definition IsUint64Type :: "ty \<Rightarrow> bool" where "IsUint64Type t \<longleftrightarrow> t = TUint64"

definition IsIntegerType :: "ty \<Rightarrow> bool" where
  "IsIntegerType t \<longleftrightarrow> IsIntType t \<or> IsUintType t \<or> IsInt64Type t \<or> IsUint64Type t \<or>
     IsInt8Type t \<or> IsUint8Type t \<or> IsInt16Type t \<or> IsUint16Type t"

definition IsFloatType :: "ty \<Rightarrow> bool" where "IsFloatType t \<longleftrightarrow> t = TFloat"
definition IsDoubleType :: "ty \<Rightarrow> bool" where "IsDoubleType t \<longleftrightarrow> t = TDouble"
definition IsLongDoubleType :: "ty \<Rightarrow> bool" where "IsLongDoubleType t \<longleftrightarrow> t = TLongDouble"

definition IsNumberType :: "ty \<Rightarrow> bool" where
  "IsNumberType t \<longleftrightarrow> IsBoolType t \<or> IsIntegerType t \<or> IsFloatType t \<or> IsDoubleType t \<or> IsLongDoubleType t"

definition IsTypeEqual :: "ty \<Rightarrow> ty \<Rightarrow> bool" where "IsTypeEqual t1 t2 \<longleftrightarrow> t1 = t2"

definition IsNull :: "any \<Rightarrow> bool" where "IsNull a \<longleftrightarrow> Empty_any a"
definition IsJsonArray :: "any \<Rightarrow> bool" where "IsJsonArray a \<longleftrightarrow> GetTypeInfo a = TArray"
definition IsJsonMap :: "any \<Rightarrow> bool" where "IsJsonMap a \<longleftrightarrow> GetTypeInfo a = TMap"
definition IsJsonObject :: "any \<Rightarrow> bool" where "IsJsonObject a \<longleftrightarrow> IsJsonMap a"

section \<open>Casts\<close>

text \<open>\<open>Undefined\<close> marks the executions whose behaviour C++ does not define.\<close>

datatype cast_error = BadCastException | Undefined

definition AnyCast :: "ty \<Rightarrow> any \<Rightarrow> cast_error + any" where
  "AnyCast t1 a = (if IsTypeEqual t1 (GetTypeInfo a) then Inr a else Inl BadCastException)"

text \<open>The C++ conversions between arithmetic types.\<close>

definition wrap_int :: "ty \<Rightarrow> int \<Rightarrow> any" where
  "wrap_int t n = (case t of
     TInt8 \<Rightarrow> AInt8 (word_of_int n) | TUint8 \<Rightarrow> AUint8 (word_of_int n)
   | TInt16 \<Rightarrow> AInt16 (word_of_int n) | TUint16 \<Rightarrow> AUint16 (word_of_int n)
   | TInt \<Rightarrow> AInt (word_of_int n) | TUint \<Rightarrow> AUint (word_of_int n)
   | TInt64 \<Rightarrow> AInt64 (word_of_int n) | TUint64 \<Rightarrow> AUint64 (word_of_int n)
   | _ \<Rightarrow> AEmpty)"

fun int_range :: "ty \<Rightarrow> int \<times> int" where
  "int_range TInt8 = (-(2 ^ 7), 2 ^ 7 - 1)"
| "int_range TUint8 = (0, 2 ^ 8 - 1)"
| "int_range TInt16 = (-(2 ^ 15), 2 ^ 15 - 1)"
| "int_range TUint16 = (0, 2 ^ 16 - 1)"
| "int_range TInt = (-(2 ^ 31), 2 ^ 31 - 1)"
| "int_range TUint = (0, 2 ^ 32 - 1)"
| "int_range TInt64 = (-(2 ^ 63), 2 ^ 63 - 1)"
| "int_range TUint64 = (0, 2 ^ 64 - 1)"
| "int_range _ = (0, -1)"

definition trunc :: "real \<Rightarrow> int" where
  "trunc x = (if x < 0 then \<lceil>x\<rceil> else \<lfloor>x\<rfloor>)"

definition cast_int :: "ty \<Rightarrow> int \<Rightarrow> cast_error + any" where
  "cast_int t n = Inr (case t of
     TBool \<Rightarrow> ABool (n \<noteq> 0) | TFloat \<Rightarrow> AFloat (rnd32 (of_int n)) | TDouble \<Rightarrow> ADouble (rnd64 (of_int n))
   | TLongDouble \<Rightarrow> ALongDouble (of_int n) | _ \<Rightarrow> wrap_int t n)"

definition cast_real :: "ty \<Rightarrow> real \<Rightarrow> cast_error + any" where
  "cast_real t x = (case t of
     TBool \<Rightarrow> Inr (ABool (x \<noteq> 0)) | TFloat \<Rightarrow> Inr (AFloat (rnd32 x)) | TDouble \<Rightarrow> Inr (ADouble (rnd64 x))
   | TLongDouble \<Rightarrow> Inr (ALongDouble x)
   | _ \<Rightarrow> if fst (int_range t) \<le> trunc x \<and> trunc x \<le> snd (int_range t) then Inr (wrap_int t (trunc x))
          else Inl Undefined)"

text \<open>
  The chain of type tests. A stored \<open>bool\<close> with another target type reaches the last branch, whose
  message is built from two unrelated pointers.
\<close>

definition AnyNumberCast :: "ty \<Rightarrow> any \<Rightarrow> cast_error + any" where
  "AnyNumberCast t1 a =
     (if IsNumberType t1 \<and> IsNumberType (GetTypeInfo a) then
        if IsTypeEqual t1 (GetTypeInfo a) then Inr a
        else (case a of
            AFloat x \<Rightarrow> cast_real t1 x
          | ADouble x \<Rightarrow> cast_real t1 x
          | ALongDouble x \<Rightarrow> cast_real t1 x
          | AInt8 w \<Rightarrow> cast_int t1 (sint w)
          | AUint8 w \<Rightarrow> cast_int t1 (uint w)
          | AInt16 w \<Rightarrow> cast_int t1 (sint w)
          | AUint16 w \<Rightarrow> cast_int t1 (uint w)
          | AInt w \<Rightarrow> cast_int t1 (sint w)
          | AUint w \<Rightarrow> cast_int t1 (uint w)
          | AInt64 w \<Rightarrow> cast_int t1 (sint w)
          | AUint64 w \<Rightarrow> cast_int t1 (uint w)
          | _ \<Rightarrow> Inl Undefined)
      else Inl BadCastException)"

definition AnyCast_string :: "any \<Rightarrow> cast_error + string" where
  "AnyCast_string a = bind_res (AnyCast TString a) (\<lambda>a. case a of AString s \<Rightarrow> Inr s | _ \<Rightarrow> Inl Undefined)"

definition ToString :: "any \<Rightarrow> cast_error + string" where
  "ToString a = (if Empty_any a then Inr '''' else AnyCast_string a)"

definition StringTo :: "string \<Rightarrow> any \<Rightarrow> any" where
  "StringTo s v = assign v (AString s)"

text \<open>The integer a value denotes, for the value-preservation property.\<close>

fun int_value :: "any \<Rightarrow> int option" where
  "int_value (AInt8 w) = Some (sint w)"
| "int_value (AUint8 w) = Some (uint w)"
| "int_value (AInt16 w) = Some (sint w)"
| "int_value (AUint16 w) = Some (uint w)"
| "int_value (AInt w) = Some (sint w)"
| "int_value (AUint w) = Some (uint w)"
| "int_value (AInt64 w) = Some (sint w)"
| "int_value (AUint64 w) = Some (uint w)"
| "int_value _ = None"

lemmas type_tests = IsBoolType_def IsInt8Type_def IsUint8Type_def IsInt16Type_def IsUint16Type_def
  IsIntType_def IsUintType_def IsInt64Type_def IsUint64Type_def IsIntegerType_def IsFloatType_def
  IsDoubleType_def IsLongDoubleType_def IsNumberType_def IsTypeEqual_def

section \<open>Integer conversions\<close>

lemma int_cong_word:
  fixes n m :: int
  assumes "(word_of_int m :: 'l::len word) = word_of_int n"
  shows "(m - n) mod 2 ^ LENGTH('l) = 0"
proof -
  have "take_bit LENGTH('l) m = take_bit LENGTH('l) n" using assms by (simp add: word_of_int_eq_iff)
  then have "m mod 2 ^ LENGTH('l) = n mod 2 ^ LENGTH('l)" by (simp only: take_bit_eq_mod)
  then show ?thesis by (metis mod_eq_dvd_iff mod_0_imp_dvd dvd_imp_mod_0)
qed

lemma uint_wrap:
  "0 \<le> uint (word_of_int n :: 'l::len word) \<and> uint (word_of_int n :: 'l word) \<le> 2 ^ LENGTH('l) - 1 \<and>
     (uint (word_of_int n :: 'l word) - n) mod 2 ^ LENGTH('l) = 0"
  using int_cong_word [of "uint (word_of_int n :: 'l word)" n, where ?'l = 'l] uint_lt2p [of "word_of_int n :: 'l word"]
  by simp

lemma sint_wrap:
  "- (2 ^ (LENGTH('l) - 1)) \<le> sint (word_of_int n :: 'l::len word) \<and>
     sint (word_of_int n :: 'l word) \<le> 2 ^ (LENGTH('l) - 1) - 1 \<and>
     (sint (word_of_int n :: 'l word) - n) mod 2 ^ LENGTH('l) = 0"
  using int_cong_word [of "sint (word_of_int n :: 'l word)" n, where ?'l = 'l]
    sint_lt [of "word_of_int n :: 'l word"] sint_ge [of "word_of_int n :: 'l word"]
  by simp

definition fits :: "ty \<Rightarrow> int \<Rightarrow> bool" where
  "fits t n \<longleftrightarrow> fst (int_range t) \<le> n \<and> n \<le> snd (int_range t)"

definition wraps_to :: "ty \<Rightarrow> int \<Rightarrow> int \<Rightarrow> bool" where
  "wraps_to t n m \<longleftrightarrow> fits t m \<and> (m - n) mod (snd (int_range t) - fst (int_range t) + 1) = 0"

lemma wrap_int_value:
  assumes "IsIntegerType t"
  shows "GetTypeInfo (wrap_int t n) = t \<and> (\<exists>m. int_value (wrap_int t n) = Some m \<and> wraps_to t n m)"
  using assms uint_wrap [of n, where ?'l = 8] uint_wrap [of n, where ?'l = 16] uint_wrap [of n, where ?'l = 32]
    uint_wrap [of n, where ?'l = 64] sint_wrap [of n, where ?'l = 8] sint_wrap [of n, where ?'l = 16]
    sint_wrap [of n, where ?'l = 32] sint_wrap [of n, where ?'l = 64]
  by (auto simp: type_tests wrap_int_def wraps_to_def fits_def)

lemma wraps_to_self: "fits t n \<Longrightarrow> wraps_to t n m \<Longrightarrow> m = n"
proof -
  assume n: "fits t n" and m: "wraps_to t n m"
  let ?lo = "fst (int_range t)" and ?hi = "snd (int_range t)"
  have "\<bar>m - n\<bar> < ?hi - ?lo + 1" using n m by (auto simp: fits_def wraps_to_def)
  moreover have "?hi - ?lo + 1 dvd m - n" using m by (auto simp: wraps_to_def)
  ultimately show ?thesis using dvd_imp_le_int [of "m - n" "?hi - ?lo + 1"] by fastforce
qed

lemma sint_range: "- (2 ^ (LENGTH('l) - 1)) \<le> sint w \<and> sint w \<le> 2 ^ (LENGTH('l) - 1) - 1" for w :: "'l::len word"
  using sint_lt [of w] sint_ge [of w] by simp

lemma uint_range: "0 \<le> uint w \<and> uint w \<le> 2 ^ LENGTH('l) - 1" for w :: "'l::len word"
  using uint_lt2p [of w] by simp

lemma int_value_type:
  assumes "int_value a = Some n"
  shows "IsIntegerType (GetTypeInfo a) \<and> fits (GetTypeInfo a) n"
proof (cases a)
  case (AInt8 w)
  then show ?thesis using assms sint_range [of w] by (simp add: type_tests fits_def)
next
  case (AUint8 w)
  then show ?thesis using assms uint_range [of w] by (simp add: type_tests fits_def)
next
  case (AInt16 w)
  then show ?thesis using assms sint_range [of w] by (simp add: type_tests fits_def)
next
  case (AUint16 w)
  then show ?thesis using assms uint_range [of w] by (simp add: type_tests fits_def)
next
  case (AInt w)
  then show ?thesis using assms sint_range [of w] by (simp add: type_tests fits_def)
next
  case (AUint w)
  then show ?thesis using assms uint_range [of w] by (simp add: type_tests fits_def)
next
  case (AInt64 w)
  then show ?thesis using assms sint_range [of w] by (simp add: type_tests fits_def)
next
  case (AUint64 w)
  then show ?thesis using assms uint_range [of w] by (simp add: type_tests fits_def)
qed (use assms in simp_all)

lemma cast_int_ok [simp]: "cast_int t n \<noteq> Inl e"
  by (simp add: cast_int_def)

lemma cast_real_err:
  "IsNumberType t \<Longrightarrow> cast_real t x = Inl e \<longleftrightarrow> e = Undefined \<and> IsIntegerType t \<and> \<not> fits t (trunc x)"
  by (cases t) (auto simp: cast_real_def type_tests fits_def)

lemma AnyNumberCast_int:
  assumes "int_value a = Some n" and "IsNumberType t" and "t \<noteq> GetTypeInfo a"
  shows "AnyNumberCast t a = cast_int t n"
  using assms by (cases a) (auto simp: AnyNumberCast_def IsTypeEqual_def type_tests)

section \<open>What the casts guarantee\<close>

text \<open>A number cast between integer types always succeeds and yields the target type; the result
  is the source value wrapped to the width of the target, hence the source value itself whenever it
  fits.\<close>

lemma AnyNumberCast_integers:
  assumes "int_value a = Some n" and "IsIntegerType t"
  shows "\<exists>b m. AnyNumberCast t a = Inr b \<and> GetTypeInfo b = t \<and> int_value b = Some m \<and> wraps_to t n m \<and>
    (fits t n \<longrightarrow> m = n)"
proof (cases "t = GetTypeInfo a")
  case True
  then have "AnyNumberCast t a = Inr a" using assms by (auto simp: AnyNumberCast_def type_tests)
  moreover have "wraps_to t n n" using int_value_type [OF assms(1)] True by (simp add: wraps_to_def)
  ultimately show ?thesis using assms(1) True by auto
next
  case False
  have "AnyNumberCast t a = cast_int t n"
    using assms False by (intro AnyNumberCast_int) (auto simp: IsNumberType_def)
  also have "\<dots> = Inr (wrap_int t n)"
    using assms(2) by (auto simp: cast_int_def type_tests)
  finally show ?thesis using wrap_int_value [OF assms(2), of n] wraps_to_self by blast
qed

lemma AnyNumberCast_integers_sample:
  "\<exists>b. AnyNumberCast TInt8 (AInt 300) = Inr b \<and> GetTypeInfo b = TInt8 \<and> int_value b = Some 44"
proof -
  have "int_value (AInt 300) = Some 300" "IsIntegerType TInt8" by (simp_all add: type_tests)
  from AnyNumberCast_integers [OF this] show ?thesis
    by (auto simp: wraps_to_def fits_def) presburger
qed




end
