(* ===== verification/Jsonize.thy ===== *)
theory Jsonize
  imports Any
begin

text \<open>
  The container codecs of \<open>unitree/common/json/jsonize.hpp\<close>: vectors, lists, sets and string maps to
  and from JSON values, the access macros used by the message classes, and the typed getters of
  \<open>json_config.hpp\<close>. An element codec is a pair of functions; \<open>from\<close> takes the value to read and the
  current contents of the variable it is read into.
\<close>

type_synonym 'e from_any = "any \<Rightarrow> 'e \<Rightarrow> cast_error + 'e"
type_synonym 'e to_any = "'e \<Rightarrow> any"

section \<open>Fields of an object\<close>

text \<open>
  \<open>json[k]\<close> on a missing key leaves an empty entry behind, which reads the same as a missing one.
\<close>

definition jat :: "JsonMap \<Rightarrow> string \<Rightarrow> any" where
  "jat m k = (case map_of m k of None \<Rightarrow> AEmpty | Some a \<Rightarrow> a)"

definition JN_FROM :: "'e from_any \<Rightarrow> JsonMap \<Rightarrow> string \<Rightarrow> 'e \<Rightarrow> cast_error + 'e" where
  "JN_FROM from m k v = from (jat m k) v"

definition JN_FROM_WEAK :: "'e from_any \<Rightarrow> JsonMap \<Rightarrow> string \<Rightarrow> 'e \<Rightarrow> cast_error + 'e" where
  "JN_FROM_WEAK from m k v = (if map_of m k \<noteq> None then JN_FROM from m k v else Inr v)"

definition JN_TO :: "'e to_any \<Rightarrow> string \<Rightarrow> 'e \<Rightarrow> JsonMap \<Rightarrow> JsonMap" where
  "JN_TO to k v m = AList.update k (to v) m"

lemma jat_JN_TO [simp]: "jat (JN_TO to k v m) k' = (if k = k' then to v else jat m k')"
  by (auto simp: jat_def JN_TO_def update_conv')

lemma map_of_JN_TO [simp]: "map_of (JN_TO to k v m) k' = (if k = k' then Some (to v) else map_of m k')"
  by (auto simp: JN_TO_def update_conv')

section \<open>Reading containers\<close>

fun decode_into :: "'e from_any \<Rightarrow> 'e \<Rightarrow> ('e \<Rightarrow> 'c \<Rightarrow> 'c) \<Rightarrow> any list \<Rightarrow> 'c \<Rightarrow> cast_error + 'c" where
  "decode_into from e0 add [] v = Inr v"
| "decode_into from e0 add (a # arr) v = bind_res (from a e0) (\<lambda>e. decode_into from e0 add arr (add e v))"

definition FromAny_array :: "'e from_any \<Rightarrow> 'e \<Rightarrow> ('e \<Rightarrow> 'c \<Rightarrow> 'c) \<Rightarrow> 'c from_any" where
  "FromAny_array from e0 add a v = (if Empty_any a then Inr v else
     bind_res (AnyCast TArray a) (\<lambda>a. case a of AArray arr \<Rightarrow> decode_into from e0 add arr v | _ \<Rightarrow> Inl Undefined))"

definition FromAny_vector :: "'e from_any \<Rightarrow> 'e \<Rightarrow> 'e list from_any" where
  "FromAny_vector from e0 = FromAny_array from e0 (\<lambda>e v. v @ [e])"

definition FromAny_list :: "'e from_any \<Rightarrow> 'e \<Rightarrow> 'e list from_any" where
  "FromAny_list from e0 = FromAny_array from e0 (\<lambda>e v. v @ [e])"

definition FromAny_set :: "'e from_any \<Rightarrow> 'e \<Rightarrow> 'e set from_any" where
  "FromAny_set from e0 = FromAny_array from e0 insert"

fun decode_map :: "'e from_any \<Rightarrow> 'e \<Rightarrow> JsonMap \<Rightarrow> (string \<times> 'e) list \<Rightarrow> cast_error + (string \<times> 'e) list" where
  "decode_map from e0 [] v = Inr v"
| "decode_map from e0 ((name, a) # m) v = bind_res (from a e0) (\<lambda>e. decode_map from e0 m (AList.update name e v))"

definition FromAny_map :: "'e from_any \<Rightarrow> 'e \<Rightarrow> (string \<times> 'e) list from_any" where
  "FromAny_map from e0 a v = (if Empty_any a then Inr v else
     bind_res (AnyCast TMap a) (\<lambda>a. case a of AMap m \<Rightarrow> decode_map from e0 m v | _ \<Rightarrow> Inl Undefined))"

section \<open>Writing containers\<close>

definition ToAny_vector :: "'e to_any \<Rightarrow> 'e list to_any" where
  "ToAny_vector to value = AArray (fold (\<lambda>e arr. arr @ [to e]) value [])"

definition ToAny_list :: "'e to_any \<Rightarrow> 'e list to_any" where
  "ToAny_list to value = AArray (fold (\<lambda>e arr. arr @ [to e]) value [])"

definition ToAny_set :: "'e to_any \<Rightarrow> 'e::linorder set to_any" where
  "ToAny_set to value = AArray (fold (\<lambda>e arr. arr @ [to e]) (sorted_list_of_set value) [])"

definition ToAny_map :: "'e to_any \<Rightarrow> (string \<times> 'e) list to_any" where
  "ToAny_map to value = AMap (fold (\<lambda>(name, e) m. JN_TO to name e m) value [])"

text \<open>Text form: parsing and printing are library functions.\<close>

definition FromJsonString_as :: "(string \<Rightarrow> cast_error + any) \<Rightarrow> 'e from_any \<Rightarrow> string \<Rightarrow> 'e \<Rightarrow> cast_error + 'e" where
  "FromJsonString_as parse from s t = bind_res (parse s) (\<lambda>a. from a t)"

definition ToJsonString_of :: "(any \<Rightarrow> string) \<Rightarrow> 'e to_any \<Rightarrow> 'e \<Rightarrow> string" where
  "ToJsonString_of print to t = print (to t)"

section \<open>Configuration getters\<close>

text \<open>\<open>a\<close> is what the library's \<open>Get\<close> or \<open>GetParameter\<close> returned for the name.\<close>

definition config_Get :: "ty \<Rightarrow> any \<Rightarrow> cast_error + any" where
  "config_Get t a = AnyCast t a"

definition config_GetNumber :: "ty \<Rightarrow> any \<Rightarrow> cast_error + any" where
  "config_GetNumber t a = AnyNumberCast t a"

definition config_Get_default :: "ty \<Rightarrow> any \<Rightarrow> any \<Rightarrow> cast_error + any" where
  "config_Get_default t a def = (if Empty_any a then Inr def else AnyCast t a)"

definition config_GetNumber_default :: "ty \<Rightarrow> any \<Rightarrow> any \<Rightarrow> cast_error + any" where
  "config_GetNumber_default t a def = (if Empty_any a then Inr def else AnyNumberCast t a)"

section \<open>Lemmas\<close>

lemma fold_push: "fold (\<lambda>e arr. arr @ [f e]) xs ys = ys @ map f xs"
  by (induction xs arbitrary: ys) simp_all

lemma ToAny_vector_map: "ToAny_vector to xs = AArray (map to xs)"
  by (simp add: ToAny_vector_def fold_push)

lemma FromAny_array_AArray: "FromAny_array from e0 add (AArray arr) v = decode_into from e0 add arr v"
  by (simp add: FromAny_array_def Empty_any_def AnyCast_def IsTypeEqual_def)

lemma FromAny_map_AMap: "FromAny_map from e0 (AMap m) v = decode_map from e0 m v"
  by (simp add: FromAny_map_def Empty_any_def AnyCast_def IsTypeEqual_def)

text \<open>An element codec: reading a written value into the initial variable gives it back.\<close>

locale any_codec =
  fixes to :: "'e to_any" and frm :: "'e from_any" and e0 :: 'e and ok :: "'e \<Rightarrow> bool"
  assumes round_trip: "ok x \<Longrightarrow> frm (to x) e0 = Inr x"
begin

lemma decode_into_map:
  "list_all ok xs \<Longrightarrow> decode_into frm e0 add (map to xs) v = Inr (fold add xs v)"
  by (induction xs arbitrary: v) (simp_all add: round_trip)

lemma vector_into:
  "list_all ok xs \<Longrightarrow> FromAny_vector frm e0 (ToAny_vector to xs) v = Inr (v @ xs)"
  using fold_push [of "\<lambda>x. x" xs v]
  by (simp add: FromAny_vector_def ToAny_vector_map FromAny_array_AArray decode_into_map)

lemma list_into:
  "list_all ok xs \<Longrightarrow> FromAny_list frm e0 (ToAny_list to xs) v = Inr (v @ xs)"
  using vector_into [of xs v] by (simp add: FromAny_vector_def ToAny_vector_def FromAny_list_def ToAny_list_def)

lemma map_round:
  assumes "distinct (map fst kvs)" and "list_all ok (map snd kvs)"
  shows "FromAny_map frm e0 (ToAny_map to kvs) [] = Inr kvs"
proof -
  have upd: "AList.update k v m = m @ [(k, v)]" if "k \<notin> fst ` set m" for k and v :: 'z and m
    using that by (induction m) auto
  have enc: "fold (\<lambda>(name, e) m. JN_TO to name e m) xs (map (apsnd to) ys) = map (apsnd to) (ys @ xs)"
    if "distinct (map fst (ys @ xs))" for xs ys :: "(string \<times> 'e) list"
    using that
  proof (induction xs arbitrary: ys)
    case (Cons x xs)
    obtain k e where x: "x = (k, e)" by force
    have "k \<notin> fst ` set (map (apsnd to) ys)" using Cons.prems x by force
    then have "JN_TO to k e (map (apsnd to) ys) = map (apsnd to) (ys @ [(k, e)])"
      by (simp add: JN_TO_def upd)
    then show ?case using Cons.IH [of "ys @ [(k, e)]"] Cons.prems x by simp
  qed simp
  have dec: "decode_map frm e0 (map (apsnd to) xs) ys = Inr (ys @ xs)"
    if "distinct (map fst (ys @ xs))" "list_all ok (map snd xs)" for xs ys :: "(string \<times> 'e) list"
    using that
  proof (induction xs arbitrary: ys)
    case (Cons x xs)
    obtain k e where x: "x = (k, e)" by force
    have "AList.update k e ys = ys @ [(k, e)]" using Cons.prems x by (intro upd) force
    then show ?case using Cons.IH [of "ys @ [(k, e)]"] Cons.prems x by (simp add: round_trip)
  qed simp
  show ?thesis
    using enc [of "[]" kvs] dec [of "[]" kvs] assms by (simp add: ToAny_map_def FromAny_map_AMap)
qed

lemma vector_codec: "any_codec (ToAny_vector to) (FromAny_vector frm e0) [] (list_all ok)"
  by unfold_locales (simp add: vector_into)

lemma set_round:
  fixes enum :: "'e list"
  assumes "list_all ok enum"
  shows "FromAny_set frm e0 (AArray (map to enum)) {} = Inr (set enum)"
  using assms decode_into_map [of enum insert "{}"]
  by (simp add: FromAny_set_def FromAny_array_AArray union_set_fold [symmetric])

end

section \<open>Scalars\<close>

text \<open>
  The scalar codecs are library functions; the message classes take them as an argument. What they
  promise is that a written value reads back.
\<close>

record scalars =
  from_bool :: "bool from_any"
  to_bool :: "bool to_any"
  from_u8 :: "u8 from_any"
  to_u8 :: "u8 to_any"
  from_u16 :: "u16 from_any"
  to_u16 :: "u16 to_any"
  from_i32 :: "32 word from_any"
  to_i32 :: "32 word to_any"
  from_float :: "real from_any"
  to_float :: "real to_any"
  from_double :: "real from_any"
  to_double :: "real to_any"
  from_str :: "string from_any"
  to_str :: "string to_any"

definition scalars_ok :: "scalars \<Rightarrow> bool" where
  "scalars_ok S \<longleftrightarrow> (\<forall>x y. from_bool S (to_bool S x) y = Inr x) \<and> (\<forall>x y. from_u8 S (to_u8 S x) y = Inr x) \<and>
     (\<forall>x y. from_u16 S (to_u16 S x) y = Inr x) \<and> (\<forall>x y. from_i32 S (to_i32 S x) y = Inr x) \<and>
     (\<forall>x y. rep32 x \<longrightarrow> from_float S (to_float S x) y = Inr x) \<and>
     (\<forall>x y. rep64 x \<longrightarrow> from_double S (to_double S x) y = Inr x) \<and>
     (\<forall>x y. from_str S (to_str S x) y = Inr x)"

text \<open>Codecs built from the casts: numbers through \<open>AnyNumberCast\<close>, strings through \<open>ToString\<close>.\<close>

definition any_scalars :: scalars where
  "any_scalars = \<lparr>
     from_bool = (\<lambda>a _. bind_res (AnyNumberCast TBool a) (\<lambda>b. case b of ABool x \<Rightarrow> Inr x | _ \<Rightarrow> Inl Undefined)),
     to_bool = ABool,
     from_u8 = (\<lambda>a _. bind_res (AnyNumberCast TUint8 a) (\<lambda>b. case b of AUint8 x \<Rightarrow> Inr x | _ \<Rightarrow> Inl Undefined)),
     to_u8 = AUint8,
     from_u16 = (\<lambda>a _. bind_res (AnyNumberCast TUint16 a) (\<lambda>b. case b of AUint16 x \<Rightarrow> Inr x | _ \<Rightarrow> Inl Undefined)),
     to_u16 = AUint16,
     from_i32 = (\<lambda>a _. bind_res (AnyNumberCast TInt a) (\<lambda>b. case b of AInt x \<Rightarrow> Inr x | _ \<Rightarrow> Inl Undefined)),
     to_i32 = AInt,
     from_float = (\<lambda>a _. bind_res (AnyNumberCast TFloat a) (\<lambda>b. case b of AFloat x \<Rightarrow> Inr x | _ \<Rightarrow> Inl Undefined)),
     to_float = AFloat,
     from_double = (\<lambda>a _. bind_res (AnyNumberCast TDouble a) (\<lambda>b. case b of ADouble x \<Rightarrow> Inr x | _ \<Rightarrow> Inl Undefined)),
     to_double = ADouble,
     from_str = (\<lambda>a _. ToString a),
     to_str = (\<lambda>s. StringTo s AEmpty)\<rparr>"

lemma any_scalars_ok: "scalars_ok any_scalars"
  by (simp add: scalars_ok_def any_scalars_def AnyNumberCast_def type_tests ToString_def StringTo_def
      assign_def Swap_def Empty_any_def AnyCast_string_def AnyCast_def)

interpretation i32_codec: any_codec "to_i32 any_scalars" "from_i32 any_scalars" 0 "\<lambda>_. True"
  using any_scalars_ok by unfold_locales (simp add: scalars_ok_def)

interpretation float_codec: any_codec "to_float any_scalars" "from_float any_scalars" 0 rep32
  using any_scalars_ok by unfold_locales (simp add: scalars_ok_def)

interpretation string_codec: any_codec "to_str any_scalars" "from_str any_scalars" "[]" "\<lambda>_. True"
  using any_scalars_ok by unfold_locales (simp add: scalars_ok_def)

lemma scalars_okD:
  assumes "scalars_ok S"
  shows "from_bool S (to_bool S b) y = Inr b" and "from_u8 S (to_u8 S u) y1 = Inr u"
    and "from_u16 S (to_u16 S v) y2 = Inr v" and "from_i32 S (to_i32 S i) y3 = Inr i"
    and "rep32 x \<Longrightarrow> from_float S (to_float S x) y4 = Inr x"
    and "rep64 d \<Longrightarrow> from_double S (to_double S d) y5 = Inr d"
    and "from_str S (to_str S s) y6 = Inr s"
  using assms by (simp_all add: scalars_ok_def)

lemma scalars_float_codec: "scalars_ok S \<Longrightarrow> any_codec (to_float S) (from_float S) e rep32"
  by unfold_locales (simp add: scalars_okD)

section \<open>What the containers guarantee\<close>



end
