(* ===== verification/Messages.thy ===== *)
theory Messages
  imports Jsonize
begin

text \<open>
  The message classes of the robot services: the parameter and data classes of the configuration,
  robot state, motion switcher, obstacle avoidance, tracking, locomotion and audio interfaces
  (\<open>*_api.hpp\<close>), the shared classes of \<open>go2/public/jsonize_type.hpp\<close> and the class of
  \<open>example/jsonize\<close>. Each has its fields, its constructor where it fixes every field, and its
  \<open>fromJson\<close> and \<open>toJson\<close> over the scalar codecs \<open>S\<close>.
\<close>

section \<open>Plain classes\<close>

record JsonizeFlagBool =
  FlagBool_flag :: "bool"

definition JsonizeFlagBool_init :: JsonizeFlagBool where
  "JsonizeFlagBool_init = \<lparr>FlagBool_flag = False\<rparr>"

definition JsonizeFlagBool_fromJson :: "scalars \<Rightarrow> JsonMap \<Rightarrow> JsonizeFlagBool \<Rightarrow> cast_error + JsonizeFlagBool" where
  "JsonizeFlagBool_fromJson S json c =
     bind_res (JN_FROM (from_bool S) json ''flag'' (FlagBool_flag c)) (\<lambda>v0.
     Inr (c\<lparr>FlagBool_flag := v0\<rparr>))"

definition JsonizeFlagBool_toJson :: "scalars \<Rightarrow> JsonizeFlagBool \<Rightarrow> JsonMap \<Rightarrow> JsonMap" where
  "JsonizeFlagBool_toJson S c json =
     JN_TO (to_bool S) ''flag'' (FlagBool_flag c) json"

record JsonizeDataBool =
  DataBool_data :: "bool"

definition JsonizeDataBool_init :: JsonizeDataBool where
  "JsonizeDataBool_init = \<lparr>DataBool_data = False\<rparr>"

definition JsonizeDataBool_fromJson :: "scalars \<Rightarrow> JsonMap \<Rightarrow> JsonizeDataBool \<Rightarrow> cast_error + JsonizeDataBool" where
  "JsonizeDataBool_fromJson S json c =
     bind_res (JN_FROM (from_bool S) json ''data'' (DataBool_data c)) (\<lambda>v0.
     Inr (c\<lparr>DataBool_data := v0\<rparr>))"

definition JsonizeDataBool_toJson :: "scalars \<Rightarrow> JsonizeDataBool \<Rightarrow> JsonMap \<Rightarrow> JsonMap" where
  "JsonizeDataBool_toJson S c json =
     JN_TO (to_bool S) ''data'' (DataBool_data c) json"

record JsonizeDataInt =
  DataInt_data :: "32 word"

definition JsonizeDataInt_init :: JsonizeDataInt where
  "JsonizeDataInt_init = \<lparr>DataInt_data = 0\<rparr>"

definition JsonizeDataInt_fromJson :: "scalars \<Rightarrow> JsonMap \<Rightarrow> JsonizeDataInt \<Rightarrow> cast_error + JsonizeDataInt" where
  "JsonizeDataInt_fromJson S json c =
     bind_res (JN_FROM (from_i32 S) json ''data'' (DataInt_data c)) (\<lambda>v0.
     Inr (c\<lparr>DataInt_data := v0\<rparr>))"

definition JsonizeDataInt_toJson :: "scalars \<Rightarrow> JsonizeDataInt \<Rightarrow> JsonMap \<Rightarrow> JsonMap" where
  "JsonizeDataInt_toJson S c json =
     JN_TO (to_i32 S) ''data'' (DataInt_data c) json"

record JsonizeDataFloat =
  DataFloat_data :: "real"

definition JsonizeDataFloat_init :: JsonizeDataFloat where
  "JsonizeDataFloat_init = \<lparr>DataFloat_data = 0\<rparr>"

definition JsonizeDataFloat_fromJson :: "scalars \<Rightarrow> JsonMap \<Rightarrow> JsonizeDataFloat \<Rightarrow> cast_error + JsonizeDataFloat" where
  "JsonizeDataFloat_fromJson S json c =
     bind_res (JN_FROM (from_float S) json ''data'' (DataFloat_data c)) (\<lambda>v0.
     Inr (c\<lparr>DataFloat_data := v0\<rparr>))"

definition JsonizeDataFloat_toJson :: "scalars \<Rightarrow> JsonizeDataFloat \<Rightarrow> JsonMap \<Rightarrow> JsonMap" where
  "JsonizeDataFloat_toJson S c json =
     JN_TO (to_float S) ''data'' (DataFloat_data c) json"

record JsonizeDataDouble =
  DataDouble_data :: "real"

definition JsonizeDataDouble_init :: JsonizeDataDouble where
  "JsonizeDataDouble_init = \<lparr>DataDouble_data = 0\<rparr>"

definition JsonizeDataDouble_fromJson :: "scalars \<Rightarrow> JsonMap \<Rightarrow> JsonizeDataDouble \<Rightarrow> cast_error + JsonizeDataDouble" where
  "JsonizeDataDouble_fromJson S json c =
     bind_res (JN_FROM (from_double S) json ''data'' (DataDouble_data c)) (\<lambda>v0.
     Inr (c\<lparr>DataDouble_data := v0\<rparr>))"

definition JsonizeDataDouble_toJson :: "scalars \<Rightarrow> JsonizeDataDouble \<Rightarrow> JsonMap \<Rightarrow> JsonMap" where
  "JsonizeDataDouble_toJson S c json =
     JN_TO (to_double S) ''data'' (DataDouble_data c) json"

record JsonizeDataString =
  DataString_data :: "string"

definition JsonizeDataString_init :: JsonizeDataString where
  "JsonizeDataString_init = \<lparr>DataString_data = ''''\<rparr>"

definition JsonizeDataString_fromJson :: "scalars \<Rightarrow> JsonMap \<Rightarrow> JsonizeDataString \<Rightarrow> cast_error + JsonizeDataString" where
  "JsonizeDataString_fromJson S json c =
     bind_res (JN_FROM (from_str S) json ''data'' (DataString_data c)) (\<lambda>v0.
     Inr (c\<lparr>DataString_data := v0\<rparr>))"

definition JsonizeDataString_toJson :: "scalars \<Rightarrow> JsonizeDataString \<Rightarrow> JsonMap \<Rightarrow> JsonMap" where
  "JsonizeDataString_toJson S c json =
     JN_TO (to_str S) ''data'' (DataString_data c) json"

record JsonizeVec3 =
  Vec3_x :: "real"
  Vec3_y :: "real"
  Vec3_z :: "real"

definition JsonizeVec3_init :: JsonizeVec3 where
  "JsonizeVec3_init = \<lparr>Vec3_x = 0, Vec3_y = 0, Vec3_z = 0\<rparr>"

definition JsonizeVec3_fromJson :: "scalars \<Rightarrow> JsonMap \<Rightarrow> JsonizeVec3 \<Rightarrow> cast_error + JsonizeVec3" where
  "JsonizeVec3_fromJson S json c =
     bind_res (JN_FROM (from_float S) json ''x'' (Vec3_x c)) (\<lambda>v0.
     bind_res (JN_FROM (from_float S) json ''y'' (Vec3_y c)) (\<lambda>v1.
     bind_res (JN_FROM (from_float S) json ''z'' (Vec3_z c)) (\<lambda>v2.
     Inr (c\<lparr>Vec3_x := v0, Vec3_y := v1, Vec3_z := v2\<rparr>))))"

definition JsonizeVec3_toJson :: "scalars \<Rightarrow> JsonizeVec3 \<Rightarrow> JsonMap \<Rightarrow> JsonMap" where
  "JsonizeVec3_toJson S c json =
     JN_TO (to_float S) ''z'' (Vec3_z c)
     (JN_TO (to_float S) ''y'' (Vec3_y c)
     (JN_TO (to_float S) ''x'' (Vec3_x c) json))"

record JsonizeQuat =
  Quat_x :: "real"
  Quat_y :: "real"
  Quat_z :: "real"
  Quat_w :: "real"

definition JsonizeQuat_init :: JsonizeQuat where
  "JsonizeQuat_init = \<lparr>Quat_x = 0, Quat_y = 0, Quat_z = 0, Quat_w = 0\<rparr>"

definition JsonizeQuat_fromJson :: "scalars \<Rightarrow> JsonMap \<Rightarrow> JsonizeQuat \<Rightarrow> cast_error + JsonizeQuat" where
  "JsonizeQuat_fromJson S json c =
     bind_res (JN_FROM (from_float S) json ''x'' (Quat_x c)) (\<lambda>v0.
     bind_res (JN_FROM (from_float S) json ''y'' (Quat_y c)) (\<lambda>v1.
     bind_res (JN_FROM (from_float S) json ''z'' (Quat_z c)) (\<lambda>v2.
     bind_res (JN_FROM (from_float S) json ''w'' (Quat_w c)) (\<lambda>v3.
     Inr (c\<lparr>Quat_x := v0, Quat_y := v1, Quat_z := v2, Quat_w := v3\<rparr>)))))"

definition JsonizeQuat_toJson :: "scalars \<Rightarrow> JsonizeQuat \<Rightarrow> JsonMap \<Rightarrow> JsonMap" where
  "JsonizeQuat_toJson S c json =
     JN_TO (to_float S) ''w'' (Quat_w c)
     (JN_TO (to_float S) ''z'' (Quat_z c)
     (JN_TO (to_float S) ''y'' (Quat_y c)
     (JN_TO (to_float S) ''x'' (Quat_x c) json)))"

record JsonizePathPoint =
  PathPoint_timeFromStart :: "real"
  PathPoint_x :: "real"
  PathPoint_y :: "real"
  PathPoint_yaw :: "real"
  PathPoint_vx :: "real"
  PathPoint_vy :: "real"
  PathPoint_vyaw :: "real"

definition JsonizePathPoint_init :: JsonizePathPoint where
  "JsonizePathPoint_init = \<lparr>PathPoint_timeFromStart = 0, PathPoint_x = 0, PathPoint_y = 0, PathPoint_yaw = 0, PathPoint_vx = 0, PathPoint_vy = 0, PathPoint_vyaw = 0\<rparr>"

definition JsonizePathPoint_fromJson :: "scalars \<Rightarrow> JsonMap \<Rightarrow> JsonizePathPoint \<Rightarrow> cast_error + JsonizePathPoint" where
  "JsonizePathPoint_fromJson S json c =
     bind_res (JN_FROM (from_float S) json ''t_from_start'' (PathPoint_timeFromStart c)) (\<lambda>v0.
     bind_res (JN_FROM (from_float S) json ''x'' (PathPoint_x c)) (\<lambda>v1.
     bind_res (JN_FROM (from_float S) json ''y'' (PathPoint_y c)) (\<lambda>v2.
     bind_res (JN_FROM (from_float S) json ''yaw'' (PathPoint_yaw c)) (\<lambda>v3.
     bind_res (JN_FROM (from_float S) json ''vx'' (PathPoint_vx c)) (\<lambda>v4.
     bind_res (JN_FROM (from_float S) json ''vy'' (PathPoint_vy c)) (\<lambda>v5.
     bind_res (JN_FROM (from_float S) json ''vyaw'' (PathPoint_vyaw c)) (\<lambda>v6.
     Inr (c\<lparr>PathPoint_timeFromStart := v0, PathPoint_x := v1, PathPoint_y := v2, PathPoint_yaw := v3, PathPoint_vx := v4, PathPoint_vy := v5, PathPoint_vyaw := v6\<rparr>))))))))"

definition JsonizePathPoint_toJson :: "scalars \<Rightarrow> JsonizePathPoint \<Rightarrow> JsonMap \<Rightarrow> JsonMap" where
  "JsonizePathPoint_toJson S c json =
     JN_TO (to_float S) ''vyaw'' (PathPoint_vyaw c)
     (JN_TO (to_float S) ''vy'' (PathPoint_vy c)
     (JN_TO (to_float S) ''vx'' (PathPoint_vx c)
     (JN_TO (to_float S) ''yaw'' (PathPoint_yaw c)
     (JN_TO (to_float S) ''y'' (PathPoint_y c)
     (JN_TO (to_float S) ''x'' (PathPoint_x c)
     (JN_TO (to_float S) ''t_from_start'' (PathPoint_timeFromStart c) json))))))"

record JsonizeConfigMeta =
  ConfigMeta_name :: "string"
  ConfigMeta_lastModified :: "string"
  ConfigMeta_size :: "32 word"
  ConfigMeta_epoch :: "32 word"

definition JsonizeConfigMeta_fromJson :: "scalars \<Rightarrow> JsonMap \<Rightarrow> JsonizeConfigMeta \<Rightarrow> cast_error + JsonizeConfigMeta" where
  "JsonizeConfigMeta_fromJson S json c =
     bind_res (JN_FROM (from_str S) json ''name'' (ConfigMeta_name c)) (\<lambda>v0.
     bind_res (JN_FROM (from_str S) json ''lastModified'' (ConfigMeta_lastModified c)) (\<lambda>v1.
     bind_res (JN_FROM (from_i32 S) json ''size'' (ConfigMeta_size c)) (\<lambda>v2.
     bind_res (JN_FROM (from_i32 S) json ''epoch'' (ConfigMeta_epoch c)) (\<lambda>v3.
     Inr (c\<lparr>ConfigMeta_name := v0, ConfigMeta_lastModified := v1, ConfigMeta_size := v2, ConfigMeta_epoch := v3\<rparr>)))))"

definition JsonizeConfigMeta_toJson :: "scalars \<Rightarrow> JsonizeConfigMeta \<Rightarrow> JsonMap \<Rightarrow> JsonMap" where
  "JsonizeConfigMeta_toJson S c json =
     JN_TO (to_i32 S) ''epoch'' (ConfigMeta_epoch c)
     (JN_TO (to_i32 S) ''size'' (ConfigMeta_size c)
     (JN_TO (to_str S) ''lastModified'' (ConfigMeta_lastModified c)
     (JN_TO (to_str S) ''name'' (ConfigMeta_name c) json)))"

record ConfigSetParameter =
  ConfigSetParameter_name :: "string"
  ConfigSetParameter_content :: "string"

definition ConfigSetParameter_init :: ConfigSetParameter where
  "ConfigSetParameter_init = \<lparr>ConfigSetParameter_name = '''', ConfigSetParameter_content = ''''\<rparr>"

definition ConfigSetParameter_fromJson :: "scalars \<Rightarrow> JsonMap \<Rightarrow> ConfigSetParameter \<Rightarrow> cast_error + ConfigSetParameter" where
  "ConfigSetParameter_fromJson S json c =
     bind_res (JN_FROM (from_str S) json ''name'' (ConfigSetParameter_name c)) (\<lambda>v0.
     bind_res (JN_FROM (from_str S) json ''content'' (ConfigSetParameter_content c)) (\<lambda>v1.
     Inr (c\<lparr>ConfigSetParameter_name := v0, ConfigSetParameter_content := v1\<rparr>)))"

definition ConfigSetParameter_toJson :: "scalars \<Rightarrow> ConfigSetParameter \<Rightarrow> JsonMap \<Rightarrow> JsonMap" where
  "ConfigSetParameter_toJson S c json =
     JN_TO (to_str S) ''content'' (ConfigSetParameter_content c)
     (JN_TO (to_str S) ''name'' (ConfigSetParameter_name c) json)"

record ConfigGetParameter =
  ConfigGetParameter_name :: "string"

definition ConfigGetParameter_init :: ConfigGetParameter where
  "ConfigGetParameter_init = \<lparr>ConfigGetParameter_name = ''''\<rparr>"

definition ConfigGetParameter_fromJson :: "scalars \<Rightarrow> JsonMap \<Rightarrow> ConfigGetParameter \<Rightarrow> cast_error + ConfigGetParameter" where
  "ConfigGetParameter_fromJson S json c =
     bind_res (JN_FROM (from_str S) json ''name'' (ConfigGetParameter_name c)) (\<lambda>v0.
     Inr (c\<lparr>ConfigGetParameter_name := v0\<rparr>))"

definition ConfigGetParameter_toJson :: "scalars \<Rightarrow> ConfigGetParameter \<Rightarrow> JsonMap \<Rightarrow> JsonMap" where
  "ConfigGetParameter_toJson S c json =
     JN_TO (to_str S) ''name'' (ConfigGetParameter_name c) json"

record ConfigGetData =
  ConfigGetData_content :: "string"

definition ConfigGetData_init :: ConfigGetData where
  "ConfigGetData_init = \<lparr>ConfigGetData_content = ''''\<rparr>"

definition ConfigGetData_fromJson :: "scalars \<Rightarrow> JsonMap \<Rightarrow> ConfigGetData \<Rightarrow> cast_error + ConfigGetData" where
  "ConfigGetData_fromJson S json c =
     bind_res (JN_FROM (from_str S) json ''content'' (ConfigGetData_content c)) (\<lambda>v0.
     Inr (c\<lparr>ConfigGetData_content := v0\<rparr>))"

definition ConfigGetData_toJson :: "scalars \<Rightarrow> ConfigGetData \<Rightarrow> JsonMap \<Rightarrow> JsonMap" where
  "ConfigGetData_toJson S c json =
     JN_TO (to_str S) ''content'' (ConfigGetData_content c) json"

record ConfigDelParameter =
  ConfigDelParameter_name :: "string"

definition ConfigDelParameter_init :: ConfigDelParameter where
  "ConfigDelParameter_init = \<lparr>ConfigDelParameter_name = ''''\<rparr>"

definition ConfigDelParameter_fromJson :: "scalars \<Rightarrow> JsonMap \<Rightarrow> ConfigDelParameter \<Rightarrow> cast_error + ConfigDelParameter" where
  "ConfigDelParameter_fromJson S json c =
     bind_res (JN_FROM (from_str S) json ''name'' (ConfigDelParameter_name c)) (\<lambda>v0.
     Inr (c\<lparr>ConfigDelParameter_name := v0\<rparr>))"

definition ConfigDelParameter_toJson :: "scalars \<Rightarrow> ConfigDelParameter \<Rightarrow> JsonMap \<Rightarrow> JsonMap" where
  "ConfigDelParameter_toJson S c json =
     JN_TO (to_str S) ''name'' (ConfigDelParameter_name c) json"

record ConfigMetaParameter =
  ConfigMetaParameter_name :: "string"

definition ConfigMetaParameter_init :: ConfigMetaParameter where
  "ConfigMetaParameter_init = \<lparr>ConfigMetaParameter_name = ''''\<rparr>"

definition ConfigMetaParameter_fromJson :: "scalars \<Rightarrow> JsonMap \<Rightarrow> ConfigMetaParameter \<Rightarrow> cast_error + ConfigMetaParameter" where
  "ConfigMetaParameter_fromJson S json c =
     bind_res (JN_FROM (from_str S) json ''name'' (ConfigMetaParameter_name c)) (\<lambda>v0.
     Inr (c\<lparr>ConfigMetaParameter_name := v0\<rparr>))"

definition ConfigMetaParameter_toJson :: "scalars \<Rightarrow> ConfigMetaParameter \<Rightarrow> JsonMap \<Rightarrow> JsonMap" where
  "ConfigMetaParameter_toJson S c json =
     JN_TO (to_str S) ''name'' (ConfigMetaParameter_name c) json"

record ServiceSwitchParameter =
  ServiceSwitchParameter_name :: "string"
  ServiceSwitchParameter_swit :: "32 word"

definition ServiceSwitchParameter_init :: ServiceSwitchParameter where
  "ServiceSwitchParameter_init = \<lparr>ServiceSwitchParameter_name = '''', ServiceSwitchParameter_swit = 0\<rparr>"

definition ServiceSwitchParameter_fromJson :: "scalars \<Rightarrow> JsonMap \<Rightarrow> ServiceSwitchParameter \<Rightarrow> cast_error + ServiceSwitchParameter" where
  "ServiceSwitchParameter_fromJson S json c =
     bind_res (JN_FROM (from_str S) json ''name'' (ServiceSwitchParameter_name c)) (\<lambda>v0.
     bind_res (JN_FROM (from_i32 S) json ''switch'' (ServiceSwitchParameter_swit c)) (\<lambda>v1.
     Inr (c\<lparr>ServiceSwitchParameter_name := v0, ServiceSwitchParameter_swit := v1\<rparr>)))"

definition ServiceSwitchParameter_toJson :: "scalars \<Rightarrow> ServiceSwitchParameter \<Rightarrow> JsonMap \<Rightarrow> JsonMap" where
  "ServiceSwitchParameter_toJson S c json =
     JN_TO (to_i32 S) ''switch'' (ServiceSwitchParameter_swit c)
     (JN_TO (to_str S) ''name'' (ServiceSwitchParameter_name c) json)"

record ServiceSwitchData =
  ServiceSwitchData_name :: "string"
  ServiceSwitchData_status :: "32 word"

definition ServiceSwitchData_init :: ServiceSwitchData where
  "ServiceSwitchData_init = \<lparr>ServiceSwitchData_name = '''', ServiceSwitchData_status = 0\<rparr>"

definition ServiceSwitchData_fromJson :: "scalars \<Rightarrow> JsonMap \<Rightarrow> ServiceSwitchData \<Rightarrow> cast_error + ServiceSwitchData" where
  "ServiceSwitchData_fromJson S json c =
     bind_res (JN_FROM (from_str S) json ''name'' (ServiceSwitchData_name c)) (\<lambda>v0.
     bind_res (JN_FROM (from_i32 S) json ''status'' (ServiceSwitchData_status c)) (\<lambda>v1.
     Inr (c\<lparr>ServiceSwitchData_name := v0, ServiceSwitchData_status := v1\<rparr>)))"

definition ServiceSwitchData_toJson :: "scalars \<Rightarrow> ServiceSwitchData \<Rightarrow> JsonMap \<Rightarrow> JsonMap" where
  "ServiceSwitchData_toJson S c json =
     JN_TO (to_i32 S) ''status'' (ServiceSwitchData_status c)
     (JN_TO (to_str S) ''name'' (ServiceSwitchData_name c) json)"

record SetReportFreqParameter =
  SetReportFreqParameter_interval :: "32 word"
  SetReportFreqParameter_duration :: "32 word"

definition SetReportFreqParameter_fromJson :: "scalars \<Rightarrow> JsonMap \<Rightarrow> SetReportFreqParameter \<Rightarrow> cast_error + SetReportFreqParameter" where
  "SetReportFreqParameter_fromJson S json c =
     bind_res (JN_FROM (from_i32 S) json ''interval'' (SetReportFreqParameter_interval c)) (\<lambda>v0.
     bind_res (JN_FROM (from_i32 S) json ''duration'' (SetReportFreqParameter_duration c)) (\<lambda>v1.
     Inr (c\<lparr>SetReportFreqParameter_interval := v0, SetReportFreqParameter_duration := v1\<rparr>)))"

definition SetReportFreqParameter_toJson :: "scalars \<Rightarrow> SetReportFreqParameter \<Rightarrow> JsonMap \<Rightarrow> JsonMap" where
  "SetReportFreqParameter_toJson S c json =
     JN_TO (to_i32 S) ''duration'' (SetReportFreqParameter_duration c)
     (JN_TO (to_i32 S) ''interval'' (SetReportFreqParameter_interval c) json)"

record ServiceStateData =
  ServiceStateData_name :: "string"
  ServiceStateData_status :: "32 word"
  ServiceStateData_protect :: "32 word"

definition ServiceStateData_fromJson :: "scalars \<Rightarrow> JsonMap \<Rightarrow> ServiceStateData \<Rightarrow> cast_error + ServiceStateData" where
  "ServiceStateData_fromJson S json c =
     bind_res (JN_FROM (from_str S) json ''name'' (ServiceStateData_name c)) (\<lambda>v0.
     bind_res (JN_FROM (from_i32 S) json ''status'' (ServiceStateData_status c)) (\<lambda>v1.
     bind_res (JN_FROM (from_i32 S) json ''protect'' (ServiceStateData_protect c)) (\<lambda>v2.
     Inr (c\<lparr>ServiceStateData_name := v0, ServiceStateData_status := v1, ServiceStateData_protect := v2\<rparr>))))"

definition ServiceStateData_toJson :: "scalars \<Rightarrow> ServiceStateData \<Rightarrow> JsonMap \<Rightarrow> JsonMap" where
  "ServiceStateData_toJson S c json =
     JN_TO (to_i32 S) ''protect'' (ServiceStateData_protect c)
     (JN_TO (to_i32 S) ''status'' (ServiceStateData_status c)
     (JN_TO (to_str S) ''name'' (ServiceStateData_name c) json))"

record LowPowerSwitchParameter =
  LowPowerSwitchParameter_swit :: "32 word"

definition LowPowerSwitchParameter_init :: LowPowerSwitchParameter where
  "LowPowerSwitchParameter_init = \<lparr>LowPowerSwitchParameter_swit = 0\<rparr>"

definition LowPowerSwitchParameter_fromJson :: "scalars \<Rightarrow> JsonMap \<Rightarrow> LowPowerSwitchParameter \<Rightarrow> cast_error + LowPowerSwitchParameter" where
  "LowPowerSwitchParameter_fromJson S json c =
     bind_res (JN_FROM (from_i32 S) json ''switch'' (LowPowerSwitchParameter_swit c)) (\<lambda>v0.
     Inr (c\<lparr>LowPowerSwitchParameter_swit := v0\<rparr>))"

definition LowPowerSwitchParameter_toJson :: "scalars \<Rightarrow> LowPowerSwitchParameter \<Rightarrow> JsonMap \<Rightarrow> JsonMap" where
  "LowPowerSwitchParameter_toJson S c json =
     JN_TO (to_i32 S) ''switch'' (LowPowerSwitchParameter_swit c) json"

record LowPowerStatusData =
  LowPowerStatusData_status :: "32 word"

definition LowPowerStatusData_init :: LowPowerStatusData where
  "LowPowerStatusData_init = \<lparr>LowPowerStatusData_status = 0\<rparr>"

definition LowPowerStatusData_fromJson :: "scalars \<Rightarrow> JsonMap \<Rightarrow> LowPowerStatusData \<Rightarrow> cast_error + LowPowerStatusData" where
  "LowPowerStatusData_fromJson S json c =
     bind_res (JN_FROM (from_i32 S) json ''status'' (LowPowerStatusData_status c)) (\<lambda>v0.
     Inr (c\<lparr>LowPowerStatusData_status := v0\<rparr>))"

definition LowPowerStatusData_toJson :: "scalars \<Rightarrow> LowPowerStatusData \<Rightarrow> JsonMap \<Rightarrow> JsonMap" where
  "LowPowerStatusData_toJson S c json =
     JN_TO (to_i32 S) ''status'' (LowPowerStatusData_status c) json"

record JsonizeSilent =
  Silent_silent :: "bool"

definition JsonizeSilent_init :: JsonizeSilent where
  "JsonizeSilent_init = \<lparr>Silent_silent = False\<rparr>"

definition JsonizeSilent_fromJson :: "scalars \<Rightarrow> JsonMap \<Rightarrow> JsonizeSilent \<Rightarrow> cast_error + JsonizeSilent" where
  "JsonizeSilent_fromJson S json c =
     bind_res (JN_FROM (from_bool S) json ''silent'' (Silent_silent c)) (\<lambda>v0.
     Inr (c\<lparr>Silent_silent := v0\<rparr>))"

definition JsonizeSilent_toJson :: "scalars \<Rightarrow> JsonizeSilent \<Rightarrow> JsonMap \<Rightarrow> JsonMap" where
  "JsonizeSilent_toJson S c json =
     JN_TO (to_bool S) ''silent'' (Silent_silent c) json"

record ObstaclesAvoidSwitchSetParameter =
  ObstaclesAvoidSwitchSetParameter_mEnable :: "bool"

definition ObstaclesAvoidSwitchSetParameter_init :: ObstaclesAvoidSwitchSetParameter where
  "ObstaclesAvoidSwitchSetParameter_init = \<lparr>ObstaclesAvoidSwitchSetParameter_mEnable = True\<rparr>"

definition ObstaclesAvoidSwitchSetParameter_fromJson :: "scalars \<Rightarrow> JsonMap \<Rightarrow> ObstaclesAvoidSwitchSetParameter \<Rightarrow> cast_error + ObstaclesAvoidSwitchSetParameter" where
  "ObstaclesAvoidSwitchSetParameter_fromJson S json c =
     bind_res (JN_FROM (from_bool S) json ''enable'' (ObstaclesAvoidSwitchSetParameter_mEnable c)) (\<lambda>v0.
     Inr (c\<lparr>ObstaclesAvoidSwitchSetParameter_mEnable := v0\<rparr>))"

definition ObstaclesAvoidSwitchSetParameter_toJson :: "scalars \<Rightarrow> ObstaclesAvoidSwitchSetParameter \<Rightarrow> JsonMap \<Rightarrow> JsonMap" where
  "ObstaclesAvoidSwitchSetParameter_toJson S c json =
     JN_TO (to_bool S) ''enable'' (ObstaclesAvoidSwitchSetParameter_mEnable c) json"

record ObstaclesAvoidSwitchGetData =
  ObstaclesAvoidSwitchGetData_mEnable :: "bool"

definition ObstaclesAvoidSwitchGetData_init :: ObstaclesAvoidSwitchGetData where
  "ObstaclesAvoidSwitchGetData_init = \<lparr>ObstaclesAvoidSwitchGetData_mEnable = True\<rparr>"

definition ObstaclesAvoidSwitchGetData_fromJson :: "scalars \<Rightarrow> JsonMap \<Rightarrow> ObstaclesAvoidSwitchGetData \<Rightarrow> cast_error + ObstaclesAvoidSwitchGetData" where
  "ObstaclesAvoidSwitchGetData_fromJson S json c =
     bind_res (JN_FROM (from_bool S) json ''enable'' (ObstaclesAvoidSwitchGetData_mEnable c)) (\<lambda>v0.
     Inr (c\<lparr>ObstaclesAvoidSwitchGetData_mEnable := v0\<rparr>))"

definition ObstaclesAvoidSwitchGetData_toJson :: "scalars \<Rightarrow> ObstaclesAvoidSwitchGetData \<Rightarrow> JsonMap \<Rightarrow> JsonMap" where
  "ObstaclesAvoidSwitchGetData_toJson S c json =
     JN_TO (to_bool S) ''enable'' (ObstaclesAvoidSwitchGetData_mEnable c) json"

record ObstaclesAvoidMoveParameter =
  ObstaclesAvoidMoveParameter_mX :: "real"
  ObstaclesAvoidMoveParameter_mY :: "real"
  ObstaclesAvoidMoveParameter_mYaw :: "real"
  ObstaclesAvoidMoveParameter_mMode :: "32 word"

definition ObstaclesAvoidMoveParameter_init :: ObstaclesAvoidMoveParameter where
  "ObstaclesAvoidMoveParameter_init = \<lparr>ObstaclesAvoidMoveParameter_mX = 0, ObstaclesAvoidMoveParameter_mY = 0, ObstaclesAvoidMoveParameter_mYaw = 0, ObstaclesAvoidMoveParameter_mMode = 0\<rparr>"

definition ObstaclesAvoidMoveParameter_fromJson :: "scalars \<Rightarrow> JsonMap \<Rightarrow> ObstaclesAvoidMoveParameter \<Rightarrow> cast_error + ObstaclesAvoidMoveParameter" where
  "ObstaclesAvoidMoveParameter_fromJson S json c =
     bind_res (JN_FROM (from_float S) json ''x'' (ObstaclesAvoidMoveParameter_mX c)) (\<lambda>v0.
     bind_res (JN_FROM (from_float S) json ''y'' (ObstaclesAvoidMoveParameter_mY c)) (\<lambda>v1.
     bind_res (JN_FROM (from_float S) json ''yaw'' (ObstaclesAvoidMoveParameter_mYaw c)) (\<lambda>v2.
     bind_res (JN_FROM (from_i32 S) json ''mode'' (ObstaclesAvoidMoveParameter_mMode c)) (\<lambda>v3.
     Inr (c\<lparr>ObstaclesAvoidMoveParameter_mX := v0, ObstaclesAvoidMoveParameter_mY := v1, ObstaclesAvoidMoveParameter_mYaw := v2, ObstaclesAvoidMoveParameter_mMode := v3\<rparr>)))))"

definition ObstaclesAvoidMoveParameter_toJson :: "scalars \<Rightarrow> ObstaclesAvoidMoveParameter \<Rightarrow> JsonMap \<Rightarrow> JsonMap" where
  "ObstaclesAvoidMoveParameter_toJson S c json =
     JN_TO (to_i32 S) ''mode'' (ObstaclesAvoidMoveParameter_mMode c)
     (JN_TO (to_float S) ''yaw'' (ObstaclesAvoidMoveParameter_mYaw c)
     (JN_TO (to_float S) ''y'' (ObstaclesAvoidMoveParameter_mY c)
     (JN_TO (to_float S) ''x'' (ObstaclesAvoidMoveParameter_mX c) json)))"

record ObstaclesAvoidRemoteCommandSource =
  ObstaclesAvoidRemoteCommandSource_mIsRemoteCommandsFromApi :: "bool"

definition ObstaclesAvoidRemoteCommandSource_init :: ObstaclesAvoidRemoteCommandSource where
  "ObstaclesAvoidRemoteCommandSource_init = \<lparr>ObstaclesAvoidRemoteCommandSource_mIsRemoteCommandsFromApi = True\<rparr>"

definition ObstaclesAvoidRemoteCommandSource_fromJson :: "scalars \<Rightarrow> JsonMap \<Rightarrow> ObstaclesAvoidRemoteCommandSource \<Rightarrow> cast_error + ObstaclesAvoidRemoteCommandSource" where
  "ObstaclesAvoidRemoteCommandSource_fromJson S json c =
     bind_res (JN_FROM (from_bool S) json ''is_remote_commands_from_api'' (ObstaclesAvoidRemoteCommandSource_mIsRemoteCommandsFromApi c)) (\<lambda>v0.
     Inr (c\<lparr>ObstaclesAvoidRemoteCommandSource_mIsRemoteCommandsFromApi := v0\<rparr>))"

definition ObstaclesAvoidRemoteCommandSource_toJson :: "scalars \<Rightarrow> ObstaclesAvoidRemoteCommandSource \<Rightarrow> JsonMap \<Rightarrow> JsonMap" where
  "ObstaclesAvoidRemoteCommandSource_toJson S c json =
     JN_TO (to_bool S) ''is_remote_commands_from_api'' (ObstaclesAvoidRemoteCommandSource_mIsRemoteCommandsFromApi c) json"

record UtrackSwitchSetParameter =
  UtrackSwitchSetParameter_mEnable :: "32 word"

definition UtrackSwitchSetParameter_init :: UtrackSwitchSetParameter where
  "UtrackSwitchSetParameter_init = \<lparr>UtrackSwitchSetParameter_mEnable = 1\<rparr>"

definition UtrackSwitchSetParameter_fromJson :: "scalars \<Rightarrow> JsonMap \<Rightarrow> UtrackSwitchSetParameter \<Rightarrow> cast_error + UtrackSwitchSetParameter" where
  "UtrackSwitchSetParameter_fromJson S json c =
     bind_res (JN_FROM (from_i32 S) json ''enable'' (UtrackSwitchSetParameter_mEnable c)) (\<lambda>v0.
     Inr (c\<lparr>UtrackSwitchSetParameter_mEnable := v0\<rparr>))"

definition UtrackSwitchSetParameter_toJson :: "scalars \<Rightarrow> UtrackSwitchSetParameter \<Rightarrow> JsonMap \<Rightarrow> JsonMap" where
  "UtrackSwitchSetParameter_toJson S c json =
     JN_TO (to_i32 S) ''enable'' (UtrackSwitchSetParameter_mEnable c) json"

record UtrackSwitchGetData =
  UtrackSwitchGetData_mEnable :: "32 word"

definition UtrackSwitchGetData_init :: UtrackSwitchGetData where
  "UtrackSwitchGetData_init = \<lparr>UtrackSwitchGetData_mEnable = 1\<rparr>"

definition UtrackSwitchGetData_fromJson :: "scalars \<Rightarrow> JsonMap \<Rightarrow> UtrackSwitchGetData \<Rightarrow> cast_error + UtrackSwitchGetData" where
  "UtrackSwitchGetData_fromJson S json c =
     bind_res (JN_FROM (from_i32 S) json ''enable'' (UtrackSwitchGetData_mEnable c)) (\<lambda>v0.
     Inr (c\<lparr>UtrackSwitchGetData_mEnable := v0\<rparr>))"

definition UtrackSwitchGetData_toJson :: "scalars \<Rightarrow> UtrackSwitchGetData \<Rightarrow> JsonMap \<Rightarrow> JsonMap" where
  "UtrackSwitchGetData_toJson S c json =
     JN_TO (to_i32 S) ''enable'' (UtrackSwitchGetData_mEnable c) json"

record JsonizeDataVecFloat =
  DataVecFloat_data :: "real list"

definition JsonizeDataVecFloat_init :: JsonizeDataVecFloat where
  "JsonizeDataVecFloat_init = \<lparr>DataVecFloat_data = []\<rparr>"

definition JsonizeDataVecFloat_fromJson :: "scalars \<Rightarrow> JsonMap \<Rightarrow> JsonizeDataVecFloat \<Rightarrow> cast_error + JsonizeDataVecFloat" where
  "JsonizeDataVecFloat_fromJson S json c =
     bind_res (JN_FROM (FromAny_vector (from_float S) 0) json ''data'' (DataVecFloat_data c)) (\<lambda>v0.
     Inr (c\<lparr>DataVecFloat_data := v0\<rparr>))"

definition JsonizeDataVecFloat_toJson :: "scalars \<Rightarrow> JsonizeDataVecFloat \<Rightarrow> JsonMap \<Rightarrow> JsonMap" where
  "JsonizeDataVecFloat_toJson S c json =
     JN_TO (ToAny_vector (to_float S)) ''data'' (DataVecFloat_data c) json"

record JsonizeVelocityCommand =
  VelocityCommand_velocity :: "real list"
  VelocityCommand_duration :: "real"

definition JsonizeVelocityCommand_fromJson :: "scalars \<Rightarrow> JsonMap \<Rightarrow> JsonizeVelocityCommand \<Rightarrow> cast_error + JsonizeVelocityCommand" where
  "JsonizeVelocityCommand_fromJson S json c =
     bind_res (JN_FROM (FromAny_vector (from_float S) 0) json ''velocity'' (VelocityCommand_velocity c)) (\<lambda>v0.
     bind_res (JN_FROM (from_float S) json ''duration'' (VelocityCommand_duration c)) (\<lambda>v1.
     Inr (c\<lparr>VelocityCommand_velocity := v0, VelocityCommand_duration := v1\<rparr>)))"

definition JsonizeVelocityCommand_toJson :: "scalars \<Rightarrow> JsonizeVelocityCommand \<Rightarrow> JsonMap \<Rightarrow> JsonMap" where
  "JsonizeVelocityCommand_toJson S c json =
     JN_TO (to_float S) ''duration'' (VelocityCommand_duration c)
     (JN_TO (ToAny_vector (to_float S)) ''velocity'' (VelocityCommand_velocity c) json)"

record JsonizeTargetPos =
  TargetPos_x :: "real"
  TargetPos_y :: "real"
  TargetPos_yaw :: "real"
  TargetPos_relative :: "bool"

definition JsonizeTargetPos_fromJson :: "scalars \<Rightarrow> JsonMap \<Rightarrow> JsonizeTargetPos \<Rightarrow> cast_error + JsonizeTargetPos" where
  "JsonizeTargetPos_fromJson S json c =
     bind_res (JN_FROM (from_float S) json ''x'' (TargetPos_x c)) (\<lambda>v0.
     bind_res (JN_FROM (from_float S) json ''y'' (TargetPos_y c)) (\<lambda>v1.
     bind_res (JN_FROM (from_float S) json ''yaw'' (TargetPos_yaw c)) (\<lambda>v2.
     bind_res (JN_FROM (from_bool S) json ''relative'' (TargetPos_relative c)) (\<lambda>v3.
     Inr (c\<lparr>TargetPos_x := v0, TargetPos_y := v1, TargetPos_yaw := v2, TargetPos_relative := v3\<rparr>)))))"

definition JsonizeTargetPos_toJson :: "scalars \<Rightarrow> JsonizeTargetPos \<Rightarrow> JsonMap \<Rightarrow> JsonMap" where
  "JsonizeTargetPos_toJson S c json =
     JN_TO (to_bool S) ''relative'' (TargetPos_relative c)
     (JN_TO (to_float S) ''yaw'' (TargetPos_yaw c)
     (JN_TO (to_float S) ''y'' (TargetPos_y c)
     (JN_TO (to_float S) ''x'' (TargetPos_x c) json)))"

record Test =
  Test_x :: "32 word"
  Test_y :: "32 word"
  Test_z :: "32 word"

definition Test_init :: Test where
  "Test_init = \<lparr>Test_x = 0, Test_y = 0, Test_z = 0\<rparr>"

definition Test_fromJson :: "scalars \<Rightarrow> JsonMap \<Rightarrow> Test \<Rightarrow> cast_error + Test" where
  "Test_fromJson S json c =
     bind_res (JN_FROM (from_i32 S) json ''x'' (Test_x c)) (\<lambda>v0.
     bind_res (JN_FROM (from_i32 S) json ''y'' (Test_y c)) (\<lambda>v1.
     bind_res (JN_FROM (from_i32 S) json ''z'' (Test_z c)) (\<lambda>v2.
     Inr (c\<lparr>Test_x := v0, Test_y := v1, Test_z := v2\<rparr>))))"

definition Test_toJson :: "scalars \<Rightarrow> Test \<Rightarrow> JsonMap \<Rightarrow> JsonMap" where
  "Test_toJson S c json =
     JN_TO (to_i32 S) ''z'' (Test_z c)
     (JN_TO (to_i32 S) ''y'' (Test_y c)
     (JN_TO (to_i32 S) ''x'' (Test_x c) json))"

section \<open>Classes with a rule of their own\<close>

text \<open>The key under which the value is stored is itself a member and is not read back.\<close>

record JsonizeCommObjInt =
  CommObjInt_value :: "32 word"
  CommObjInt_name :: string

definition JsonizeCommObjInt_init :: JsonizeCommObjInt where
  "JsonizeCommObjInt_init = \<lparr>CommObjInt_value = 0, CommObjInt_name = ''''\<rparr>"

definition JsonizeCommObjInt_fromJson :: "scalars \<Rightarrow> JsonMap \<Rightarrow> JsonizeCommObjInt \<Rightarrow> cast_error + JsonizeCommObjInt" where
  "JsonizeCommObjInt_fromJson S json c =
     bind_res (JN_FROM (from_i32 S) json (CommObjInt_name c) (CommObjInt_value c)) (\<lambda>v.
     Inr (c\<lparr>CommObjInt_value := v\<rparr>))"

definition JsonizeCommObjInt_toJson :: "scalars \<Rightarrow> JsonizeCommObjInt \<Rightarrow> JsonMap \<Rightarrow> JsonMap" where
  "JsonizeCommObjInt_toJson S c json = JN_TO (to_i32 S) (CommObjInt_name c) (CommObjInt_value c) json"

text \<open>
  A nested object goes through the library's overloads for \<open>Jsonize\<close> objects, which are handed the
  member functions of the nested class.
\<close>

record ConfigMetaData =
  ConfigMetaData_meta :: JsonizeConfigMeta

type_synonym 'o from_obj = "(JsonMap \<Rightarrow> 'o \<Rightarrow> cast_error + 'o) \<Rightarrow> 'o from_any"
type_synonym 'o to_obj = "('o \<Rightarrow> JsonMap \<Rightarrow> JsonMap) \<Rightarrow> 'o to_any"

definition ConfigMetaData_fromJson :: "scalars \<Rightarrow> JsonizeConfigMeta from_obj \<Rightarrow> JsonMap \<Rightarrow> ConfigMetaData \<Rightarrow> cast_error + ConfigMetaData" where
  "ConfigMetaData_fromJson S fromObj json c =
     bind_res (JN_FROM (fromObj (JsonizeConfigMeta_fromJson S)) json ''meta'' (ConfigMetaData_meta c)) (\<lambda>v.
     Inr (c\<lparr>ConfigMetaData_meta := v\<rparr>))"

definition ConfigMetaData_toJson :: "scalars \<Rightarrow> JsonizeConfigMeta to_obj \<Rightarrow> ConfigMetaData \<Rightarrow> JsonMap \<Rightarrow> JsonMap" where
  "ConfigMetaData_toJson S toObj c json = JN_TO (toObj (JsonizeConfigMeta_toJson S)) ''meta'' (ConfigMetaData_meta c) json"

text \<open>The form is optional in both directions.\<close>

record JsonizeModeName =
  ModeName_name :: string
  ModeName_form :: string

definition JsonizeModeName_init :: JsonizeModeName where
  "JsonizeModeName_init = \<lparr>ModeName_name = '''', ModeName_form = ''''\<rparr>"

definition JsonizeModeName_fromJson :: "scalars \<Rightarrow> JsonMap \<Rightarrow> JsonizeModeName \<Rightarrow> cast_error + JsonizeModeName" where
  "JsonizeModeName_fromJson S json c =
     bind_res (JN_FROM (from_str S) json ''name'' (ModeName_name c)) (\<lambda>v0.
     bind_res (if map_of json ''form'' \<noteq> None then JN_FROM (from_str S) json ''form'' (ModeName_form c)
               else Inr (ModeName_form c)) (\<lambda>v1.
     Inr (c\<lparr>ModeName_name := v0, ModeName_form := v1\<rparr>)))"

definition JsonizeModeName_toJson :: "scalars \<Rightarrow> JsonizeModeName \<Rightarrow> JsonMap \<Rightarrow> JsonMap" where
  "JsonizeModeName_toJson S c json =
     (let json = JN_TO (to_str S) ''name'' (ModeName_name c) json
      in if ModeName_form c \<noteq> [] then JN_TO (to_str S) ''form'' (ModeName_form c) json else json)"

text \<open>The audio parameters are only written; their \<open>fromJson\<close> reads nothing.\<close>

record TtsMakerParameter =
  Tts_index :: "32 word"
  Tts_speaker_id :: u16
  Tts_text :: string

definition TtsMakerParameter_init :: TtsMakerParameter where
  "TtsMakerParameter_init = \<lparr>Tts_index = 0, Tts_speaker_id = 0, Tts_text = ''''\<rparr>"

definition TtsMakerParameter_fromJson :: "JsonMap \<Rightarrow> TtsMakerParameter \<Rightarrow> cast_error + TtsMakerParameter" where
  "TtsMakerParameter_fromJson json c = Inr c"

definition TtsMakerParameter_toJson :: "scalars \<Rightarrow> TtsMakerParameter \<Rightarrow> JsonMap \<Rightarrow> JsonMap" where
  "TtsMakerParameter_toJson S c json =
     JN_TO (to_str S) ''text'' (Tts_text c)
     (JN_TO (to_u16 S) ''speaker_id'' (Tts_speaker_id c)
     (JN_TO (to_i32 S) ''index'' (Tts_index c) json))"

record PlayStreamParameter =
  PlayStream_app_name :: string
  PlayStream_stream_id :: string

definition PlayStreamParameter_toJson :: "scalars \<Rightarrow> PlayStreamParameter \<Rightarrow> JsonMap \<Rightarrow> JsonMap" where
  "PlayStreamParameter_toJson S c json =
     JN_TO (to_str S) ''stream_id'' (PlayStream_stream_id c)
     (JN_TO (to_str S) ''app_name'' (PlayStream_app_name c) json)"

record PlayStopParameter =
  PlayStop_app_name :: string

definition PlayStopParameter_toJson :: "scalars \<Rightarrow> PlayStopParameter \<Rightarrow> JsonMap \<Rightarrow> JsonMap" where
  "PlayStopParameter_toJson S c json = JN_TO (to_str S) ''app_name'' (PlayStop_app_name c) json"

record LedControlParameter =
  Led_R :: u8
  Led_G :: u8
  Led_B :: u8

definition LedControlParameter_toJson :: "scalars \<Rightarrow> LedControlParameter \<Rightarrow> JsonMap \<Rightarrow> JsonMap" where
  "LedControlParameter_toJson S c json =
     JN_TO (to_u8 S) ''B'' (Led_B c) (JN_TO (to_u8 S) ''G'' (Led_G c) (JN_TO (to_u8 S) ''R'' (Led_R c) json))"

section \<open>Round trips of the single classes\<close>

lemma JsonizeFlagBool_round:
  assumes "scalars_ok S"
  shows "JsonizeFlagBool_fromJson S (JsonizeFlagBool_toJson S c json) d = Inr c"
  using assms by (simp add: JsonizeFlagBool_fromJson_def JsonizeFlagBool_toJson_def JN_FROM_def scalars_okD)

lemma JsonizeDataBool_round:
  assumes "scalars_ok S"
  shows "JsonizeDataBool_fromJson S (JsonizeDataBool_toJson S c json) d = Inr c"
  using assms by (simp add: JsonizeDataBool_fromJson_def JsonizeDataBool_toJson_def JN_FROM_def scalars_okD)

lemma JsonizeDataInt_round:
  assumes "scalars_ok S"
  shows "JsonizeDataInt_fromJson S (JsonizeDataInt_toJson S c json) d = Inr c"
  using assms by (simp add: JsonizeDataInt_fromJson_def JsonizeDataInt_toJson_def JN_FROM_def scalars_okD)

lemma JsonizeDataFloat_round:
  assumes "scalars_ok S" and "rep32 (DataFloat_data c)"
  shows "JsonizeDataFloat_fromJson S (JsonizeDataFloat_toJson S c json) d = Inr c"
  using assms by (simp add: JsonizeDataFloat_fromJson_def JsonizeDataFloat_toJson_def JN_FROM_def scalars_okD)

lemma JsonizeDataDouble_round:
  assumes "scalars_ok S" and "rep64 (DataDouble_data c)"
  shows "JsonizeDataDouble_fromJson S (JsonizeDataDouble_toJson S c json) d = Inr c"
  using assms by (simp add: JsonizeDataDouble_fromJson_def JsonizeDataDouble_toJson_def JN_FROM_def scalars_okD)

lemma JsonizeDataString_round:
  assumes "scalars_ok S"
  shows "JsonizeDataString_fromJson S (JsonizeDataString_toJson S c json) d = Inr c"
  using assms by (simp add: JsonizeDataString_fromJson_def JsonizeDataString_toJson_def JN_FROM_def scalars_okD)

lemma JsonizeVec3_round:
  assumes "scalars_ok S" and "rep32 (Vec3_x c)" and "rep32 (Vec3_y c)" and "rep32 (Vec3_z c)"
  shows "JsonizeVec3_fromJson S (JsonizeVec3_toJson S c json) d = Inr c"
  using assms by (simp add: JsonizeVec3_fromJson_def JsonizeVec3_toJson_def JN_FROM_def scalars_okD)

lemma JsonizeQuat_round:
  assumes "scalars_ok S" and "rep32 (Quat_x c)" and "rep32 (Quat_y c)" and "rep32 (Quat_z c)" and "rep32 (Quat_w c)"
  shows "JsonizeQuat_fromJson S (JsonizeQuat_toJson S c json) d = Inr c"
  using assms by (simp add: JsonizeQuat_fromJson_def JsonizeQuat_toJson_def JN_FROM_def scalars_okD)

lemma JsonizePathPoint_round:
  assumes "scalars_ok S" and "rep32 (PathPoint_timeFromStart c)" and "rep32 (PathPoint_x c)" and "rep32 (PathPoint_y c)" and "rep32 (PathPoint_yaw c)" and "rep32 (PathPoint_vx c)" and "rep32 (PathPoint_vy c)" and "rep32 (PathPoint_vyaw c)"
  shows "JsonizePathPoint_fromJson S (JsonizePathPoint_toJson S c json) d = Inr c"
  using assms by (simp add: JsonizePathPoint_fromJson_def JsonizePathPoint_toJson_def JN_FROM_def scalars_okD)

lemma JsonizeConfigMeta_round:
  assumes "scalars_ok S"
  shows "JsonizeConfigMeta_fromJson S (JsonizeConfigMeta_toJson S c json) d = Inr c"
  using assms by (simp add: JsonizeConfigMeta_fromJson_def JsonizeConfigMeta_toJson_def JN_FROM_def scalars_okD)

lemma ConfigSetParameter_round:
  assumes "scalars_ok S"
  shows "ConfigSetParameter_fromJson S (ConfigSetParameter_toJson S c json) d = Inr c"
  using assms by (simp add: ConfigSetParameter_fromJson_def ConfigSetParameter_toJson_def JN_FROM_def scalars_okD)

lemma ConfigGetParameter_round:
  assumes "scalars_ok S"
  shows "ConfigGetParameter_fromJson S (ConfigGetParameter_toJson S c json) d = Inr c"
  using assms by (simp add: ConfigGetParameter_fromJson_def ConfigGetParameter_toJson_def JN_FROM_def scalars_okD)

lemma ConfigGetData_round:
  assumes "scalars_ok S"
  shows "ConfigGetData_fromJson S (ConfigGetData_toJson S c json) d = Inr c"
  using assms by (simp add: ConfigGetData_fromJson_def ConfigGetData_toJson_def JN_FROM_def scalars_okD)

lemma ConfigDelParameter_round:
  assumes "scalars_ok S"
  shows "ConfigDelParameter_fromJson S (ConfigDelParameter_toJson S c json) d = Inr c"
  using assms by (simp add: ConfigDelParameter_fromJson_def ConfigDelParameter_toJson_def JN_FROM_def scalars_okD)

lemma ConfigMetaParameter_round:
  assumes "scalars_ok S"
  shows "ConfigMetaParameter_fromJson S (ConfigMetaParameter_toJson S c json) d = Inr c"
  using assms by (simp add: ConfigMetaParameter_fromJson_def ConfigMetaParameter_toJson_def JN_FROM_def scalars_okD)

lemma ServiceSwitchParameter_round:
  assumes "scalars_ok S"
  shows "ServiceSwitchParameter_fromJson S (ServiceSwitchParameter_toJson S c json) d = Inr c"
  using assms by (simp add: ServiceSwitchParameter_fromJson_def ServiceSwitchParameter_toJson_def JN_FROM_def scalars_okD)

lemma ServiceSwitchData_round:
  assumes "scalars_ok S"
  shows "ServiceSwitchData_fromJson S (ServiceSwitchData_toJson S c json) d = Inr c"
  using assms by (simp add: ServiceSwitchData_fromJson_def ServiceSwitchData_toJson_def JN_FROM_def scalars_okD)

lemma SetReportFreqParameter_round:
  assumes "scalars_ok S"
  shows "SetReportFreqParameter_fromJson S (SetReportFreqParameter_toJson S c json) d = Inr c"
  using assms by (simp add: SetReportFreqParameter_fromJson_def SetReportFreqParameter_toJson_def JN_FROM_def scalars_okD)

lemma ServiceStateData_round:
  assumes "scalars_ok S"
  shows "ServiceStateData_fromJson S (ServiceStateData_toJson S c json) d = Inr c"
  using assms by (simp add: ServiceStateData_fromJson_def ServiceStateData_toJson_def JN_FROM_def scalars_okD)

lemma LowPowerSwitchParameter_round:
  assumes "scalars_ok S"
  shows "LowPowerSwitchParameter_fromJson S (LowPowerSwitchParameter_toJson S c json) d = Inr c"
  using assms by (simp add: LowPowerSwitchParameter_fromJson_def LowPowerSwitchParameter_toJson_def JN_FROM_def scalars_okD)

lemma LowPowerStatusData_round:
  assumes "scalars_ok S"
  shows "LowPowerStatusData_fromJson S (LowPowerStatusData_toJson S c json) d = Inr c"
  using assms by (simp add: LowPowerStatusData_fromJson_def LowPowerStatusData_toJson_def JN_FROM_def scalars_okD)

lemma JsonizeSilent_round:
  assumes "scalars_ok S"
  shows "JsonizeSilent_fromJson S (JsonizeSilent_toJson S c json) d = Inr c"
  using assms by (simp add: JsonizeSilent_fromJson_def JsonizeSilent_toJson_def JN_FROM_def scalars_okD)

lemma ObstaclesAvoidSwitchSetParameter_round:
  assumes "scalars_ok S"
  shows "ObstaclesAvoidSwitchSetParameter_fromJson S (ObstaclesAvoidSwitchSetParameter_toJson S c json) d = Inr c"
  using assms by (simp add: ObstaclesAvoidSwitchSetParameter_fromJson_def ObstaclesAvoidSwitchSetParameter_toJson_def JN_FROM_def scalars_okD)

lemma ObstaclesAvoidSwitchGetData_round:
  assumes "scalars_ok S"
  shows "ObstaclesAvoidSwitchGetData_fromJson S (ObstaclesAvoidSwitchGetData_toJson S c json) d = Inr c"
  using assms by (simp add: ObstaclesAvoidSwitchGetData_fromJson_def ObstaclesAvoidSwitchGetData_toJson_def JN_FROM_def scalars_okD)

lemma ObstaclesAvoidMoveParameter_round:
  assumes "scalars_ok S" and "rep32 (ObstaclesAvoidMoveParameter_mX c)" and "rep32 (ObstaclesAvoidMoveParameter_mY c)" and "rep32 (ObstaclesAvoidMoveParameter_mYaw c)"
  shows "ObstaclesAvoidMoveParameter_fromJson S (ObstaclesAvoidMoveParameter_toJson S c json) d = Inr c"
  using assms by (simp add: ObstaclesAvoidMoveParameter_fromJson_def ObstaclesAvoidMoveParameter_toJson_def JN_FROM_def scalars_okD)

lemma ObstaclesAvoidRemoteCommandSource_round:
  assumes "scalars_ok S"
  shows "ObstaclesAvoidRemoteCommandSource_fromJson S (ObstaclesAvoidRemoteCommandSource_toJson S c json) d = Inr c"
  using assms by (simp add: ObstaclesAvoidRemoteCommandSource_fromJson_def ObstaclesAvoidRemoteCommandSource_toJson_def JN_FROM_def scalars_okD)

lemma UtrackSwitchSetParameter_round:
  assumes "scalars_ok S"
  shows "UtrackSwitchSetParameter_fromJson S (UtrackSwitchSetParameter_toJson S c json) d = Inr c"
  using assms by (simp add: UtrackSwitchSetParameter_fromJson_def UtrackSwitchSetParameter_toJson_def JN_FROM_def scalars_okD)

lemma UtrackSwitchGetData_round:
  assumes "scalars_ok S"
  shows "UtrackSwitchGetData_fromJson S (UtrackSwitchGetData_toJson S c json) d = Inr c"
  using assms by (simp add: UtrackSwitchGetData_fromJson_def UtrackSwitchGetData_toJson_def JN_FROM_def scalars_okD)

lemma JsonizeDataVecFloat_round:
  assumes "scalars_ok S" and "list_all rep32 (DataVecFloat_data c)" and "DataVecFloat_data d = []"
  shows "JsonizeDataVecFloat_fromJson S (JsonizeDataVecFloat_toJson S c json) d = Inr c"
  using assms by (simp add: JsonizeDataVecFloat_fromJson_def JsonizeDataVecFloat_toJson_def JN_FROM_def scalars_okD any_codec.vector_into [OF scalars_float_codec])

lemma JsonizeVelocityCommand_round:
  assumes "scalars_ok S" and "list_all rep32 (VelocityCommand_velocity c)" and "VelocityCommand_velocity d = []" and "rep32 (VelocityCommand_duration c)"
  shows "JsonizeVelocityCommand_fromJson S (JsonizeVelocityCommand_toJson S c json) d = Inr c"
  using assms by (simp add: JsonizeVelocityCommand_fromJson_def JsonizeVelocityCommand_toJson_def JN_FROM_def scalars_okD any_codec.vector_into [OF scalars_float_codec])

lemma JsonizeTargetPos_round:
  assumes "scalars_ok S" and "rep32 (TargetPos_x c)" and "rep32 (TargetPos_y c)" and "rep32 (TargetPos_yaw c)"
  shows "JsonizeTargetPos_fromJson S (JsonizeTargetPos_toJson S c json) d = Inr c"
  using assms by (simp add: JsonizeTargetPos_fromJson_def JsonizeTargetPos_toJson_def JN_FROM_def scalars_okD)

lemma Test_round:
  assumes "scalars_ok S"
  shows "Test_fromJson S (Test_toJson S c json) d = Inr c"
  using assms by (simp add: Test_fromJson_def Test_toJson_def JN_FROM_def scalars_okD)

lemma JsonizeCommObjInt_round:
  assumes "scalars_ok S" and "CommObjInt_name d = CommObjInt_name c"
  shows "JsonizeCommObjInt_fromJson S (JsonizeCommObjInt_toJson S c json) d = Inr c"
  using assms by (simp add: JsonizeCommObjInt_fromJson_def JsonizeCommObjInt_toJson_def JN_FROM_def scalars_okD)

lemma ConfigMetaData_round:
  assumes "scalars_ok S" and obj: "\<And>frm to x y. fromObj frm (toObj to x) y = frm (to x []) y"
  shows "ConfigMetaData_fromJson S fromObj (ConfigMetaData_toJson S toObj c json) d = Inr c"
  using JsonizeConfigMeta_round [OF assms(1)]
  by (simp add: ConfigMetaData_fromJson_def ConfigMetaData_toJson_def JN_FROM_def obj)

lemma JsonizeModeName_round:
  assumes "scalars_ok S" and "map_of json ''form'' = None"
  shows "JsonizeModeName_fromJson S (JsonizeModeName_toJson S c json) d =
    Inr (c\<lparr>ModeName_form := (if ModeName_form c = [] then ModeName_form d else ModeName_form c)\<rparr>)"
  using assms
  by (simp add: JsonizeModeName_fromJson_def JsonizeModeName_toJson_def JN_FROM_def scalars_okD Let_def)

section \<open>What the message classes guarantee\<close>

text \<open>Every class of \<open>jsonize_type.hpp\<close> reads back what it wrote, into any object and whatever
  else the JSON object holds, provided the library's scalar codecs do and the float members are
  floats; the named integer does so into an object with the same name.\<close>

lemma public_messages_round_trip:
  assumes "scalars_ok S"
  shows "(\<forall>c d json. JsonizeFlagBool_fromJson S (JsonizeFlagBool_toJson S c json) d = Inr c) \<and>
    (\<forall>c d json. JsonizeDataBool_fromJson S (JsonizeDataBool_toJson S c json) d = Inr c) \<and>
    (\<forall>c d json. JsonizeDataInt_fromJson S (JsonizeDataInt_toJson S c json) d = Inr c) \<and>
    (\<forall>c d json. rep32 (DataFloat_data c) \<longrightarrow> JsonizeDataFloat_fromJson S (JsonizeDataFloat_toJson S c json) d = Inr c) \<and>
    (\<forall>c d json. rep64 (DataDouble_data c) \<longrightarrow> JsonizeDataDouble_fromJson S (JsonizeDataDouble_toJson S c json) d = Inr c) \<and>
    (\<forall>c d json. JsonizeDataString_fromJson S (JsonizeDataString_toJson S c json) d = Inr c) \<and>
    (\<forall>c d json. rep32 (Vec3_x c) \<longrightarrow> rep32 (Vec3_y c) \<longrightarrow> rep32 (Vec3_z c) \<longrightarrow> JsonizeVec3_fromJson S (JsonizeVec3_toJson S c json) d = Inr c) \<and>
    (\<forall>c d json. rep32 (Quat_x c) \<longrightarrow> rep32 (Quat_y c) \<longrightarrow> rep32 (Quat_z c) \<longrightarrow> rep32 (Quat_w c) \<longrightarrow> JsonizeQuat_fromJson S (JsonizeQuat_toJson S c json) d = Inr c) \<and>
    (\<forall>c d json. rep32 (PathPoint_timeFromStart c) \<longrightarrow> rep32 (PathPoint_x c) \<longrightarrow> rep32 (PathPoint_y c) \<longrightarrow> rep32 (PathPoint_yaw c) \<longrightarrow> rep32 (PathPoint_vx c) \<longrightarrow> rep32 (PathPoint_vy c) \<longrightarrow> rep32 (PathPoint_vyaw c) \<longrightarrow> JsonizePathPoint_fromJson S (JsonizePathPoint_toJson S c json) d = Inr c) \<and>
    (\<forall>c d json. CommObjInt_name d = CommObjInt_name c \<longrightarrow>
       JsonizeCommObjInt_fromJson S (JsonizeCommObjInt_toJson S c json) d = Inr c)"
  using assms by (intro conjI allI impI JsonizeFlagBool_round JsonizeDataBool_round JsonizeDataInt_round JsonizeDataFloat_round JsonizeDataDouble_round JsonizeDataString_round JsonizeVec3_round JsonizeQuat_round JsonizePathPoint_round JsonizeCommObjInt_round) simp_all



end
