(* ===== verification/Clients.thy ===== *)
theory Clients
  imports Messages
begin

text \<open>
  The client classes implemented in headers: the locomotion clients of the G1 and the H1
  (\<open>g1_loco_client.hpp\<close>, \<open>h1_loco_client.hpp\<close>), the G1 audio client and the G1 arm action client.
  The base class \<open>Client\<close>, with the remote call, and the JSON text functions are precompiled: they
  are the components of \<open>lib\<close>, and \<open>'w\<close> is the state of the world the call acts on.
\<close>

record 'w lib =
  lib_scalars :: scalars
  lib_enc :: "JsonMap \<Rightarrow> string"
  lib_dec :: "string \<Rightarrow> cast_error + JsonMap"
  lib_call :: "int list \<Rightarrow> int \<Rightarrow> string \<Rightarrow> 'w \<Rightarrow> int \<times> string \<times> 'w"
  lib_call_binary :: "int list \<Rightarrow> int \<Rightarrow> string \<Rightarrow> u8 list \<Rightarrow> 'w \<Rightarrow> int \<times> 'w"

record LocoClient =
  lc_api_version :: string
  lc_registered :: "int list"
  continous_move :: bool
  first_shake_hand_stage :: bool

definition LocoClient_new :: LocoClient where
  "LocoClient_new = \<lparr>lc_api_version = [], lc_registered = [], continous_move = False, first_shake_hand_stage = True\<rparr>"

text \<open>
  The registration table belongs to the precompiled base class. The model keeps the log of the
  identifiers handed to it, in order, and gives that log to each call.
\<close>

definition RegistApi :: "int \<Rightarrow> LocoClient \<Rightarrow> LocoClient" where
  "RegistApi apiId c = c\<lparr>lc_registered := lc_registered c @ [apiId]\<rparr>"

text \<open>A call whose reply data is dropped, and reading a reply into an object.\<close>

definition send :: "'w lib \<Rightarrow> LocoClient \<Rightarrow> int \<Rightarrow> string \<Rightarrow> 'w \<Rightarrow> int \<times> 'w" where
  "send L c apiId parameter w = (case lib_call L (lc_registered c) apiId parameter w of (ret, data, w) \<Rightarrow> (ret, w))"

definition from_string :: "'w lib \<Rightarrow> (JsonMap \<Rightarrow> 'o \<Rightarrow> cast_error + 'o) \<Rightarrow> string \<Rightarrow> 'o \<Rightarrow> cast_error + 'o" where
  "from_string L fj s t = bind_res (lib_dec L s) (\<lambda>m. fj m t)"

section \<open>G1 locomotion client\<close>

definition g1_loco_api_ids :: "int list" where
  "g1_loco_api_ids = [7001, 7002, 7003, 7004, 7005, 7006, 7101, 7102, 7103, 7104, 7105, 7106, 7107]"

definition g1_Init :: "LocoClient \<Rightarrow> LocoClient" where
  "g1_Init c = fold RegistApi g1_loco_api_ids (c\<lparr>lc_api_version := ''1.0.0.0''\<rparr>)"

definition g1_GetFsmId :: "'w lib \<Rightarrow> LocoClient \<Rightarrow> 32 word \<Rightarrow> 'w \<Rightarrow> (cast_error + int \<times> 32 word) \<times> 'w" where
  "g1_GetFsmId L c v w = (case lib_call L (lc_registered c) 7001 [] w of (ret, data, w) \<Rightarrow>
     (if ret = 0 then
        bind_res (from_string L (JsonizeDataInt_fromJson (lib_scalars L)) data JsonizeDataInt_init) (\<lambda>json.
          Inr (ret, DataInt_data json))
      else Inr (ret, v), w))"

definition g1_GetFsmMode :: "'w lib \<Rightarrow> LocoClient \<Rightarrow> 32 word \<Rightarrow> 'w \<Rightarrow> (cast_error + int \<times> 32 word) \<times> 'w" where
  "g1_GetFsmMode L c v w = (case lib_call L (lc_registered c) 7002 [] w of (ret, data, w) \<Rightarrow>
     (if ret = 0 then
        bind_res (from_string L (JsonizeDataInt_fromJson (lib_scalars L)) data JsonizeDataInt_init) (\<lambda>json.
          Inr (ret, DataInt_data json))
      else Inr (ret, v), w))"

definition g1_GetBalanceMode :: "'w lib \<Rightarrow> LocoClient \<Rightarrow> 32 word \<Rightarrow> 'w \<Rightarrow> (cast_error + int \<times> 32 word) \<times> 'w" where
  "g1_GetBalanceMode L c v w = (case lib_call L (lc_registered c) 7003 [] w of (ret, data, w) \<Rightarrow>
     (if ret = 0 then
        bind_res (from_string L (JsonizeDataInt_fromJson (lib_scalars L)) data JsonizeDataInt_init) (\<lambda>json.
          Inr (ret, DataInt_data json))
      else Inr (ret, v), w))"

definition g1_GetSwingHeight :: "'w lib \<Rightarrow> LocoClient \<Rightarrow> real \<Rightarrow> 'w \<Rightarrow> (cast_error + int \<times> real) \<times> 'w" where
  "g1_GetSwingHeight L c v w = (case lib_call L (lc_registered c) 7004 [] w of (ret, data, w) \<Rightarrow>
     (if ret = 0 then
        bind_res (from_string L (JsonizeDataFloat_fromJson (lib_scalars L)) data JsonizeDataFloat_init) (\<lambda>json.
          Inr (ret, DataFloat_data json))
      else Inr (ret, v), w))"

definition g1_GetStandHeight :: "'w lib \<Rightarrow> LocoClient \<Rightarrow> real \<Rightarrow> 'w \<Rightarrow> (cast_error + int \<times> real) \<times> 'w" where
  "g1_GetStandHeight L c v w = (case lib_call L (lc_registered c) 7005 [] w of (ret, data, w) \<Rightarrow>
     (if ret = 0 then
        bind_res (from_string L (JsonizeDataFloat_fromJson (lib_scalars L)) data JsonizeDataFloat_init) (\<lambda>json.
          Inr (ret, DataFloat_data json))
      else Inr (ret, v), w))"

definition g1_GetPhase :: "'w lib \<Rightarrow> LocoClient \<Rightarrow> real list \<Rightarrow> 'w \<Rightarrow> (cast_error + int \<times> real list) \<times> 'w" where
  "g1_GetPhase L c v w = (case lib_call L (lc_registered c) 7006 [] w of (ret, data, w) \<Rightarrow>
     (if ret = 0 then
        bind_res (from_string L (JsonizeDataVecFloat_fromJson (lib_scalars L)) data JsonizeDataVecFloat_init) (\<lambda>json.
          Inr (ret, DataVecFloat_data json))
      else Inr (ret, v), w))"

definition g1_SetFsmId :: "'w lib \<Rightarrow> LocoClient \<Rightarrow> 32 word \<Rightarrow> 'w \<Rightarrow> int \<times> 'w" where
  "g1_SetFsmId L c fsm_id w =
     send L c 7101 (lib_enc L (JsonizeDataInt_toJson (lib_scalars L) \<lparr>DataInt_data = fsm_id\<rparr> [])) w"

definition g1_SetBalanceMode :: "'w lib \<Rightarrow> LocoClient \<Rightarrow> 32 word \<Rightarrow> 'w \<Rightarrow> int \<times> 'w" where
  "g1_SetBalanceMode L c balance_mode w =
     send L c 7102 (lib_enc L (JsonizeDataInt_toJson (lib_scalars L) \<lparr>DataInt_data = balance_mode\<rparr> [])) w"

definition g1_SetSwingHeight :: "'w lib \<Rightarrow> LocoClient \<Rightarrow> real \<Rightarrow> 'w \<Rightarrow> int \<times> 'w" where
  "g1_SetSwingHeight L c swing_height w =
     send L c 7103 (lib_enc L (JsonizeDataFloat_toJson (lib_scalars L) \<lparr>DataFloat_data = swing_height\<rparr> [])) w"

definition g1_SetStandHeight :: "'w lib \<Rightarrow> LocoClient \<Rightarrow> real \<Rightarrow> 'w \<Rightarrow> int \<times> 'w" where
  "g1_SetStandHeight L c stand_height w =
     send L c 7104 (lib_enc L (JsonizeDataFloat_toJson (lib_scalars L) \<lparr>DataFloat_data = stand_height\<rparr> [])) w"

definition g1_SetVelocity :: "'w lib \<Rightarrow> LocoClient \<Rightarrow> real \<Rightarrow> real \<Rightarrow> real \<Rightarrow> real \<Rightarrow> 'w \<Rightarrow> int \<times> 'w" where
  "g1_SetVelocity L c vx vy omega duration w =
     send L c 7105 (lib_enc L (JsonizeVelocityCommand_toJson (lib_scalars L)
       \<lparr>VelocityCommand_velocity = [vx, vy, omega], VelocityCommand_duration = duration\<rparr> [])) w"

definition g1_SetTaskId :: "'w lib \<Rightarrow> LocoClient \<Rightarrow> 32 word \<Rightarrow> 'w \<Rightarrow> int \<times> 'w" where
  "g1_SetTaskId L c task_id w =
     send L c 7106 (lib_enc L (JsonizeDataInt_toJson (lib_scalars L) \<lparr>DataInt_data = task_id\<rparr> [])) w"

definition g1_SetSpeedMode :: "'w lib \<Rightarrow> LocoClient \<Rightarrow> 32 word \<Rightarrow> 'w \<Rightarrow> int \<times> 'w" where
  "g1_SetSpeedMode L c speed_mode w =
     send L c 7107 (lib_enc L (JsonizeDataInt_toJson (lib_scalars L) \<lparr>DataInt_data = speed_mode\<rparr> [])) w"

definition g1_Damp :: "'w lib \<Rightarrow> LocoClient \<Rightarrow> 'w \<Rightarrow> int \<times> 'w" where
  "g1_Damp L c w = g1_SetFsmId L c 1 w"

definition g1_Start :: "'w lib \<Rightarrow> LocoClient \<Rightarrow> 'w \<Rightarrow> int \<times> 'w" where
  "g1_Start L c w = g1_SetFsmId L c 500 w"

definition g1_Squat :: "'w lib \<Rightarrow> LocoClient \<Rightarrow> 'w \<Rightarrow> int \<times> 'w" where
  "g1_Squat L c w = g1_SetFsmId L c 2 w"

definition g1_Sit :: "'w lib \<Rightarrow> LocoClient \<Rightarrow> 'w \<Rightarrow> int \<times> 'w" where
  "g1_Sit L c w = g1_SetFsmId L c 3 w"

definition g1_StandUp :: "'w lib \<Rightarrow> LocoClient \<Rightarrow> 'w \<Rightarrow> int \<times> 'w" where
  "g1_StandUp L c w = g1_SetFsmId L c 4 w"

definition g1_ZeroTorque :: "'w lib \<Rightarrow> LocoClient \<Rightarrow> 'w \<Rightarrow> int \<times> 'w" where
  "g1_ZeroTorque L c w = g1_SetFsmId L c 0 w"

definition g1_StopMove :: "'w lib \<Rightarrow> LocoClient \<Rightarrow> 'w \<Rightarrow> int \<times> 'w" where
  "g1_StopMove L c w = g1_SetVelocity L c 0 0 0 1 w"

definition g1_HighStand :: "'w lib \<Rightarrow> LocoClient \<Rightarrow> 'w \<Rightarrow> int \<times> 'w" where
  "g1_HighStand L c w = g1_SetStandHeight L c (rnd32 4294967295) w"

definition g1_LowStand :: "'w lib \<Rightarrow> LocoClient \<Rightarrow> 'w \<Rightarrow> int \<times> 'w" where
  "g1_LowStand L c w = g1_SetStandHeight L c (rnd32 0) w"

definition g1_Move_flag :: "'w lib \<Rightarrow> LocoClient \<Rightarrow> real \<Rightarrow> real \<Rightarrow> real \<Rightarrow> bool \<Rightarrow> 'w \<Rightarrow> int \<times> 'w" where
  "g1_Move_flag L c vx vy vyaw continous w = g1_SetVelocity L c vx vy vyaw (if continous then 864000 else 1) w"

definition g1_Move :: "'w lib \<Rightarrow> LocoClient \<Rightarrow> real \<Rightarrow> real \<Rightarrow> real \<Rightarrow> 'w \<Rightarrow> int \<times> 'w" where
  "g1_Move L c vx vy vyaw w = g1_Move_flag L c vx vy vyaw (continous_move c) w"

definition g1_BalanceStand :: "'w lib \<Rightarrow> LocoClient \<Rightarrow> 'w \<Rightarrow> int \<times> 'w" where
  "g1_BalanceStand L c w = g1_SetBalanceMode L c 0 w"

definition g1_ContinuousGait :: "'w lib \<Rightarrow> LocoClient \<Rightarrow> bool \<Rightarrow> 'w \<Rightarrow> int \<times> 'w" where
  "g1_ContinuousGait L c flag w = g1_SetBalanceMode L c (if flag then 1 else 0) w"

definition g1_SwitchMoveMode :: "bool \<Rightarrow> LocoClient \<Rightarrow> int \<times> LocoClient" where
  "g1_SwitchMoveMode flag c = (0, c\<lparr>continous_move := flag\<rparr>)"

definition g1_WaveHand :: "'w lib \<Rightarrow> LocoClient \<Rightarrow> bool \<Rightarrow> 'w \<Rightarrow> int \<times> 'w" where
  "g1_WaveHand L c turn_flag w = g1_SetTaskId L c (if turn_flag then 1 else 0) w"

definition g1_ShakeHand :: "'w lib \<Rightarrow> LocoClient \<Rightarrow> int \<Rightarrow> 'w \<Rightarrow> int \<times> LocoClient \<times> 'w" where
  "g1_ShakeHand L c stage w =
     (if stage = 0 then
        let c = c\<lparr>first_shake_hand_stage := False\<rparr>; (ret, w) = g1_SetTaskId L c 2 w in (ret, c, w)
      else if stage = 1 then
        let c = c\<lparr>first_shake_hand_stage := True\<rparr>; (ret, w) = g1_SetTaskId L c 3 w in (ret, c, w)
      else
        let c = c\<lparr>first_shake_hand_stage := \<not> first_shake_hand_stage c\<rparr>;
            (ret, w) = g1_SetTaskId L c (if first_shake_hand_stage c then 3 else 2) w in (ret, c, w))"

section \<open>H1 locomotion client\<close>

definition h1_loco_api_ids :: "int list" where
  "h1_loco_api_ids = [8001, 8002, 8003, 8004, 8005, 8006, 8101, 8102, 8103, 8104, 8105, 8106, 8107, 8201, 8202, 8203, 8204]"

definition h1_Init :: "LocoClient \<Rightarrow> LocoClient" where
  "h1_Init c = fold RegistApi h1_loco_api_ids (c\<lparr>lc_api_version := ''2.0.0.0''\<rparr>)"

definition h1_GetFsmId :: "'w lib \<Rightarrow> LocoClient \<Rightarrow> 32 word \<Rightarrow> 'w \<Rightarrow> (cast_error + int \<times> 32 word) \<times> 'w" where
  "h1_GetFsmId L c v w = (case lib_call L (lc_registered c) 8001 [] w of (ret, data, w) \<Rightarrow>
     (bind_res (from_string L (JsonizeDataInt_fromJson (lib_scalars L)) data JsonizeDataInt_init) (\<lambda>json.
        Inr (ret, DataInt_data json)), w))"

definition h1_GetFsmMode :: "'w lib \<Rightarrow> LocoClient \<Rightarrow> 32 word \<Rightarrow> 'w \<Rightarrow> (cast_error + int \<times> 32 word) \<times> 'w" where
  "h1_GetFsmMode L c v w = (case lib_call L (lc_registered c) 8002 [] w of (ret, data, w) \<Rightarrow>
     (bind_res (from_string L (JsonizeDataInt_fromJson (lib_scalars L)) data JsonizeDataInt_init) (\<lambda>json.
        Inr (ret, DataInt_data json)), w))"

definition h1_GetBalanceMode :: "'w lib \<Rightarrow> LocoClient \<Rightarrow> 32 word \<Rightarrow> 'w \<Rightarrow> (cast_error + int \<times> 32 word) \<times> 'w" where
  "h1_GetBalanceMode L c v w = (case lib_call L (lc_registered c) 8003 [] w of (ret, data, w) \<Rightarrow>
     (bind_res (from_string L (JsonizeDataInt_fromJson (lib_scalars L)) data JsonizeDataInt_init) (\<lambda>json.
        Inr (ret, DataInt_data json)), w))"

definition h1_GetSwingHeight :: "'w lib \<Rightarrow> LocoClient \<Rightarrow> real \<Rightarrow> 'w \<Rightarrow> (cast_error + int \<times> real) \<times> 'w" where
  "h1_GetSwingHeight L c v w = (case lib_call L (lc_registered c) 8004 [] w of (ret, data, w) \<Rightarrow>
     (bind_res (from_string L (JsonizeDataFloat_fromJson (lib_scalars L)) data JsonizeDataFloat_init) (\<lambda>json.
        Inr (ret, DataFloat_data json)), w))"

definition h1_GetStandHeight :: "'w lib \<Rightarrow> LocoClient \<Rightarrow> real \<Rightarrow> 'w \<Rightarrow> (cast_error + int \<times> real) \<times> 'w" where
  "h1_GetStandHeight L c v w = (case lib_call L (lc_registered c) 8005 [] w of (ret, data, w) \<Rightarrow>
     (bind_res (from_string L (JsonizeDataFloat_fromJson (lib_scalars L)) data JsonizeDataFloat_init) (\<lambda>json.
        Inr (ret, DataFloat_data json)), w))"

definition h1_GetPhase :: "'w lib \<Rightarrow> LocoClient \<Rightarrow> real list \<Rightarrow> 'w \<Rightarrow> (cast_error + int \<times> real list) \<times> 'w" where
  "h1_GetPhase L c v w = (case lib_call L (lc_registered c) 8006 [] w of (ret, data, w) \<Rightarrow>
     (bind_res (from_string L (JsonizeDataVecFloat_fromJson (lib_scalars L)) data JsonizeDataVecFloat_init) (\<lambda>json.
        Inr (ret, DataVecFloat_data json)), w))"

definition h1_EnableOdom :: "'w lib \<Rightarrow> LocoClient \<Rightarrow> 'w \<Rightarrow> int \<times> 'w" where
  "h1_EnableOdom L c w = send L c 8201 [] w"

definition h1_DisableOdom :: "'w lib \<Rightarrow> LocoClient \<Rightarrow> 'w \<Rightarrow> int \<times> 'w" where
  "h1_DisableOdom L c w = send L c 8202 [] w"

definition h1_GetOdom :: "'w lib \<Rightarrow> LocoClient \<Rightarrow> 'w \<Rightarrow> (cast_error + int \<times> (real \<times> real \<times> real)) \<times> 'w" where
  "h1_GetOdom L c w = (case lib_call L (lc_registered c) 8203 [] w of (ret, data, w) \<Rightarrow>
     (bind_res (from_string L (JsonizeVec3_fromJson (lib_scalars L)) data JsonizeVec3_init) (\<lambda>json.
        Inr (ret, (Vec3_x json, Vec3_y json, Vec3_z json))), w))"

definition h1_SetFsmId :: "'w lib \<Rightarrow> LocoClient \<Rightarrow> 32 word \<Rightarrow> 'w \<Rightarrow> int \<times> 'w" where
  "h1_SetFsmId L c fsm_id w =
     send L c 8101 (lib_enc L (JsonizeDataInt_toJson (lib_scalars L) \<lparr>DataInt_data = fsm_id\<rparr> [])) w"

definition h1_SetBalanceMode :: "'w lib \<Rightarrow> LocoClient \<Rightarrow> 32 word \<Rightarrow> 'w \<Rightarrow> int \<times> 'w" where
  "h1_SetBalanceMode L c balance_mode w =
     send L c 8102 (lib_enc L (JsonizeDataInt_toJson (lib_scalars L) \<lparr>DataInt_data = balance_mode\<rparr> [])) w"

definition h1_SetSwingHeight :: "'w lib \<Rightarrow> LocoClient \<Rightarrow> real \<Rightarrow> 'w \<Rightarrow> int \<times> 'w" where
  "h1_SetSwingHeight L c swing_height w =
     send L c 8103 (lib_enc L (JsonizeDataFloat_toJson (lib_scalars L) \<lparr>DataFloat_data = swing_height\<rparr> [])) w"

definition h1_SetStandHeight :: "'w lib \<Rightarrow> LocoClient \<Rightarrow> real \<Rightarrow> 'w \<Rightarrow> int \<times> 'w" where
  "h1_SetStandHeight L c stand_height w =
     send L c 8104 (lib_enc L (JsonizeDataFloat_toJson (lib_scalars L) \<lparr>DataFloat_data = stand_height\<rparr> [])) w"

definition h1_SetVelocity :: "'w lib \<Rightarrow> LocoClient \<Rightarrow> real \<Rightarrow> real \<Rightarrow> real \<Rightarrow> real \<Rightarrow> 'w \<Rightarrow> int \<times> 'w" where
  "h1_SetVelocity L c vx vy omega duration w =
     send L c 8105 (lib_enc L (JsonizeVelocityCommand_toJson (lib_scalars L)
       \<lparr>VelocityCommand_velocity = [vx, vy, omega], VelocityCommand_duration = duration\<rparr> [])) w"

definition h1_SetPhase :: "'w lib \<Rightarrow> LocoClient \<Rightarrow> real list \<Rightarrow> 'w \<Rightarrow> int \<times> 'w" where
  "h1_SetPhase L c phase w =
     send L c 8106 (lib_enc L (JsonizeDataVecFloat_toJson (lib_scalars L) \<lparr>DataVecFloat_data = phase\<rparr> [])) w"

definition h1_SetTargetPos :: "'w lib \<Rightarrow> LocoClient \<Rightarrow> real \<Rightarrow> real \<Rightarrow> real \<Rightarrow> bool \<Rightarrow> 'w \<Rightarrow> int \<times> 'w" where
  "h1_SetTargetPos L c x y yaw relative w =
     send L c 8204 (lib_enc L (JsonizeTargetPos_toJson (lib_scalars L)
       \<lparr>TargetPos_x = x, TargetPos_y = y, TargetPos_yaw = yaw, TargetPos_relative = relative\<rparr> [])) w"

definition h1_SetTaskId :: "'w lib \<Rightarrow> LocoClient \<Rightarrow> 32 word \<Rightarrow> 'w \<Rightarrow> int \<times> 'w" where
  "h1_SetTaskId L c task_id w =
     send L c 8107 (lib_enc L (JsonizeDataInt_toJson (lib_scalars L) \<lparr>DataInt_data = task_id\<rparr> [])) w"

definition h1_Damp :: "'w lib \<Rightarrow> LocoClient \<Rightarrow> 'w \<Rightarrow> int \<times> 'w" where
  "h1_Damp L c w = h1_SetFsmId L c 1 w"

definition h1_Start :: "'w lib \<Rightarrow> LocoClient \<Rightarrow> 'w \<Rightarrow> int \<times> 'w" where
  "h1_Start L c w = h1_SetFsmId L c 204 w"

definition h1_StandUp :: "'w lib \<Rightarrow> LocoClient \<Rightarrow> 'w \<Rightarrow> int \<times> 'w" where
  "h1_StandUp L c w = h1_SetFsmId L c 2 w"

definition h1_ZeroTorque :: "'w lib \<Rightarrow> LocoClient \<Rightarrow> 'w \<Rightarrow> int \<times> 'w" where
  "h1_ZeroTorque L c w = h1_SetFsmId L c 0 w"

definition h1_StopMove :: "'w lib \<Rightarrow> LocoClient \<Rightarrow> 'w \<Rightarrow> int \<times> 'w" where
  "h1_StopMove L c w = h1_SetVelocity L c 0 0 0 1 w"

definition h1_HighStand :: "'w lib \<Rightarrow> LocoClient \<Rightarrow> 'w \<Rightarrow> int \<times> 'w" where
  "h1_HighStand L c w = h1_SetStandHeight L c (rnd32 4294967295) w"

definition h1_LowStand :: "'w lib \<Rightarrow> LocoClient \<Rightarrow> 'w \<Rightarrow> int \<times> 'w" where
  "h1_LowStand L c w = h1_SetStandHeight L c (rnd32 0) w"

definition h1_Move_flag :: "'w lib \<Rightarrow> LocoClient \<Rightarrow> real \<Rightarrow> real \<Rightarrow> real \<Rightarrow> bool \<Rightarrow> 'w \<Rightarrow> int \<times> 'w" where
  "h1_Move_flag L c vx vy vyaw continous w = h1_SetVelocity L c vx vy vyaw (if continous then 864000 else 1) w"

definition h1_Move :: "'w lib \<Rightarrow> LocoClient \<Rightarrow> real \<Rightarrow> real \<Rightarrow> real \<Rightarrow> 'w \<Rightarrow> int \<times> 'w" where
  "h1_Move L c vx vy vyaw w = h1_Move_flag L c vx vy vyaw (continous_move c) w"

definition h1_BalanceStand :: "'w lib \<Rightarrow> LocoClient \<Rightarrow> 'w \<Rightarrow> int \<times> 'w" where
  "h1_BalanceStand L c w = h1_SetBalanceMode L c 0 w"

definition h1_ContinuousGait :: "'w lib \<Rightarrow> LocoClient \<Rightarrow> bool \<Rightarrow> 'w \<Rightarrow> int \<times> 'w" where
  "h1_ContinuousGait L c flag w = h1_SetBalanceMode L c (if flag then 1 else 0) w"

definition h1_SwitchMoveMode :: "bool \<Rightarrow> LocoClient \<Rightarrow> int \<times> LocoClient" where
  "h1_SwitchMoveMode flag c = (0, c\<lparr>continous_move := flag\<rparr>)"

definition h1_SetNextFoot :: "'w lib \<Rightarrow> LocoClient \<Rightarrow> bool \<Rightarrow> 'w \<Rightarrow> int \<times> 'w" where
  "h1_SetNextFoot L c foot w = h1_SetPhase L c (if foot then [0, 1] else [1, 0]) w"

definition h1_WaveHand :: "'w lib \<Rightarrow> LocoClient \<Rightarrow> 'w \<Rightarrow> int \<times> 'w" where
  "h1_WaveHand L c w = h1_SetTaskId L c 0 w"

definition h1_ShakeHand :: "'w lib \<Rightarrow> LocoClient \<Rightarrow> int \<Rightarrow> 'w \<Rightarrow> int \<times> LocoClient \<times> 'w" where
  "h1_ShakeHand L c stage w =
     (if stage = 0 then
        let c = c\<lparr>first_shake_hand_stage := False\<rparr>; (ret, w) = h1_SetTaskId L c 1 w in (ret, c, w)
      else if stage = 1 then
        let c = c\<lparr>first_shake_hand_stage := True\<rparr>; (ret, w) = h1_SetTaskId L c 2 w in (ret, c, w)
      else
        let c = c\<lparr>first_shake_hand_stage := \<not> first_shake_hand_stage c\<rparr>;
            (ret, w) = h1_SetTaskId L c (if first_shake_hand_stage c then 2 else 1) w in (ret, c, w))"

section \<open>Audio client\<close>

record AudioClient =
  ac_api_version :: string
  ac_registered :: "int list"
  tts_index :: u32

definition AudioClient_new :: AudioClient where
  "AudioClient_new = \<lparr>ac_api_version = [], ac_registered = [], tts_index = 0\<rparr>"

definition audio_api_ids :: "int list" where
  "audio_api_ids = [1001, 1002, 1003, 1004, 1005, 1006, 1010]"

definition audio_Init :: "AudioClient \<Rightarrow> AudioClient" where
  "audio_Init c = c\<lparr>ac_api_version := ''1.0.0.0'', ac_registered := ac_registered c @ audio_api_ids\<rparr>"

definition audio_send :: "'w lib \<Rightarrow> AudioClient \<Rightarrow> int \<Rightarrow> JsonMap \<Rightarrow> 'w \<Rightarrow> int \<times> 'w" where
  "audio_send L c apiId m w =
     (case lib_call L (ac_registered c) apiId (lib_enc L m) w of (ret, data, w) \<Rightarrow> (ret, w))"

text \<open>The counter is unsigned, the field signed: the conversion keeps the bits. The speaker is truncated to 16 bits.\<close>

definition TtsMaker :: "'w lib \<Rightarrow> AudioClient \<Rightarrow> string \<Rightarrow> 32 word \<Rightarrow> 'w \<Rightarrow> int \<times> AudioClient \<times> 'w" where
  "TtsMaker L c text speaker_id w =
     (let json = \<lparr>Tts_index = tts_index c, Tts_speaker_id = ucast speaker_id, Tts_text = text\<rparr>;
          c = c\<lparr>tts_index := tts_index c + 1\<rparr>;
          (ret, w) = audio_send L c 1001 (TtsMakerParameter_toJson (lib_scalars L) json []) w
      in (ret, c, w))"

definition GetVolume :: "'w lib \<Rightarrow> AudioClient \<Rightarrow> u8 \<Rightarrow> 'w \<Rightarrow> (cast_error + int \<times> u8) \<times> 'w" where
  "GetVolume L c volume w = (case lib_call L (ac_registered c) 1005 [] w of (ret, data, w) \<Rightarrow>
     (if ret = 0 then
        bind_res (from_string L (JsonizeCommObjInt_fromJson (lib_scalars L)) data
            (JsonizeCommObjInt_init\<lparr>CommObjInt_name := ''volume''\<rparr>)) (\<lambda>json.
          Inr (ret, ucast (CommObjInt_value json)))
      else Inr (ret, volume), w))"

definition SetVolume :: "'w lib \<Rightarrow> AudioClient \<Rightarrow> u8 \<Rightarrow> 'w \<Rightarrow> int \<times> 'w" where
  "SetVolume L c volume w = audio_send L c 1006
     (JsonizeCommObjInt_toJson (lib_scalars L) \<lparr>CommObjInt_value = ucast volume, CommObjInt_name = ''volume''\<rparr> []) w"

definition PlayStream :: "'w lib \<Rightarrow> AudioClient \<Rightarrow> string \<Rightarrow> string \<Rightarrow> u8 list \<Rightarrow> 'w \<Rightarrow> int \<times> 'w" where
  "PlayStream L c app_name stream_id pcm_data w = lib_call_binary L (ac_registered c) 1003
     (lib_enc L (PlayStreamParameter_toJson (lib_scalars L)
        \<lparr>PlayStream_app_name = app_name, PlayStream_stream_id = stream_id\<rparr> [])) pcm_data w"

definition PlayStop :: "'w lib \<Rightarrow> AudioClient \<Rightarrow> string \<Rightarrow> 'w \<Rightarrow> int \<times> 'w" where
  "PlayStop L c app_name w = (0, snd (audio_send L c 1004
     (PlayStopParameter_toJson (lib_scalars L) \<lparr>PlayStop_app_name = app_name\<rparr> []) w))"

definition LedControl :: "'w lib \<Rightarrow> AudioClient \<Rightarrow> u8 \<Rightarrow> u8 \<Rightarrow> u8 \<Rightarrow> 'w \<Rightarrow> int \<times> 'w" where
  "LedControl L c r g b w = audio_send L c 1010
     (LedControlParameter_toJson (lib_scalars L) \<lparr>Led_R = r, Led_G = g, Led_B = b\<rparr> []) w"

section \<open>Arm action client\<close>

record JsonizeArmActionCommand =
  Arm_action_id :: "32 word"

definition JsonizeArmActionCommand_fromJson :: "scalars \<Rightarrow> JsonMap \<Rightarrow> JsonizeArmActionCommand \<Rightarrow> cast_error + JsonizeArmActionCommand" where
  "JsonizeArmActionCommand_fromJson S json c =
     bind_res (JN_FROM (from_i32 S) json ''data'' (Arm_action_id c)) (\<lambda>v. Inr (c\<lparr>Arm_action_id := v\<rparr>))"

definition JsonizeArmActionCommand_toJson :: "scalars \<Rightarrow> JsonizeArmActionCommand \<Rightarrow> JsonMap \<Rightarrow> JsonMap" where
  "JsonizeArmActionCommand_toJson S c json = JN_TO (to_i32 S) ''data'' (Arm_action_id c) json"

record ArmClient =
  arm_api_version :: string
  arm_registered :: "int list"

definition ArmClient_new :: ArmClient where
  "ArmClient_new = \<lparr>arm_api_version = [], arm_registered = []\<rparr>"

definition arm_api_ids :: "int list" where
  "arm_api_ids = [7106, 7107]"

definition arm_Init :: "ArmClient \<Rightarrow> ArmClient" where
  "arm_Init c = c\<lparr>arm_api_version := ''1.0.0.14'', arm_registered := arm_registered c @ arm_api_ids\<rparr>"

definition ExecuteAction :: "'w lib \<Rightarrow> ArmClient \<Rightarrow> 32 word \<Rightarrow> 'w \<Rightarrow> int \<times> 'w" where
  "ExecuteAction L c action_id w =
     (case lib_call L (arm_registered c) 7106
        (lib_enc L (JsonizeArmActionCommand_toJson (lib_scalars L) \<lparr>Arm_action_id = action_id\<rparr> [])) w
      of (ret, data, w) \<Rightarrow> (ret, w))"

definition GetActionList :: "'w lib \<Rightarrow> ArmClient \<Rightarrow> 'w \<Rightarrow> int \<times> string \<times> 'w" where
  "GetActionList L c w = lib_call L (arm_registered c) 7107 [] w"

definition action_map :: "string \<rightharpoonup> 32 word" where
  "action_map = map_of [(''release arm'', 99), (''two-hand kiss'', 11), (''left kiss'', 12), (''right kiss'', 12),
     (''hands up'', 15), (''clap'', 17), (''high five'', 18), (''hug'', 19), (''heart'', 20),
     (''right heart'', 21), (''reject'', 22), (''right hand up'', 23), (''x-ray'', 24), (''face wave'', 25),
     (''high wave'', 26), (''shake hand'', 27)]"

section \<open>Sequences of operations\<close>

datatype g1_op =
    G1GetFsmId "32 word"
  | G1GetFsmMode "32 word"
  | G1GetBalanceMode "32 word"
  | G1GetSwingHeight real
  | G1GetStandHeight real
  | G1GetPhase "real list"
  | G1SetFsmId "32 word"
  | G1SetBalanceMode "32 word"
  | G1SetSwingHeight real
  | G1SetStandHeight real
  | G1SetTaskId "32 word"
  | G1SetVelocity real real real real
  | G1SetSpeedMode "32 word"
  | G1WaveHand bool
  | G1Damp
  | G1Start
  | G1Squat
  | G1Sit
  | G1StandUp
  | G1ZeroTorque
  | G1StopMove
  | G1HighStand
  | G1LowStand
  | G1BalanceStand
  | G1Move real real real
  | G1ContinuousGait bool
  | G1SwitchMoveMode bool
  | G1ShakeHand int

fun g1_exec :: "'w lib \<Rightarrow> g1_op \<Rightarrow> LocoClient \<times> 'w \<Rightarrow> LocoClient \<times> 'w" where
  "g1_exec L (G1GetFsmId v) (c, w) = (c, snd (g1_GetFsmId L c v w))"
| "g1_exec L (G1GetFsmMode v) (c, w) = (c, snd (g1_GetFsmMode L c v w))"
| "g1_exec L (G1GetBalanceMode v) (c, w) = (c, snd (g1_GetBalanceMode L c v w))"
| "g1_exec L (G1GetSwingHeight v) (c, w) = (c, snd (g1_GetSwingHeight L c v w))"
| "g1_exec L (G1GetStandHeight v) (c, w) = (c, snd (g1_GetStandHeight L c v w))"
| "g1_exec L (G1GetPhase v) (c, w) = (c, snd (g1_GetPhase L c v w))"
| "g1_exec L (G1SetFsmId v) (c, w) = (c, snd (g1_SetFsmId L c v w))"
| "g1_exec L (G1SetBalanceMode v) (c, w) = (c, snd (g1_SetBalanceMode L c v w))"
| "g1_exec L (G1SetSwingHeight v) (c, w) = (c, snd (g1_SetSwingHeight L c v w))"
| "g1_exec L (G1SetStandHeight v) (c, w) = (c, snd (g1_SetStandHeight L c v w))"
| "g1_exec L (G1SetTaskId v) (c, w) = (c, snd (g1_SetTaskId L c v w))"
| "g1_exec L (G1SetVelocity x y z d) (c, w) = (c, snd (g1_SetVelocity L c x y z d w))"
| "g1_exec L (G1SetSpeedMode v) (c, w) = (c, snd (g1_SetSpeedMode L c v w))"
| "g1_exec L (G1WaveHand b) (c, w) = (c, snd (g1_WaveHand L c b w))"
| "g1_exec L G1Damp (c, w) = (c, snd (g1_Damp L c w))"
| "g1_exec L G1Start (c, w) = (c, snd (g1_Start L c w))"
| "g1_exec L G1Squat (c, w) = (c, snd (g1_Squat L c w))"
| "g1_exec L G1Sit (c, w) = (c, snd (g1_Sit L c w))"
| "g1_exec L G1StandUp (c, w) = (c, snd (g1_StandUp L c w))"
| "g1_exec L G1ZeroTorque (c, w) = (c, snd (g1_ZeroTorque L c w))"
| "g1_exec L G1StopMove (c, w) = (c, snd (g1_StopMove L c w))"
| "g1_exec L G1HighStand (c, w) = (c, snd (g1_HighStand L c w))"
| "g1_exec L G1LowStand (c, w) = (c, snd (g1_LowStand L c w))"
| "g1_exec L G1BalanceStand (c, w) = (c, snd (g1_BalanceStand L c w))"
| "g1_exec L (G1Move x y z) (c, w) = (c, snd (g1_Move L c x y z w))"
| "g1_exec L (G1ContinuousGait b) (c, w) = (c, snd (g1_ContinuousGait L c b w))"
| "g1_exec L (G1SwitchMoveMode b) (c, w) = (snd (g1_SwitchMoveMode b c), w)"
| "g1_exec L (G1ShakeHand k) (c, w) = snd (g1_ShakeHand L c k w)"

datatype h1_op =
    H1GetFsmId "32 word"
  | H1GetFsmMode "32 word"
  | H1GetBalanceMode "32 word"
  | H1GetSwingHeight real
  | H1GetStandHeight real
  | H1GetPhase "real list"
  | H1SetFsmId "32 word"
  | H1SetBalanceMode "32 word"
  | H1SetSwingHeight real
  | H1SetStandHeight real
  | H1SetTaskId "32 word"
  | H1SetVelocity real real real real
  | H1EnableOdom
  | H1DisableOdom
  | H1GetOdom
  | H1SetPhase "real list"
  | H1SetTargetPos real real real bool
  | H1SetNextFoot bool
  | H1WaveHand
  | H1Damp
  | H1Start
  | H1StandUp
  | H1ZeroTorque
  | H1StopMove
  | H1HighStand
  | H1LowStand
  | H1BalanceStand
  | H1Move real real real
  | H1ContinuousGait bool
  | H1SwitchMoveMode bool
  | H1ShakeHand int

fun h1_exec :: "'w lib \<Rightarrow> h1_op \<Rightarrow> LocoClient \<times> 'w \<Rightarrow> LocoClient \<times> 'w" where
  "h1_exec L (H1GetFsmId v) (c, w) = (c, snd (h1_GetFsmId L c v w))"
| "h1_exec L (H1GetFsmMode v) (c, w) = (c, snd (h1_GetFsmMode L c v w))"
| "h1_exec L (H1GetBalanceMode v) (c, w) = (c, snd (h1_GetBalanceMode L c v w))"
| "h1_exec L (H1GetSwingHeight v) (c, w) = (c, snd (h1_GetSwingHeight L c v w))"
| "h1_exec L (H1GetStandHeight v) (c, w) = (c, snd (h1_GetStandHeight L c v w))"
| "h1_exec L (H1GetPhase v) (c, w) = (c, snd (h1_GetPhase L c v w))"
| "h1_exec L (H1SetFsmId v) (c, w) = (c, snd (h1_SetFsmId L c v w))"
| "h1_exec L (H1SetBalanceMode v) (c, w) = (c, snd (h1_SetBalanceMode L c v w))"
| "h1_exec L (H1SetSwingHeight v) (c, w) = (c, snd (h1_SetSwingHeight L c v w))"
| "h1_exec L (H1SetStandHeight v) (c, w) = (c, snd (h1_SetStandHeight L c v w))"
| "h1_exec L (H1SetTaskId v) (c, w) = (c, snd (h1_SetTaskId L c v w))"
| "h1_exec L (H1SetVelocity x y z d) (c, w) = (c, snd (h1_SetVelocity L c x y z d w))"
| "h1_exec L H1EnableOdom (c, w) = (c, snd (h1_EnableOdom L c w))"
| "h1_exec L H1DisableOdom (c, w) = (c, snd (h1_DisableOdom L c w))"
| "h1_exec L H1GetOdom (c, w) = (c, snd (h1_GetOdom L c w))"
| "h1_exec L (H1SetPhase v) (c, w) = (c, snd (h1_SetPhase L c v w))"
| "h1_exec L (H1SetTargetPos x y z b) (c, w) = (c, snd (h1_SetTargetPos L c x y z b w))"
| "h1_exec L (H1SetNextFoot b) (c, w) = (c, snd (h1_SetNextFoot L c b w))"
| "h1_exec L H1WaveHand (c, w) = (c, snd (h1_WaveHand L c w))"
| "h1_exec L H1Damp (c, w) = (c, snd (h1_Damp L c w))"
| "h1_exec L H1Start (c, w) = (c, snd (h1_Start L c w))"
| "h1_exec L H1StandUp (c, w) = (c, snd (h1_StandUp L c w))"
| "h1_exec L H1ZeroTorque (c, w) = (c, snd (h1_ZeroTorque L c w))"
| "h1_exec L H1StopMove (c, w) = (c, snd (h1_StopMove L c w))"
| "h1_exec L H1HighStand (c, w) = (c, snd (h1_HighStand L c w))"
| "h1_exec L H1LowStand (c, w) = (c, snd (h1_LowStand L c w))"
| "h1_exec L H1BalanceStand (c, w) = (c, snd (h1_BalanceStand L c w))"
| "h1_exec L (H1Move x y z) (c, w) = (c, snd (h1_Move L c x y z w))"
| "h1_exec L (H1ContinuousGait b) (c, w) = (c, snd (h1_ContinuousGait L c b w))"
| "h1_exec L (H1SwitchMoveMode b) (c, w) = (snd (h1_SwitchMoveMode b c), w)"
| "h1_exec L (H1ShakeHand k) (c, w) = snd (h1_ShakeHand L c k w)"

datatype audio_op = TTS string "32 word" | GETVOL u8 | SETVOL u8 | PLAY string string "u8 list" | STOP string | LED u8 u8 u8

fun audio_exec :: "'w lib \<Rightarrow> audio_op \<Rightarrow> AudioClient \<times> 'w \<Rightarrow> AudioClient \<times> 'w" where
  "audio_exec L (TTS t s) (c, w) = snd (TtsMaker L c t s w)"
| "audio_exec L (GETVOL v) (c, w) = (c, snd (GetVolume L c v w))"
| "audio_exec L (SETVOL v) (c, w) = (c, snd (SetVolume L c v w))"
| "audio_exec L (PLAY a i d) (c, w) = (c, snd (PlayStream L c a i d w))"
| "audio_exec L (STOP a) (c, w) = (c, snd (PlayStop L c a w))"
| "audio_exec L (LED r g b) (c, w) = (c, snd (LedControl L c r g b w))"

datatype arm_op = EXECUTE "32 word" | LIST

fun arm_exec :: "'w lib \<Rightarrow> arm_op \<Rightarrow> ArmClient \<times> 'w \<Rightarrow> ArmClient \<times> 'w" where
  "arm_exec L (EXECUTE a) (c, w) = (c, snd (ExecuteAction L c a w))"
| "arm_exec L LIST (c, w) = (c, snd (snd (GetActionList L c w)))"

text \<open>
  A server that may answer each request depending on everything it has received: the world is the
  list of requests, each with the identifiers registered when it was sent.
\<close>

type_synonym request = "int list \<times> int \<times> string"

definition recorder :: "scalars \<Rightarrow> (JsonMap \<Rightarrow> string) \<Rightarrow> (string \<Rightarrow> cast_error + JsonMap) \<Rightarrow>
    (request list \<Rightarrow> int \<times> string) \<Rightarrow> request list lib" where
  "recorder S enc dec reply = \<lparr>lib_scalars = S, lib_enc = enc, lib_dec = dec,
     lib_call = (\<lambda>regs i p w. let w = w @ [(regs, i, p)] in (fst (reply w), snd (reply w), w)),
     lib_call_binary = (\<lambda>regs i p bin w. let w = w @ [(regs, i, p)] in (fst (reply w), w))\<rparr>"

lemma recorder_simps [simp]:
  "lib_scalars (recorder S enc dec reply) = S" "lib_enc (recorder S enc dec reply) = enc"
  "lib_dec (recorder S enc dec reply) = dec"
  "lib_call (recorder S enc dec reply) regs i p w =
     (fst (reply (w @ [(regs, i, p)])), snd (reply (w @ [(regs, i, p)])), w @ [(regs, i, p)])"
  "lib_call_binary (recorder S enc dec reply) regs i p bin w =
     (fst (reply (w @ [(regs, i, p)])), w @ [(regs, i, p)])"
  by (simp_all add: recorder_def Let_def)

lemma send_recorder [simp]:
  "send (recorder S enc dec reply) c i p w = (fst (reply (w @ [(lc_registered c, i, p)])), w @ [(lc_registered c, i, p)])"
  "audio_send (recorder S enc dec reply) a i m w =
     (fst (reply (w @ [(ac_registered a, i, enc m)])), w @ [(ac_registered a, i, enc m)])"
  by (simp_all add: send_def audio_send_def)

lemma RegistApi_fold [simp]: "lc_registered (fold RegistApi is c) = lc_registered c @ is"
  by (induction "is" arbitrary: c) (simp_all add: RegistApi_def)

lemmas g1_defs = g1_loco_api_ids_def g1_Init_def g1_GetFsmId_def g1_GetFsmMode_def g1_GetBalanceMode_def g1_GetSwingHeight_def
    g1_GetStandHeight_def g1_GetPhase_def g1_SetFsmId_def g1_SetBalanceMode_def g1_SetSwingHeight_def g1_SetStandHeight_def
    g1_SetVelocity_def g1_SetTaskId_def g1_SetSpeedMode_def g1_Damp_def g1_Start_def g1_Squat_def
    g1_Sit_def g1_StandUp_def g1_ZeroTorque_def g1_StopMove_def g1_HighStand_def g1_LowStand_def
    g1_Move_flag_def g1_Move_def g1_BalanceStand_def g1_ContinuousGait_def g1_SwitchMoveMode_def g1_WaveHand_def
    g1_ShakeHand_def

lemmas h1_defs = h1_loco_api_ids_def h1_Init_def h1_GetFsmId_def h1_GetFsmMode_def h1_GetBalanceMode_def h1_GetSwingHeight_def
    h1_GetStandHeight_def h1_GetPhase_def h1_EnableOdom_def h1_DisableOdom_def h1_GetOdom_def h1_SetFsmId_def
    h1_SetBalanceMode_def h1_SetSwingHeight_def h1_SetStandHeight_def h1_SetVelocity_def h1_SetPhase_def h1_SetTargetPos_def
    h1_SetTaskId_def h1_Damp_def h1_Start_def h1_StandUp_def h1_ZeroTorque_def h1_StopMove_def
    h1_HighStand_def h1_LowStand_def h1_Move_flag_def h1_Move_def h1_BalanceStand_def h1_ContinuousGait_def
    h1_SwitchMoveMode_def h1_SetNextFoot_def h1_WaveHand_def h1_ShakeHand_def

section \<open>What every client promises its server\<close>

text \<open>
  The contract the four clients share: an operation keeps the registered identifiers, and appends
  only requests that carry them and whose own identifier is one of the client's.
\<close>

locale api_client =
  fixes exec :: "'op \<Rightarrow> 'c \<times> request list \<Rightarrow> 'c \<times> request list"
    and regs :: "'c \<Rightarrow> int list"
    and ids :: "int list"
  assumes keeps: "regs (fst (exec op (c, w))) = regs c"
    and sends: "\<exists>qs. snd (exec op (c, w)) = w @ qs \<and> length qs \<le> 1 \<and>
      list_all (\<lambda>(r, i, p). r = regs c \<and> i \<in> set ids) qs"
begin

lemma run_regs: "regs (fst (fold exec ops (c, w))) = regs c"
proof (induction ops arbitrary: c w)
  case (Cons op ops)
  obtain c' w' where e: "exec op (c, w) = (c', w')" by fastforce
  then have "regs c' = regs c" using keeps [of op c w] by simp
  with Cons show ?case by (simp add: e)
qed simp

lemma run_sends:
  "\<exists>qs. snd (fold exec ops (c, w)) = w @ qs \<and> length qs \<le> length ops \<and>
     list_all (\<lambda>(r, i, p). r = regs c \<and> i \<in> set ids) qs"
proof (induction ops arbitrary: c w)
  case (Cons op ops)
  obtain c' w' where e: "exec op (c, w) = (c', w')" by fastforce
  obtain q where q: "w' = w @ q" "length q \<le> 1" "list_all (\<lambda>(r, i, p). r = regs c \<and> i \<in> set ids) q"
    using sends [of op c w] e by auto
  obtain qs where "snd (fold exec ops (c', w')) = w' @ qs" "length qs \<le> length ops"
      "list_all (\<lambda>(r, i, p). r = regs c' \<and> i \<in> set ids) qs"
    using Cons [of c' w'] by blast
  moreover have "regs c' = regs c" using keeps [of op c w] e by simp
  ultimately show ?case using q by (intro exI [of _ "q @ qs"]) (simp add: e)
qed simp

lemma all_registered:
  assumes "set ids \<subseteq> set (regs c)"
  shows "list_all (\<lambda>(r, i, p). i \<in> set r) (snd (fold exec ops (c, [])))"
  using run_sends [of ops c "[]"] assms by (auto simp: list_all_iff)

end

interpretation g1_client: api_client "g1_exec (recorder S enc dec reply)" lc_registered g1_loco_api_ids
  for S enc dec reply
proof
  fix op c w
  show "lc_registered (fst (g1_exec (recorder S enc dec reply) op (c, w))) = lc_registered c"
    by (cases op) (simp_all add: g1_SwitchMoveMode_def g1_ShakeHand_def Let_def split_beta)
  show "\<exists>qs. snd (g1_exec (recorder S enc dec reply) op (c, w)) = w @ qs \<and> length qs \<le> 1 \<and>
      list_all (\<lambda>(r, i, p). r = lc_registered c \<and> i \<in> set g1_loco_api_ids) qs"
    by (cases op) (simp_all add: g1_defs Let_def split_beta)
qed

interpretation h1_client: api_client "h1_exec (recorder S enc dec reply)" lc_registered h1_loco_api_ids
  for S enc dec reply
proof
  fix op c w
  show "lc_registered (fst (h1_exec (recorder S enc dec reply) op (c, w))) = lc_registered c"
    by (cases op) (simp_all add: h1_SwitchMoveMode_def h1_ShakeHand_def Let_def split_beta)
  show "\<exists>qs. snd (h1_exec (recorder S enc dec reply) op (c, w)) = w @ qs \<and> length qs \<le> 1 \<and>
      list_all (\<lambda>(r, i, p). r = lc_registered c \<and> i \<in> set h1_loco_api_ids) qs"
    by (cases op) (simp_all add: h1_defs Let_def split_beta)
qed

lemmas audio_defs = TtsMaker_def GetVolume_def SetVolume_def PlayStream_def PlayStop_def LedControl_def audio_api_ids_def

interpretation audio_client: api_client "audio_exec (recorder S enc dec reply)" ac_registered audio_api_ids
  for S enc dec reply
proof
  fix op c w
  show "ac_registered (fst (audio_exec (recorder S enc dec reply) op (c, w))) = ac_registered c"
    by (cases op) (simp_all add: TtsMaker_def Let_def split_beta)
  show "\<exists>qs. snd (audio_exec (recorder S enc dec reply) op (c, w)) = w @ qs \<and> length qs \<le> 1 \<and>
      list_all (\<lambda>(r, i, p). r = ac_registered c \<and> i \<in> set audio_api_ids) qs"
    by (cases op) (simp_all add: audio_defs Let_def split_beta)
qed

interpretation arm_client: api_client "arm_exec (recorder S enc dec reply)" arm_registered arm_api_ids
  for S enc dec reply
proof
  fix op c w
  show "arm_registered (fst (arm_exec (recorder S enc dec reply) op (c, w))) = arm_registered c"
    by (cases op) simp_all
  show "\<exists>qs. snd (arm_exec (recorder S enc dec reply) op (c, w)) = w @ qs \<and> length qs \<le> 1 \<and>
      list_all (\<lambda>(r, i, p). r = arm_registered c \<and> i \<in> set arm_api_ids) qs"
    by (cases op) (simp_all add: ExecuteAction_def GetActionList_def arm_api_ids_def)
qed

section \<open>What the clients guarantee\<close>

text \<open>C24: Whatever the server answers, and for every sequence of operations of an initialised G1 or H1
  locomotion client, audio client or arm client, every request that leaves the client has an
  identifier that the client registered in \<open>Init\<close>.\<close>

theorem clients_send_registered:
  "list_all (\<lambda>(r, i, p). i \<in> set r) (snd (fold (g1_exec (recorder S enc dec reply)) ops1 (g1_Init LocoClient_new, []))) \<and>
   list_all (\<lambda>(r, i, p). i \<in> set r) (snd (fold (h1_exec (recorder S enc dec reply)) ops2 (h1_Init LocoClient_new, []))) \<and>
   list_all (\<lambda>(r, i, p). i \<in> set r) (snd (fold (audio_exec (recorder S enc dec reply)) ops3 (audio_Init AudioClient_new, []))) \<and>
   list_all (\<lambda>(r, i, p). i \<in> set r) (snd (fold (arm_exec (recorder S enc dec reply)) ops4 (arm_Init ArmClient_new, [])))"
  by (intro conjI g1_client.all_registered h1_client.all_registered audio_client.all_registered arm_client.all_registered)
    (simp_all add: g1_Init_def h1_Init_def audio_Init_def arm_Init_def)



definition shake_param :: "scalars \<Rightarrow> (JsonMap \<Rightarrow> string) \<Rightarrow> 32 word \<Rightarrow> string" where
  "shake_param S enc k = enc (JsonizeDataInt_toJson S \<lparr>DataInt_data = k\<rparr> [])"

lemma RegistApi_stage: "first_shake_hand_stage (fold RegistApi is c) = first_shake_hand_stage c"
  by (induction "is" arbitrary: c) (simp_all add: RegistApi_def)

lemma rep32_durations: "rep32 864000" "rep32 1" "rep32 0"
  using rep32_of_int [of 864000] rep32_of_int [of 1] rep32_of_int [of 0] by simp_all

lemma shake_step:
  fixes S enc dec reply
  defines "L \<equiv> recorder S enc dec reply"
  shows "g1_exec L (G1ShakeHand (- 1)) (c, w) = (c\<lparr>first_shake_hand_stage := \<not> first_shake_hand_stage c\<rparr>,
      w @ [(lc_registered c, 7106, shake_param S enc (if first_shake_hand_stage c then 2 else 3))])"
    and "h1_exec L (H1ShakeHand (- 1)) (c, w) = (c\<lparr>first_shake_hand_stage := \<not> first_shake_hand_stage c\<rparr>,
      w @ [(lc_registered c, 8107, shake_param S enc (if first_shake_hand_stage c then 1 else 2))])"
  by (simp_all add: L_def g1_ShakeHand_def h1_ShakeHand_def g1_SetTaskId_def h1_SetTaskId_def shake_param_def Let_def)

lemma shake_run:
  fixes S enc dec reply
  defines "L \<equiv> recorder S enc dec reply"
  shows "snd (fold (g1_exec L) (replicate n (G1ShakeHand (- 1))) (c, w)) =
      w @ map (\<lambda>k. (lc_registered c, 7106, shake_param S enc (if even k = first_shake_hand_stage c then 2 else 3))) [0..<n]"
    and "snd (fold (h1_exec L) (replicate n (H1ShakeHand (- 1))) (c, w)) =
      w @ map (\<lambda>k. (lc_registered c, 8107, shake_param S enc (if even k = first_shake_hand_stage c then 1 else 2))) [0..<n]"
proof -
  have shift: "map f [0..<Suc m] = f 0 # map (\<lambda>k. f (Suc k)) [0..<m]" for f :: "nat \<Rightarrow> request" and m
    by (simp add: upt_conv_Cons map_Suc_upt [symmetric] comp_def del: upt_Suc)
  show "snd (fold (g1_exec L) (replicate n (G1ShakeHand (- 1))) (c, w)) =
      w @ map (\<lambda>k. (lc_registered c, 7106, shake_param S enc (if even k = first_shake_hand_stage c then 2 else 3))) [0..<n]"
  proof (induction n arbitrary: c w)
    case (Suc n)
    show ?case unfolding shift by (simp add: L_def shake_step Suc [unfolded L_def] del: g1_exec.simps fold_replicate)
  qed simp
  show "snd (fold (h1_exec L) (replicate n (H1ShakeHand (- 1))) (c, w)) =
      w @ map (\<lambda>k. (lc_registered c, 8107, shake_param S enc (if even k = first_shake_hand_stage c then 1 else 2))) [0..<n]"
  proof (induction n arbitrary: c w)
    case (Suc n)
    show ?case unfolding shift by (simp add: L_def shake_step Suc [unfolded L_def] del: h1_exec.simps fold_replicate)
  qed simp
qed

text \<open>Calling \<open>ShakeHand\<close> without a stage n times on a new G1 or H1 client sends the arm task n times,
  alternating between the first and the second stage and starting with the first
  (tasks 2 and 3 on the G1, 1 and 2 on the H1).\<close>

lemma shake_hand_alternates:
  "snd (fold (g1_exec (recorder S enc dec reply)) (replicate n (G1ShakeHand (- 1))) (g1_Init LocoClient_new, [])) =
     map (\<lambda>k. (g1_loco_api_ids, 7106, shake_param S enc (if even k then 2 else 3))) [0..<n] \<and>
   snd (fold (h1_exec (recorder S enc dec reply)) (replicate n (H1ShakeHand (- 1))) (h1_Init LocoClient_new, [])) =
     map (\<lambda>k. (h1_loco_api_ids, 8107, shake_param S enc (if even k then 1 else 2))) [0..<n]"
  by (simp add: shake_run g1_Init_def h1_Init_def RegistApi_stage LocoClient_new_def del: fold_replicate)

definition move_command :: "real \<Rightarrow> real \<Rightarrow> real \<Rightarrow> bool \<Rightarrow> JsonizeVelocityCommand" where
  "move_command vx vy vyaw flag =
     \<lparr>VelocityCommand_velocity = [vx, vy, vyaw], VelocityCommand_duration = if flag then 864000 else 1\<rparr>"

text \<open>After \<open>SwitchMoveMode flag\<close>, \<open>Move\<close> sends exactly one request, \<open>SET_VELOCITY\<close>, and a server that
  parses its parameter receives the commanded velocities and a duration of ten days or of
  one second, on both robots.\<close>

lemma move_received:
  assumes "scalars_ok S" and "rep32 vx" and "rep32 vy" and "rep32 vyaw"
    and "dec (enc (JsonizeVelocityCommand_toJson S (move_command vx vy vyaw flag) [])) = Inr (JsonizeVelocityCommand_toJson S (move_command vx vy vyaw flag) [])"
    and "VelocityCommand_velocity d = []"
  shows "\<exists>p. snd (g1_Move (recorder S enc dec reply) (snd (g1_SwitchMoveMode flag c)) vx vy vyaw w) = w @ [(lc_registered c, 7105, p)] \<and>
     snd (h1_Move (recorder S enc dec reply) (snd (h1_SwitchMoveMode flag c)) vx vy vyaw w) = w @ [(lc_registered c, 8105, p)] \<and>
     from_string (recorder S enc dec reply) (JsonizeVelocityCommand_fromJson S) p d = Inr (move_command vx vy vyaw flag)"
proof -
  have "rep32 (if flag then 864000 else 1)" by (simp add: rep32_durations)
  then have "JsonizeVelocityCommand_fromJson S (JsonizeVelocityCommand_toJson S (move_command vx vy vyaw flag) []) d = Inr (move_command vx vy vyaw flag)"
    using assms by (intro JsonizeVelocityCommand_round) (simp_all add: move_command_def)
  with assms show ?thesis
    by (simp add: g1_Move_def h1_Move_def g1_Move_flag_def h1_Move_flag_def g1_SetVelocity_def h1_SetVelocity_def
        g1_SwitchMoveMode_def h1_SwitchMoveMode_def from_string_def
        move_command_def [symmetric])
qed

lemma move_received_sample:
  "\<exists>p. snd (g1_Move (recorder any_scalars (\<lambda>m. ''m'')
       (\<lambda>s. Inr (JsonizeVelocityCommand_toJson any_scalars (move_command 1 0 0 False) []))
       (\<lambda>w. (0, []))) (snd (g1_SwitchMoveMode False (g1_Init LocoClient_new))) 1 0 0 []) = [(g1_loco_api_ids, 7105, p)]"
  using move_received [of any_scalars 1 0 0
    "\<lambda>s. Inr (JsonizeVelocityCommand_toJson any_scalars (move_command 1 0 0 False) [])"
    "\<lambda>m. ''m''" False "\<lparr>VelocityCommand_velocity = [], VelocityCommand_duration = 0\<rparr>" "\<lambda>w. (0, [])" "g1_Init LocoClient_new" "[]"]
  by (auto simp: any_scalars_ok rep32_durations g1_Init_def LocoClient_new_def)

end
