(* ===== verification/Udp.thy ===== *)
theory Udp
  imports Prelude Floats
begin

text \<open>
  The UDP side of the typego services: one socket, one client that is whoever sent the last
  datagram, a receiving thread that stores its address and handlers that send to it
  (\<open>typego_high_state_service.cpp\<close>, \<open>typego_livox_service.cpp\<close>, \<open>typego_livox_full_service.cpp\<close>).
  The sequential operations come first, with the throttled handler of the state service; then the
  two threads as a step relation, with the mutex of the state service and without it.
\<close>

section \<open>Client and socket\<close>

text \<open>Address and port of a \<open>sockaddr_in\<close>; its family is the same for every IPv4 sender.\<close>

type_synonym addr = "u32 \<times> u16"

record udp =
  client_ready :: bool
  client_addr :: addr
  sent :: "(addr \<times> u8 list) list"

definition udp_init :: udp where
  "udp_init = \<lparr>client_ready = False, client_addr = (0, 0), sent = []\<rparr>"

definition sendtoClient :: "udp \<Rightarrow> u8 list \<Rightarrow> udp" where
  "sendtoClient u data = (if client_ready u then u\<lparr>sent := sent u @ [(client_addr u, data)]\<rparr> else u)"

text \<open>
  One turn of the receiving loop. The buffer has one byte, so \<open>n\<close> is 1 for a datagram with data,
  0 for an empty one and negative for an error.
\<close>

definition WaitForNextClient_turn :: "udp \<Rightarrow> int \<Rightarrow> addr \<Rightarrow> udp" where
  "WaitForNextClient_turn u n latest_client =
     (if n > 0 then u\<lparr>client_addr := latest_client, client_ready := True\<rparr> else u)"

section \<open>High state service\<close>

text \<open>The fields of the sport mode state that the handler reads.\<close>

record high_state =
  hs_position :: "real list"
  hs_quaternion :: "real list"
  hs_accelerometer :: "real list"
  hs_gyroscope :: "real list"

definition high_state_floats :: "high_state \<Rightarrow> real list" where
  "high_state_floats m =
     [hs_position m ! 0, hs_position m ! 1, hs_position m ! 2,
      hs_quaternion m ! 0, hs_quaternion m ! 1, hs_quaternion m ! 2, hs_quaternion m ! 3,
      hs_accelerometer m ! 0, hs_accelerometer m ! 1, hs_accelerometer m ! 2,
      hs_gyroscope m ! 0, hs_gyroscope m ! 1, hs_gyroscope m ! 2]"

definition float_bytes :: "real list \<Rightarrow> u8 list" where
  "float_bytes xs = concat (map (\<lambda>x. le32 (bits_of_f32 x)) xs)"

text \<open>
  Clock readings are nanoseconds. The static variable takes the clock at the first call (\<open>t0\<close>),
  before \<open>now\<close> is read.
\<close>

record high_service =
  last_send_time :: "int option"
  hs_udp :: udp

definition HighStateHandler :: "int \<Rightarrow> int \<Rightarrow> high_state \<Rightarrow> high_service \<Rightarrow> high_service" where
  "HighStateHandler t0 now m s =
     (let last = (case last_send_time s of None \<Rightarrow> t0 | Some t \<Rightarrow> t)
      in if (now - last) div 1000000 < 20 then s\<lparr>last_send_time := Some last\<rparr>
         else s\<lparr>last_send_time := Some now,
                hs_udp := sendtoClient (hs_udp s) (float_bytes (high_state_floats m))\<rparr>)"

text \<open>What a client does with a packet: four bytes per float.\<close>

fun decode_floats :: "u8 list \<Rightarrow> real option list" where
  "decode_floats (a # b # c # d # bs) = f32_of_bits (of_le32 [a, b, c, d]) # decode_floats bs"
| "decode_floats bs = []"

lemma of_le32_bytes: "le32 w = [a, b, c, d] \<Longrightarrow> of_le32 [a, b, c, d] = w"
  by (metis of_le32_le32)

lemma decode_float_bytes:
  assumes "list_all finite32 xs"
  shows "decode_floats (float_bytes xs) = map Some xs"
  using assms
proof (induction xs)
  case (Cons x xs)
  obtain a b c d where le: "le32 (bits_of_f32 x) = [a, b, c, d]" by (simp add: le32_def)
  from Cons show ?case
    by (simp add: float_bytes_def le of_le32_bytes [OF le] f32_of_bits_of_f32)
qed (simp add: float_bytes_def)

lemma length_float_bytes [simp]: "length (float_bytes xs) = 4 * length xs"
  by (induction xs) (simp_all add: float_bytes_def)

section \<open>Two threads and the client address\<close>

text \<open>
  The receiving thread writes the address in two parts, as \<open>memcpy\<close> does field by field; the sending
  thread tests the flag and then reads the address. With \<open>locked\<close> both hold \<open>client_mutex\<close> meanwhile,
  as in the high state service; without it, as in the two Livox services, they do not.
\<close>

datatype rpc = RIdle | RGot addr | RWriteIp addr | RWritePort addr | RUnlock | RReady

datatype spc = SIdle | SReady "u8 list" | SSend "u8 list" | SUnlock

datatype holder = Free | Receiver | Sender

record threads =
  rpc_of :: rpc
  spc_of :: spc
  client_mutex :: holder
  ready :: bool
  ip :: u32
  port :: u16
  seen :: "addr set"
  out :: "(addr \<times> u8 list) list"

definition threads_init :: threads where
  "threads_init = \<lparr>rpc_of = RIdle, spc_of = SIdle, client_mutex = Free, ready = False, ip = 0, port = 0,
     seen = {}, out = []\<rparr>"

definition acquire :: "bool \<Rightarrow> holder \<Rightarrow> threads \<Rightarrow> threads option" where
  "acquire locked h s = (if locked then (if client_mutex s = Free then Some (s\<lparr>client_mutex := h\<rparr>) else None) else Some s)"

definition release :: "bool \<Rightarrow> threads \<Rightarrow> threads" where
  "release locked s = (if locked then s\<lparr>client_mutex := Free\<rparr> else s)"

inductive step :: "bool \<Rightarrow> threads \<Rightarrow> threads \<Rightarrow> bool" for locked where
  recv: "rpc_of s = RIdle \<Longrightarrow> step locked s (s\<lparr>rpc_of := RGot a, seen := insert a (seen s)\<rparr>)"
| r_lock: "rpc_of s = RGot a \<Longrightarrow> acquire locked Receiver s = Some s' \<Longrightarrow> step locked s (s'\<lparr>rpc_of := RWriteIp a\<rparr>)"
| r_ip: "rpc_of s = RWriteIp a \<Longrightarrow> step locked s (s\<lparr>rpc_of := RWritePort a, ip := fst a\<rparr>)"
| r_port: "rpc_of s = RWritePort a \<Longrightarrow> step locked s (s\<lparr>rpc_of := RUnlock, port := snd a\<rparr>)"
| r_unlock: "rpc_of s = RUnlock \<Longrightarrow> step locked s (release locked s\<lparr>rpc_of := RReady\<rparr>)"
| r_ready: "rpc_of s = RReady \<Longrightarrow> step locked s (s\<lparr>rpc_of := RIdle, ready := True\<rparr>)"
| s_test: "spc_of s = SIdle \<Longrightarrow> ready s \<Longrightarrow> step locked s (s\<lparr>spc_of := SReady d\<rparr>)"
| s_lock: "spc_of s = SReady d \<Longrightarrow> acquire locked Sender s = Some s' \<Longrightarrow> step locked s (s'\<lparr>spc_of := SSend d\<rparr>)"
| s_send: "spc_of s = SSend d \<Longrightarrow> step locked s (s\<lparr>spc_of := SUnlock, out := out s @ [((ip s, port s), d)]\<rparr>)"
| s_unlock: "spc_of s = SUnlock \<Longrightarrow> step locked s (release locked s\<lparr>spc_of := SIdle\<rparr>)"

abbreviation udp_reachable :: "bool \<Rightarrow> threads \<Rightarrow> bool" where
  "udp_reachable locked s \<equiv> (step locked)\<^sup>*\<^sup>* threads_init s"

text \<open>The invariant of the locked version.\<close>

definition writing :: "threads \<Rightarrow> bool" where
  "writing s \<longleftrightarrow> (case rpc_of s of RWriteIp _ \<Rightarrow> True | RWritePort _ \<Rightarrow> True | RUnlock \<Rightarrow> True | _ \<Rightarrow> False)"

definition sending :: "threads \<Rightarrow> bool" where
  "sending s \<longleftrightarrow> (case spc_of s of SSend _ \<Rightarrow> True | SUnlock \<Rightarrow> True | _ \<Rightarrow> False)"

definition addr_valid :: "threads \<Rightarrow> bool" where
  "addr_valid s \<longleftrightarrow> (case rpc_of s of RWritePort _ \<Rightarrow> True | RUnlock \<Rightarrow> (ip s, port s) \<in> seen s
     | RReady \<Rightarrow> (ip s, port s) \<in> seen s | _ \<Rightarrow> ready s \<longrightarrow> (ip s, port s) \<in> seen s)"

definition sender_ready :: "threads \<Rightarrow> bool" where
  "sender_ready s \<longleftrightarrow> spc_of s = SIdle \<or> ready s"

definition pending_seen :: "threads \<Rightarrow> bool" where
  "pending_seen s \<longleftrightarrow> (case rpc_of s of RGot a \<Rightarrow> a \<in> seen s | RWriteIp a \<Rightarrow> a \<in> seen s
     | RWritePort a \<Rightarrow> a \<in> seen s \<and> ip s = fst a | _ \<Rightarrow> True)"

definition threads_inv :: "threads \<Rightarrow> bool" where
  "threads_inv s \<longleftrightarrow> (client_mutex s = Receiver \<longleftrightarrow> writing s) \<and> (client_mutex s = Sender \<longleftrightarrow> sending s) \<and>
     addr_valid s \<and> sender_ready s \<and> pending_seen s \<and> list_all (\<lambda>(a, d). a \<in> seen s) (out s)"

lemmas threads_defs = threads_inv_def writing_def sending_def addr_valid_def sender_ready_def pending_seen_def
  acquire_def release_def

lemma threads_inv_step: "step True s s' \<Longrightarrow> threads_inv s \<Longrightarrow> threads_inv s'"
proof (induction rule: step.induct)
  case (recv s a)
  then show ?case by (auto simp: threads_defs list_all_iff split: spc.splits)
qed (auto simp: threads_defs split: spc.splits rpc.splits if_splits)

lemma threads_inv_reachable: "udp_reachable True s \<Longrightarrow> threads_inv s"
proof (induction rule: rtranclp_induct)
  case base
  show ?case by (simp add: threads_defs threads_init_def)
next
  case (step s s')
  then show ?case by (blast intro: threads_inv_step)
qed

lemma reach_step: "udp_reachable locked s \<Longrightarrow> step locked s s' \<Longrightarrow> udp_reachable locked s'"
  by (rule rtranclp.rtrancl_into_rtrancl)

text \<open>The state after a first client has connected, in both versions.\<close>

definition connected :: "addr \<Rightarrow> threads" where
  "connected a = threads_init\<lparr>ready := True, ip := fst a, port := snd a, seen := {a}\<rparr>"

lemma first_client: "udp_reachable locked (connected a)"
proof -
  define s1 where "s1 = threads_init\<lparr>rpc_of := RGot a, seen := {a}\<rparr>"
  define s2 where "s2 = (if locked then s1\<lparr>client_mutex := Receiver\<rparr> else s1)\<lparr>rpc_of := RWriteIp a\<rparr>"
  define s3 where "s3 = s2\<lparr>rpc_of := RWritePort a, ip := fst a\<rparr>"
  define s4 where "s4 = s3\<lparr>rpc_of := RUnlock, port := snd a\<rparr>"
  define s5 where "s5 = release locked s4\<lparr>rpc_of := RReady\<rparr>"
  note run = s1_def s2_def s3_def s4_def s5_def
  have "step locked threads_init s1"
    using recv [of threads_init locked a] by (simp add: s1_def threads_init_def)
  moreover have "step locked s1 s2" unfolding s2_def
    by (rule r_lock) (simp_all add: s1_def acquire_def threads_init_def)
  moreover have "step locked s2 s3" unfolding s3_def by (rule r_ip) (simp add: s2_def)
  moreover have "step locked s3 s4" unfolding s4_def by (rule r_port) (simp add: s3_def)
  moreover have "step locked s4 s5" unfolding s5_def by (rule r_unlock) (simp add: s4_def)
  moreover have "step locked s5 (connected a)"
    using r_ready [of s5 locked] by (simp add: run connected_def threads_init_def release_def split: if_splits)
  ultimately show ?thesis
    by (meson rtranclp.rtrancl_refl rtranclp.rtrancl_into_rtrancl)
qed

lemma send_run:
  assumes "udp_reachable locked s" and "spc_of s = SIdle" and "ready s" and "locked \<longrightarrow> client_mutex s = Free"
  shows "\<exists>s'. udp_reachable locked s' \<and> out s' = out s @ [((ip s, port s), d)] \<and> seen s' = seen s"
proof -
  define s1 where "s1 = s\<lparr>spc_of := SReady d\<rparr>"
  define s2 where "s2 = (if locked then s1\<lparr>client_mutex := Sender\<rparr> else s1)\<lparr>spc_of := SSend d\<rparr>"
  define s3 where "s3 = s2\<lparr>spc_of := SUnlock, out := out s2 @ [((ip s2, port s2), d)]\<rparr>"
  have "udp_reachable locked s1" unfolding s1_def using assms by (intro reach_step [OF assms(1)] s_test)
  moreover have "step locked s1 s2" unfolding s2_def
    using assms(4) by (intro s_lock [of _ d]) (simp_all add: s1_def acquire_def)
  moreover have "step locked s2 s3" unfolding s3_def by (rule s_send) (simp add: s2_def)
  ultimately have "udp_reachable locked s3" by (blast intro: reach_step)
  then show ?thesis by (intro exI [of _ s3]) (simp add: s3_def s2_def s1_def)
qed

section \<open>What the service guarantees\<close>

text \<open>C25: With the mutex of the high state service, in every interleaving of the receiving and the sending
  thread, each packet goes to an address that a datagram came from.\<close>

theorem locked_sends_to_seen:
  assumes "udp_reachable True s" and "(a, d) \<in> set (out s)"
  shows "a \<in> seen s"
  using threads_inv_reachable [OF assms(1)] assms(2) by (auto simp: threads_inv_def list_all_iff)

theorem locked_sends_to_seen_witness:
  "\<exists>s. udp_reachable True s \<and> out s = [((1, 2), [7])] \<and> (1, 2) \<in> seen s"
proof -
  obtain s where s: "udp_reachable True s" "out s = [((1, 2), [7])]"
    using send_run [OF first_client [of True "(1, 2)"], of "[7]"] by (auto simp: connected_def threads_init_def)
  with locked_sends_to_seen [OF s(1), of "(1, 2)" "[7]"] show ?thesis by auto
qed


text \<open>A run of the handler over a list of calls, and the times at which it sent.\<close>

fun high_run :: "(int \<times> int \<times> high_state) list \<Rightarrow> high_service \<Rightarrow> high_service" where
  "high_run [] s = s"
| "high_run ((t0, now, m) # es) s = high_run es (HighStateHandler t0 now m s)"

fun send_times :: "(int \<times> int \<times> high_state) list \<Rightarrow> high_service \<Rightarrow> (int \<times> high_state) list" where
  "send_times [] s = []"
| "send_times ((t0, now, m) # es) s =
     (let s' = HighStateHandler t0 now m s
      in (if sent (hs_udp s') = sent (hs_udp s) then [] else [(now, m)]) @ send_times es s')"

lemma handler_cases:
  assumes "client_ready (hs_udp s)"
  obtains (skip) l where "HighStateHandler t0 now m s = s\<lparr>last_send_time := Some l\<rparr>"
      "last_send_time s = None \<and> l = t0 \<or> last_send_time s = Some l" "now < l + 20000000"
    | (send) l where "HighStateHandler t0 now m s = s\<lparr>last_send_time := Some now, hs_udp := (hs_udp s)\<lparr>sent :=
        sent (hs_udp s) @ [(client_addr (hs_udp s), float_bytes (high_state_floats m))]\<rparr>\<rparr>"
      "last_send_time s = None \<and> l = t0 \<or> last_send_time s = Some l" "l + 20000000 \<le> now"
proof -
  define l where "l = (case last_send_time s of None \<Rightarrow> t0 | Some t \<Rightarrow> t)"
  have l: "last_send_time s = None \<and> l = t0 \<or> last_send_time s = Some l"
    by (simp add: l_def split: option.splits)
  show thesis
  proof (cases "(now - l) div 1000000 < 20")
    case True
    then have "now < l + 20000000" by linarith
    with True l show ?thesis by (intro skip) (auto simp: HighStateHandler_def l_def)
  next
    case False
    then have "l + 20000000 \<le> now" by linarith
    with False l assms show ?thesis by (intro send) (auto simp: HighStateHandler_def l_def sendtoClient_def)
  qed
qed

lemma send_times_spaced:
  assumes "client_ready (hs_udp s)"
  shows "sorted_wrt (\<lambda>a b. a + 20000000 \<le> b) (map fst (send_times es s))
    \<and> (\<forall>l t m. last_send_time s = Some l \<longrightarrow> (t, m) \<in> set (send_times es s) \<longrightarrow> l + 20000000 \<le> t)
    \<and> sent (hs_udp (high_run es s)) = sent (hs_udp s) @
        map (\<lambda>(t, m). (client_addr (hs_udp s), float_bytes (high_state_floats m))) (send_times es s)"
  using assms
proof (induction es s rule: high_run.induct)
  case (2 t0 now m es s)
  from "2.prems" show ?case
  proof (cases rule: handler_cases [where ?t0.0 = t0 and now = now and m = m])
    case (skip l)
    with "2.IH" "2.prems" show ?thesis by auto
  next
    case (send l)
    define s' where "s' = HighStateHandler t0 now m s"
    have s': "client_ready (hs_udp s')" "last_send_time s' = Some now" "client_addr (hs_udp s') = client_addr (hs_udp s)"
      "sent (hs_udp s') = sent (hs_udp s) @ [(client_addr (hs_udp s), float_bytes (high_state_floats m))]"
      using send(1) "2.prems" by (simp_all add: s'_def)
    have st: "send_times ((t0, now, m) # es) s = (now, m) # send_times es s'"
      using s' by (simp add: Let_def flip: s'_def)
    note ih = "2.IH" [folded s'_def, OF s'(1)]
    have "now + 20000000 \<le> t" if "(t, m') \<in> set (send_times es s')" for t m'
      using ih s'(2) that by blast
    moreover from this send(2,3) have "l' + 20000000 \<le> t"
      if "last_send_time s = Some l'" "(t, m') \<in> set ((now, m) # send_times es s')" for l' t m'
      using that by fastforce
    ultimately show ?thesis
      unfolding st using ih s' by (auto simp flip: s'_def)
  qed
qed simp

lemma send_times_from: "(t, m) \<in> set (send_times es s) \<Longrightarrow> \<exists>t0. (t0, t, m) \<in> set es"
  by (induction es s rule: send_times.induct) (auto simp: Let_def split: if_splits)

text \<open>Once a client is known, the high state service sends at most one packet in any 20 milliseconds,
  each packet is 52 bytes long, and the client reads from it position, quaternion,
  accelerometer and gyroscope of the message it was made from.\<close>

lemma high_state_stream:
  assumes "client_ready (hs_udp s)"
    and "\<forall>e \<in> set es. list_all finite32 (high_state_floats (snd (snd e)))"
  shows "sorted_wrt (\<lambda>a b. a + 20000000 \<le> b) (map fst (send_times es s)) \<and>
    (\<exists>ps. sent (hs_udp (high_run es s)) = sent (hs_udp s) @ ps \<and> map fst ps = map (\<lambda>_. client_addr (hs_udp s)) ps \<and>
      list_all (\<lambda>(a, p). length p = 52) ps \<and>
      map (decode_floats \<circ> snd) ps = map (map Some \<circ> high_state_floats \<circ> snd) (send_times es s))"
proof -
  let ?ps = "map (\<lambda>(t, m). (client_addr (hs_udp s), float_bytes (high_state_floats m))) (send_times es s)"
  have "decode_floats (float_bytes (high_state_floats m)) = map Some (high_state_floats m)"
    if "(t, m) \<in> set (send_times es s)" for t m
    using send_times_from [OF that] assms(2) by (intro decode_float_bytes) fastforce
  then have "map (decode_floats \<circ> snd) ?ps = map (map Some \<circ> high_state_floats \<circ> snd) (send_times es s)"
    by auto
  moreover have "list_all (\<lambda>(a, p). length p = 52) ?ps"
    by (auto simp: list_all_iff high_state_floats_def)
  ultimately show ?thesis
    using send_times_spaced [OF assms(1), of es] by (intro conjI exI [of _ ?ps]) auto
qed

definition unit_state :: high_state where
  "unit_state = \<lparr>hs_position = [1, 0, 0], hs_quaternion = [1, 0, 0, 0], hs_accelerometer = [0, 0, 1], hs_gyroscope = [0, 0, 0]\<rparr>"

lemma high_state_stream_sample:
  "map fst (send_times [(0, 0, unit_state), (0, 25000000, unit_state), (0, 30000000, unit_state)]
      \<lparr>last_send_time = None, hs_udp = \<lparr>client_ready = True, client_addr = (1, 2), sent = []\<rparr>\<rparr>) = [25000000] \<and>
   (\<exists>p. sent (hs_udp (high_run [(0, 0, unit_state), (0, 25000000, unit_state), (0, 30000000, unit_state)]
      \<lparr>last_send_time = None, hs_udp = \<lparr>client_ready = True, client_addr = (1, 2), sent = []\<rparr>\<rparr>)) = [((1, 2), p)]
     \<and> decode_floats p = map Some [1, 0, 0, 1, 0, 0, 0, 0, 0, 1, 0, 0, 0])"
proof -
  let ?es = "[(0, 0, unit_state), (0, 25000000, unit_state), (0, 30000000, unit_state)]"
  define s where "s = \<lparr>last_send_time = None, hs_udp = \<lparr>client_ready = True, client_addr = (1, 2), sent = []\<rparr>\<rparr>"
  have "finite32 0" "finite32 1"
    using rep32_of_int [of 0] rep32_of_int [of 1] by (simp_all add: finite32_def)
  then have f: "list_all finite32 (high_state_floats unit_state)"
    by (simp add: high_state_floats_def unit_state_def)
  have st: "send_times ?es s = [(25000000, unit_state)]"
    by (simp add: s_def HighStateHandler_def sendtoClient_def)
  have "client_ready (hs_udp s)" by (simp add: s_def)
  from high_state_stream [OF this, of ?es] f st show ?thesis
    unfolding s_def [symmetric] by (auto simp: s_def unit_state_def high_state_floats_def map_eq_Cons_conv)
qed

end
