(* ===== verification/Livox.thy ===== *)
theory Livox
  imports Udp
begin

text \<open>
  The lidar services \<open>typego_livox_full_service.cpp\<close> (all points and IMU samples, in packets of at most
  1472 bytes with a header in network byte order) and \<open>typego_livox_service.cpp\<close> (points near the
  sensor plane, in packets of at most 512 bytes that start with a sequence number). The Livox SDK is
  not part of the sources: its enumerators, the buffer it hands to the callbacks and the
  decoding of its key-value parameters are arguments of the model.
\<close>

section \<open>Fixed-width codecs\<close>

text \<open>How a client cuts a payload into elements of \<open>w\<close> bytes.\<close>

function decode_all :: "nat \<Rightarrow> (u8 list \<Rightarrow> 'a) \<Rightarrow> u8 list \<Rightarrow> 'a list" where
  "decode_all w dec bs = (if w = 0 \<or> length bs < w then [] else dec (take w bs) # decode_all w dec (drop w bs))"
  by pat_completeness auto
termination by (relation "measure (\<lambda>(w, dec, bs). length bs)") auto

declare decode_all.simps [simp del]

locale fixed_codec =
  fixes enc :: "'a \<Rightarrow> u8 list" and dec :: "u8 list \<Rightarrow> 'a" and w :: nat
  assumes width: "length (enc x) = w" and positive: "0 < w" and round: "dec (enc x) = x"
begin

lemma decode_nil: "decode_all w dec [] = []"
  using positive by (simp add: decode_all.simps)

lemma decode_cons: "decode_all w dec (enc x @ bs) = x # decode_all w dec bs"
  using positive by (subst decode_all.simps) (simp add: width round)

lemma decode_concat: "decode_all w dec (concat (map enc xs)) = xs"
  by (induction xs) (simp_all add: decode_nil decode_cons)

lemma decode_snoc: "decode_all w dec (concat (map enc xs) @ enc x) = xs @ [x]"
  using decode_concat [of "xs @ [x]"] by simp

lemma length_concat_enc: "length (concat (map enc xs)) = w * length xs"
  by (induction xs) (simp_all add: width)

end

section \<open>Points and samples\<close>

text \<open>A raw point has 32-bit coordinates; the services keep the low 16 bits of each.\<close>

record raw_point =
  px :: "32 word"
  py :: "32 word"
  pz :: "32 word"

type_synonym opt_point = "u16 \<times> u16 \<times> u16"

definition OptimizedPoint :: "raw_point \<Rightarrow> opt_point" where
  "OptimizedPoint p = (ucast (px p), ucast (py p), ucast (pz p))"

definition point_bytes :: "opt_point \<Rightarrow> u8 list" where
  "point_bytes q = (case q of (x, y, z) \<Rightarrow> le16 x @ le16 y @ le16 z)"

definition point_of_bytes :: "u8 list \<Rightarrow> opt_point" where
  "point_of_bytes bs = (of_le16 (take 2 bs), of_le16 (take 2 (drop 2 bs)), of_le16 (take 2 (drop 4 bs)))"

interpretation point_codec: fixed_codec point_bytes point_of_bytes 6
  by unfold_locales (simp_all add: point_bytes_def point_of_bytes_def split: prod.splits)

text \<open>An IMU sample, each field as the 32 bits of its float: they are copied unchanged.\<close>

record imu_data =
  acc_x :: u32
  acc_y :: u32
  acc_z :: u32
  gyro_x :: u32
  gyro_y :: u32
  gyro_z :: u32

definition imu_bytes :: "imu_data \<Rightarrow> u8 list" where
  "imu_bytes s = le32 (acc_x s) @ le32 (acc_y s) @ le32 (acc_z s) @ le32 (gyro_x s) @ le32 (gyro_y s) @ le32 (gyro_z s)"

definition imu_of_bytes :: "u8 list \<Rightarrow> imu_data" where
  "imu_of_bytes bs = (let f = (\<lambda>k. of_le32 (take 4 (drop (4 * k) bs)))
     in \<lparr>acc_x = f 0, acc_y = f 1, acc_z = f 2, gyro_x = f 3, gyro_y = f 4, gyro_z = f 5\<rparr>)"

interpretation imu_codec: fixed_codec imu_bytes imu_of_bytes 24
  by unfold_locales (simp_all add: imu_bytes_def imu_of_bytes_def Let_def)

section \<open>Callback input\<close>

text \<open>
  The packet of the SDK as the callbacks use it. \<open>points\<close> and \<open>samples\<close> are what its data holds
  when read as high-resolution points and as IMU samples; reading past them is undefined.
\<close>

record ethernet_packet =
  data_type :: u8
  dot_num :: u32
  timestamp :: u64
  points :: "raw_point list"
  samples :: "imu_data list"

record livox_enums =
  kHighData :: u8
  kLowData :: u8

definition element :: "('a \<Rightarrow> u8 list) \<Rightarrow> 'a list \<Rightarrow> nat \<Rightarrow> u8 list option" where
  "element enc xs i = (if i < length xs then Some (enc (xs ! i)) else None)"

section \<open>Full service\<close>

definition MAX_UDP_PAYLOAD :: nat where
  "MAX_UDP_PAYLOAD = 1472"

definition packet_header :: "u16 \<Rightarrow> u64 \<Rightarrow> u32 \<Rightarrow> u8 \<Rightarrow> u8 \<Rightarrow> nat \<Rightarrow> u8 list" where
  "packet_header sequence_id ts handle dev_type dtype count =
     be16 sequence_id @ be32 (ucast (ts div 1000000000)) @ be32 (ucast (ts mod 1000000000)) @ be32 handle @
     [dev_type, dtype] @ be16 (of_nat count)"

definition HEADER_SIZE :: nat where
  "HEADER_SIZE = 18"

lemma length_packet_header [simp]: "length (packet_header s t h v d n) = HEADER_SIZE"
  by (simp add: packet_header_def HEADER_SIZE_def)

definition MAX_POINTS_PER_PACKET :: nat where
  "MAX_POINTS_PER_PACKET = (MAX_UDP_PAYLOAD - HEADER_SIZE) div 6"

definition MAX_IMU_PER_PACKET :: nat where
  "MAX_IMU_PER_PACKET = (MAX_UDP_PAYLOAD - HEADER_SIZE) div 24"

text \<open>
  The sending loop of both callbacks: a header with the next sequence number, then up to \<open>cap\<close>
  elements. The capacity is never 0 in the code.
\<close>

function send_packets :: "nat \<Rightarrow> (u16 \<Rightarrow> nat \<Rightarrow> u8 list) \<Rightarrow> (nat \<Rightarrow> u8 list option) \<Rightarrow>
    u16 \<Rightarrow> nat \<Rightarrow> nat \<Rightarrow> udp \<Rightarrow> (u16 \<times> udp) option" where
  "send_packets cap hdr elem seq_id point_offset remaining_points u =
     (if remaining_points = 0 then Some (seq_id, u)
      else if cap = 0 then None
      else let points_in_packet = (if remaining_points > cap then cap else remaining_points);
               seq_id = seq_id + 1
           in case those (map elem [point_offset..<point_offset + points_in_packet]) of
                None \<Rightarrow> None
              | Some bs \<Rightarrow> send_packets cap hdr elem seq_id (point_offset + points_in_packet)
                  (remaining_points - points_in_packet)
                  (sendtoClient u (hdr seq_id points_in_packet @ concat bs)))"
  by pat_completeness auto
termination by (relation "measure (\<lambda>(cap, hdr, elem, seq_id, off, rem, u). rem)") (auto split: if_splits)

declare send_packets.simps [simp del]

record full_service =
  pointcloud_callback_count :: u64
  last_log_time :: int
  seq_id :: u16
  imu_seq_id :: u16
  fs_udp :: udp

text \<open>The statistics: once a second the counter is printed and reset, if the exchange of the time succeeds.\<close>

definition count_callback :: "int \<Rightarrow> bool \<Rightarrow> full_service \<Rightarrow> full_service" where
  "count_callback log_now exchanged s =
     (let s = s\<lparr>pointcloud_callback_count := pointcloud_callback_count s + 1\<rparr>
      in if (log_now - last_log_time s) div 1000000 \<ge> 1000 \<and> exchanged
         then s\<lparr>last_log_time := log_now, pointcloud_callback_count := 0\<rparr> else s)"

definition full_PointCloudCallback :: "livox_enums \<Rightarrow> int \<Rightarrow> bool \<Rightarrow> u32 \<Rightarrow> u8 \<Rightarrow> ethernet_packet option \<Rightarrow>
    full_service \<Rightarrow> full_service option" where
  "full_PointCloudCallback E log_now exchanged handle dev_type dat s =
     (let s = count_callback log_now exchanged s in
      case dat of None \<Rightarrow> Some s
      | Some d \<Rightarrow>
        if \<not> client_ready (fs_udp s) then Some s
        else if data_type d \<noteq> kHighData E \<and> data_type d \<noteq> kLowData E then Some s
        else map_option (\<lambda>(q, u). s\<lparr>seq_id := q, fs_udp := u\<rparr>)
          (send_packets MAX_POINTS_PER_PACKET
             (\<lambda>q n. packet_header q (timestamp d) handle dev_type (data_type d) n)
             (element (point_bytes \<circ> OptimizedPoint) (points d))
             (seq_id s) 0 (unat (dot_num d)) (fs_udp s)))"

definition ImuDataCallback :: "u32 \<Rightarrow> u8 \<Rightarrow> ethernet_packet option \<Rightarrow> full_service \<Rightarrow> full_service option" where
  "ImuDataCallback handle dev_type dat s =
     (case dat of None \<Rightarrow> Some s
      | Some d \<Rightarrow>
        if \<not> client_ready (fs_udp s) then Some s
        else map_option (\<lambda>(q, u). s\<lparr>imu_seq_id := q, fs_udp := u\<rparr>)
          (send_packets MAX_IMU_PER_PACKET
             (\<lambda>q n. packet_header q (timestamp d) handle dev_type (data_type d) n)
             (element imu_bytes (samples d))
             (imu_seq_id s) 0 (unat (dot_num d)) (fs_udp s)))"

section \<open>Filtering service\<close>

text \<open>The buffer is modelled by its first \<open>offset\<close> bytes, which are the ones that are sent.\<close>

record near_service =
  near_seq_id :: u16
  near_udp :: udp

definition near_plane :: "opt_point \<Rightarrow> bool" where
  "near_plane q = (case q of (x, y, z) \<Rightarrow> sint z > - 80 \<and> sint z < 80)"

definition flush :: "u8 list \<Rightarrow> near_service \<Rightarrow> near_service" where
  "flush packet s = s\<lparr>near_seq_id := near_seq_id s + 1, near_udp := sendtoClient (near_udp s) packet\<rparr>"

definition near_point :: "opt_point \<Rightarrow> u8 list \<times> near_service \<Rightarrow> u8 list \<times> near_service" where
  "near_point q ps = (case ps of (packet, s) \<Rightarrow>
     if near_plane q then
       let (packet, s) = (if length packet + 6 > 512 then (le16 (near_seq_id s + 1), flush packet s) else (packet, s))
       in (packet @ point_bytes q, s)
     else (packet, s))"

definition near_PointCloudCallback :: "livox_enums \<Rightarrow> ethernet_packet option \<Rightarrow> near_service \<Rightarrow> near_service option" where
  "near_PointCloudCallback E dat s =
     (case dat of None \<Rightarrow> Some s
      | Some d \<Rightarrow>
        if data_type d \<noteq> kHighData E then Some s
        else if length (points d) < unat (dot_num d) then None
        else let (packet, s) = fold near_point (map OptimizedPoint (take (unat (dot_num d)) (points d)))
                   (le16 (near_seq_id s), s)
             in Some (if length packet > 2 then flush packet s else s))"

section \<open>Address report of the lidar\<close>

record net_info =
  host_ipaddr :: "u8 list"
  host_port :: u16
  lidar_port :: u16

definition read_info :: "u8 list \<Rightarrow> net_info option" where
  "read_info val = (if length val < 8 then None
     else Some \<lparr>host_ipaddr = take 4 val, host_port = of_le16 (take 2 (drop 4 val)), lidar_port = of_le16 (take 2 (drop 6 val))\<rparr>)"

text \<open>\<open>kv_at\<close> reads the key, the length and the value bytes of the parameter at an offset. The offset is 16 bits wide.\<close>

fun info_loop :: "(u16 \<Rightarrow> (u16 \<times> u16 \<times> u8 list) option) \<Rightarrow> u16 \<Rightarrow> u16 \<Rightarrow> nat \<Rightarrow> u16 \<Rightarrow> net_info \<times> net_info \<Rightarrow>
    (net_info \<times> net_info) option" where
  "info_loop kv_at kPoint kImu 0 off r = Some r"
| "info_loop kv_at kPoint kImu (Suc n) off (p, i) = (case kv_at off of None \<Rightarrow> None
     | Some (key, len, val) \<Rightarrow>
       if key = kPoint then (case read_info val of None \<Rightarrow> None
         | Some x \<Rightarrow> info_loop kv_at kPoint kImu n (off + 4 + len) (x, i))
       else if key = kImu then (case read_info val of None \<Rightarrow> None
         | Some x \<Rightarrow> info_loop kv_at kPoint kImu n (off + 4 + len) (p, x))
       else info_loop kv_at kPoint kImu n (off + 4 + len) (p, i))"

text \<open>The outer option is undefined behaviour, the inner one an early return without a report.\<close>

definition QueryInternalInfoCallback :: "(u16 \<Rightarrow> (u16 \<times> u16 \<times> u8 list) option) \<Rightarrow> u16 \<Rightarrow> u16 \<Rightarrow> bool \<Rightarrow> u8 option \<Rightarrow>
    (net_info \<times> net_info) option option" where
  "QueryInternalInfoCallback kv_at kPoint kImu success param_num =
     (if \<not> success then Some None
      else case param_num of None \<Rightarrow> Some None
      | Some n \<Rightarrow> let z = \<lparr>host_ipaddr = [0, 0, 0, 0], host_port = 0, lidar_port = 0\<rparr>
          in map_option Some (info_loop kv_at kPoint kImu (unat n) 0 (z, z)))"

section \<open>The packets of the full service\<close>

text \<open>Reference: cut the elements into chunks and number the packets.\<close>

function chunks :: "nat \<Rightarrow> 'a list \<Rightarrow> 'a list list" where
  "chunks cap xs = (if xs = [] \<or> cap = 0 then [] else take cap xs # chunks cap (drop cap xs))"
  by pat_completeness auto
termination by (relation "measure (\<lambda>(cap, xs). length xs)") auto

declare chunks.simps [simp del]

fun packets_of :: "(u16 \<Rightarrow> nat \<Rightarrow> u8 list) \<Rightarrow> ('a \<Rightarrow> u8 list) \<Rightarrow> u16 \<Rightarrow> 'a list list \<Rightarrow> u8 list list" where
  "packets_of hdr enc q [] = []"
| "packets_of hdr enc q (c # cs) = (hdr (q + 1) (length c) @ concat (map enc c)) # packets_of hdr enc (q + 1) cs"

lemma chunks_Nil [simp]: "chunks cap [] = []"
  by (simp add: chunks.simps)

lemma concat_chunks: "0 < cap \<Longrightarrow> concat (chunks cap xs) = xs"
  by (induction cap xs rule: chunks.induct) (subst chunks.simps, simp)

lemma chunks_bounds: "list_all (\<lambda>c. 0 < length c \<and> length c \<le> cap) (chunks cap xs)"
  by (induction cap xs rule: chunks.induct) (subst chunks.simps, simp)

lemma div_ceil_step:
  fixes n c :: nat
  assumes "0 < c"
  shows "(n + c - 1) div c = (if n = 0 then 0 else Suc ((n - c + c - 1) div c))"
proof (cases "n \<le> c")
  case True
  show ?thesis
  proof (cases "n = 0")
    case False
    have "(n + c - 1) div c = 1"
      by (rule div_nat_eqI) (use True False assms in simp_all)
    with True False assms show ?thesis by simp
  qed (use assms in simp)
next
  case False
  then have "n + c - 1 = (n - c + c - 1) + c" by simp
  then have "(n + c - 1) div c = ((n - c + c - 1) + c) div c" by simp
  also have "\<dots> = Suc ((n - c + c - 1) div c)" using assms by (subst div_add_self2) simp_all
  finally show ?thesis using False by simp
qed

lemma length_chunks: "0 < cap \<Longrightarrow> length (chunks cap xs) = (length xs + cap - 1) div cap"
proof (induction cap xs rule: chunks.induct)
  case (1 cap xs)
  show ?case
  proof (cases "xs = []")
    case True
    with "1.prems" show ?thesis by simp
  next
    case False
    with "1.IH" "1.prems" have "length (chunks cap (drop cap xs)) = (length xs - cap + cap - 1) div cap"
      by simp
    with False "1.prems" show ?thesis
      unfolding div_ceil_step [OF "1.prems", of "length xs"] by (subst chunks.simps) simp
  qed
qed

lemma length_packets_of [simp]: "length (packets_of hdr enc q cs) = length cs"
  by (induction cs arbitrary: q) simp_all

lemma those_elements:
  assumes "off + n \<le> length xs"
  shows "those (map (element enc xs) [off..<off + n]) = Some (map enc (take n (drop off xs)))"
proof -
  have "map (element enc xs) [off..<off + n] = map Some (map enc (take n (drop off xs)))"
    using assms by (intro nth_equalityI) (auto simp: element_def)
  moreover have "those (map Some ys) = Some ys" for ys :: "u8 list list" by (induction ys) auto
  ultimately show ?thesis by (simp only:)
qed

lemma send_packets_reference:
  assumes "0 < cap" and "off + rem \<le> length xs" and "client_ready u"
  shows "send_packets cap hdr (element enc xs) q off rem u =
    (let cs = chunks cap (take rem (drop off xs))
     in Some (q + of_nat (length cs), u\<lparr>sent := sent u @ map (Pair (client_addr u)) (packets_of hdr enc q cs)\<rparr>))"
  using assms
proof (induction cap hdr "element enc xs" q off rem u rule: send_packets.induct)
  case (1 cap hdr q off rem u)
  show ?case
  proof (cases "rem = 0")
    case True
    then show ?thesis by (simp add: send_packets.simps)
  next
    case False
    define n where "n = (if rem > cap then cap else rem)"
    have n: "n \<le> rem" "off + n \<le> length xs" "min cap rem = n" using "1.prems" by (auto simp: n_def)
    define u' where "u' = sendtoClient u (hdr (q + 1) n @ concat (map enc (take n (drop off xs))))"
    have u': "client_ready u'" "client_addr u' = client_addr u"
      "u' = u\<lparr>sent := sent u @ [(client_addr u, hdr (q + 1) n @ concat (map enc (take n (drop off xs))))]\<rparr>"
      using "1.prems"(3) by (simp_all add: u'_def sendtoClient_def)
    have ih: "send_packets cap hdr (element enc xs) (q + 1) (off + n) (rem - n) u' =
      (let cs = chunks cap (take (rem - n) (drop (off + n) xs))
       in Some (q + 1 + of_nat (length cs), u'\<lparr>sent := sent u' @ map (Pair (client_addr u')) (packets_of hdr enc (q + 1) cs)\<rparr>))"
      unfolding u'_def using "1.prems" False n by (intro "1.hyps" [of n "q + 1"])
        (simp_all add: n_def those_elements sendtoClient_def)
    have rest: "take (rem - n) (drop (off + n) xs) = drop cap (take rem (drop off xs))"
      by (auto simp: n_def drop_take add.commute)
    have "take cap (take rem (drop off xs)) = take n (drop off xs)" by (simp add: n)
    moreover have "take rem (drop off xs) \<noteq> []" using False "1.prems" by auto
    ultimately have cs: "chunks cap (take rem (drop off xs)) =
        take n (drop off xs) # chunks cap (drop cap (take rem (drop off xs)))"
      using "1.prems"(1) by (subst chunks.simps) simp
    have "send_packets cap hdr (element enc xs) q off rem u =
        send_packets cap hdr (element enc xs) (q + 1) (off + n) (rem - n) u'"
      using False "1.prems" n(2) by (subst send_packets.simps) (simp add: Let_def those_elements u'_def flip: n_def)
    then show ?thesis
      unfolding ih rest cs using n by (simp add: u' Let_def)
  qed
qed

text \<open>
  Reading past the buffer. Data of the low-resolution type is read as high-resolution points, of which
  the buffer holds fewer than it announces: the callback then reads outside of it.
\<close>

lemma those_undefined:
  assumes "length xs < off + n" and "off \<le> length xs"
  shows "those (map (element enc xs) [off..<off + n]) = None"
proof -
  have "None \<in> set ys \<Longrightarrow> those ys = None" for ys :: "u8 list option list"
    by (induction ys) (auto split: option.splits)
  moreover have "element enc xs (length xs) \<in> set (map (element enc xs) [off..<off + n])"
    unfolding set_map by (rule imageI) (use assms in simp)
  ultimately show ?thesis by (simp add: element_def)
qed

lemma send_packets_undefined:
  assumes "length xs < off + rem" and "off \<le> length xs"
  shows "send_packets cap hdr (element enc xs) q off rem u = None"
  using assms
proof (induction cap hdr "element enc xs" q off rem u rule: send_packets.induct)
  case (1 cap hdr q off rem u)
  define n where "n = (if rem > cap then cap else rem)"
  show ?case
  proof (cases "length xs < off + n")
    case True
    with 1 show ?thesis by (subst send_packets.simps) (simp add: Let_def those_undefined flip: n_def)
  next
    case False
    with "1.prems" have "rem \<noteq> 0" by simp
    moreover have "length xs < off + n + (rem - n)" "off + n \<le> length xs" using False "1.prems" by (auto simp: n_def)
    ultimately show ?thesis
      using "1.hyps" [of n "q + 1"] False by (subst send_packets.simps) (simp add: Let_def those_elements flip: n_def)
  qed
qed

lemma low_data_undefined:
  assumes "client_ready (fs_udp s)" and "data_type d = kLowData E" and "length (points d) < unat (dot_num d)"
  shows "full_PointCloudCallback E t x h v (Some d) s = None"
proof -
  have "element (point_bytes \<circ> OptimizedPoint) (points d) = element point_bytes (map OptimizedPoint (points d))"
    by (rule ext) (simp add: element_def)
  with assms show ?thesis
    by (simp add: full_PointCloudCallback_def count_callback_def Let_def send_packets_undefined)
qed

text \<open>What a client reads from a packet of the full service.\<close>

definition packet_seq :: "u8 list \<Rightarrow> u16" where
  "packet_seq p = of_le16 (rev (take 2 p))"

definition packet_count :: "u8 list \<Rightarrow> nat" where
  "packet_count p = unat (of_le16 (rev (take 2 (drop 16 p))))"

definition packet_payload :: "u8 list \<Rightarrow> u8 list" where
  "packet_payload p = drop HEADER_SIZE p"

lemma packet_header_fields:
  "packet_seq (packet_header q t h v d n @ bs) = q"
  "n < 65536 \<Longrightarrow> packet_count (packet_header q t h v d n @ bs) = n"
  "packet_payload (packet_header q t h v d n @ bs) = bs"
  by (simp_all add: packet_header_def packet_seq_def packet_count_def packet_payload_def HEADER_SIZE_def unat_of_nat)

lemma packets_of_seq:
  assumes "\<And>q n bs. sq (hdr q n @ bs) = q"
  shows "map sq (packets_of hdr enc q cs) = map (\<lambda>k. q + 1 + of_nat k) [0..<length cs]"
proof (induction cs arbitrary: q)
  case (Cons c cs)
  then show ?case
    by (simp add: assms upt_conv_Cons map_Suc_upt [symmetric] algebra_simps comp_def del: upt_Suc)
qed simp

lemma packets_of_snoc:
  "packets_of hdr enc q (cs @ [c]) =
     packets_of hdr enc q cs @ [hdr (q + of_nat (length cs) + 1) (length c) @ concat (map enc c)]"
  by (induction cs arbitrary: q) (simp_all add: algebra_simps)

lemma packets_of_all:
  "list_all P (packets_of hdr enc q cs) \<longleftrightarrow>
     (\<forall>k < length cs. P (hdr (q + 1 + of_nat k) (length (cs ! k)) @ concat (map enc (cs ! k))))"
proof (induction cs arbitrary: q)
  case (Cons c cs)
  then show ?case by (auto simp: All_less_Suc2 algebra_simps)
qed simp

context fixed_codec
begin

lemma packets_payload:
  assumes "\<And>q n bs. pl (hdr q n @ bs) = bs"
  shows "concat (map (decode_all w dec \<circ> pl) (packets_of hdr enc q cs)) = concat cs"
  by (induction cs arbitrary: q) (simp_all add: assms decode_concat)

lemma transmitted:
  fixes t :: u64 and h :: u32 and v d :: u8 and q :: u16
  assumes "0 < cap" "cap < 65536" and "HEADER_SIZE + w * cap \<le> MAX_UDP_PAYLOAD" and "n \<le> length xs" and "client_ready u"
  defines "cs \<equiv> chunks cap (take n xs)"
  defines "ps \<equiv> packets_of (\<lambda>q n. packet_header q t h v d n) enc q cs"
  shows "send_packets cap (\<lambda>q n. packet_header q t h v d n) (element enc xs) q 0 n u =
      Some (q + of_nat (length ps), u\<lparr>sent := sent u @ map (Pair (client_addr u)) ps\<rparr>)"
    and "length ps = (n + cap - 1) div cap"
    and "map packet_seq ps = map (\<lambda>k. q + 1 + of_nat k) [0..<length ps]"
    and "concat (map (decode_all w dec \<circ> packet_payload) ps) = take n xs"
    and "list_all (\<lambda>p. length p \<le> MAX_UDP_PAYLOAD \<and> packet_count p = length (decode_all w dec (packet_payload p))) ps"
proof -
  show "send_packets cap (\<lambda>q n. packet_header q t h v d n) (element enc xs) q 0 n u =
      Some (q + of_nat (length ps), u\<lparr>sent := sent u @ map (Pair (client_addr u)) ps\<rparr>)"
    using assms by (simp add: send_packets_reference Let_def)
  show "length ps = (n + cap - 1) div cap"
    using assms by (simp add: ps_def cs_def length_chunks)
  show "map packet_seq ps = map (\<lambda>k. q + 1 + of_nat k) [0..<length ps]"
    unfolding ps_def by (subst packets_of_seq) (simp_all add: packet_header_fields)
  show "concat (map (decode_all w dec \<circ> packet_payload) ps) = take n xs"
    unfolding ps_def by (subst packets_payload) (simp_all add: packet_header_fields cs_def concat_chunks assms(1))
  show "list_all (\<lambda>p. length p \<le> MAX_UDP_PAYLOAD \<and> packet_count p = length (decode_all w dec (packet_payload p))) ps"
    unfolding ps_def packets_of_all
  proof (intro allI impI)
    fix k
    assume "k < length cs"
    then have "length (cs ! k) \<le> cap"
      using chunks_bounds [of cap "take n xs"] by (simp add: cs_def list_all_length)
    moreover from this have "HEADER_SIZE + w * length (cs ! k) \<le> MAX_UDP_PAYLOAD"
      using assms(3) mult_le_mono2 [of "length (cs ! k)" cap w] by linarith
    ultimately show "length (packet_header (q + 1 + of_nat k) t h v d (length (cs ! k)) @ concat (map enc (cs ! k))) \<le> MAX_UDP_PAYLOAD \<and>
        packet_count (packet_header (q + 1 + of_nat k) t h v d (length (cs ! k)) @ concat (map enc (cs ! k))) =
        length (decode_all w dec (packet_payload (packet_header (q + 1 + of_nat k) t h v d (length (cs ! k)) @ concat (map enc (cs ! k)))))"
      using assms(2) by (simp add: packet_header_fields decode_concat length_concat_enc)
  qed
qed

end

lemma element_map: "element (f \<circ> g) xs i = element f (map g xs) i"
  by (simp add: element_def)

lemmas capacity_defs = MAX_POINTS_PER_PACKET_def MAX_IMU_PER_PACKET_def MAX_UDP_PAYLOAD_def HEADER_SIZE_def

section \<open>The packets of the filtering service\<close>

definition near_packets :: "u16 \<Rightarrow> opt_point list list \<Rightarrow> u8 list list" where
  "near_packets q cs = packets_of (\<lambda>q n. le16 q) point_bytes (q - 1) cs"

lemma length_near_packets: "length (near_packets q cs) = length cs"
  by (simp add: near_packets_def)

lemma near_packets_snoc:
  "near_packets q (cs @ [c]) = near_packets q cs @ [le16 (q + of_nat (length cs)) @ concat (map point_bytes c)]"
  by (simp add: near_packets_def packets_of_snoc)

definition near_sent :: "near_service \<Rightarrow> opt_point list list \<Rightarrow> near_service" where
  "near_sent s cs = s\<lparr>near_seq_id := near_seq_id s + of_nat (length cs),
     near_udp := (near_udp s)\<lparr>sent := sent (near_udp s) @ map (Pair (client_addr (near_udp s))) (near_packets (near_seq_id s) cs)\<rparr>\<rparr>"

lemma near_sent_Nil [simp]: "near_sent s [] = s"
  by (simp add: near_sent_def near_packets_def)

lemma flush_near_sent:
  assumes "client_ready (near_udp s)"
  shows "flush (le16 (near_seq_id s + of_nat (length cs)) @ concat (map point_bytes c)) (near_sent s cs) = near_sent s (cs @ [c])"
  using assms by (simp add: flush_def near_sent_def sendtoClient_def near_packets_snoc algebra_simps)

definition near_buffer :: "near_service \<Rightarrow> opt_point list list \<Rightarrow> opt_point list \<Rightarrow> u8 list \<times> near_service" where
  "near_buffer s cs acc = (le16 (near_seq_id s + of_nat (length cs)) @ concat (map point_bytes acc), near_sent s cs)"

lemma near_point_buffer:
  assumes "client_ready (near_udp s)" and "length acc \<le> 85"
  shows "near_point q (near_buffer s cs acc) =
    (if \<not> near_plane q then near_buffer s cs acc
     else if length acc < 85 then near_buffer s cs (acc @ [q])
     else near_buffer s (cs @ [acc]) [q])"
proof -
  have "length (le16 (near_seq_id s + of_nat (length cs)) @ concat (map point_bytes acc)) + 6 > 512 \<longleftrightarrow> \<not> length acc < 85"
    using assms(2) by (auto simp: point_codec.length_concat_enc)
  moreover have "near_seq_id (near_sent s cs) = near_seq_id s + of_nat (length cs)" by (simp add: near_sent_def)
  ultimately show ?thesis
    by (simp add: near_point_def near_buffer_def flush_near_sent [OF assms(1)] algebra_simps)
qed

lemma near_fold:
  assumes "client_ready (near_udp s)" and "length acc \<le> 85"
  shows "\<exists>ds bcc. fold near_point qs (near_buffer s cs acc) = near_buffer s (cs @ ds) bcc \<and> length bcc \<le> 85 \<and>
    concat ds @ bcc = acc @ filter near_plane qs \<and> list_all (\<lambda>c. length c = 85) ds \<and> (acc \<noteq> [] \<or> ds \<noteq> [] \<longrightarrow> bcc \<noteq> [])"
  using assms
proof (induction qs arbitrary: cs acc)
  case Nil
  then show ?case by (intro exI [of _ "[]"] exI [of _ acc]) simp
next
  case (Cons q qs)
  consider "\<not> near_plane q" | "near_plane q" "length acc < 85" | "near_plane q" "length acc = 85"
    using Cons.prems by force
  then show ?case
  proof cases
    case 1
    with Cons show ?thesis by (simp add: near_point_buffer)
  next
    case 2
    with Cons.prems obtain ds bcc where "fold near_point qs (near_buffer s cs (acc @ [q])) = near_buffer s (cs @ ds) bcc"
        "length bcc \<le> 85" "concat ds @ bcc = (acc @ [q]) @ filter near_plane qs" "list_all (\<lambda>c. length c = 85) ds" "bcc \<noteq> []"
      using Cons.IH [of "acc @ [q]" cs] by auto
    with 2 Cons.prems show ?thesis by (intro exI [of _ ds] exI [of _ bcc]) (simp add: near_point_buffer)
  next
    case 3
    with Cons.prems obtain ds bcc where "fold near_point qs (near_buffer s (cs @ [acc]) [q]) = near_buffer s ((cs @ [acc]) @ ds) bcc"
        "length bcc \<le> 85" "concat ds @ bcc = [q] @ filter near_plane qs" "list_all (\<lambda>c. length c = 85) ds" "bcc \<noteq> []"
      using Cons.IH [of "[q]" "cs @ [acc]"] by auto
    with 3 Cons.prems show ?thesis by (intro exI [of _ "acc # ds"] exI [of _ bcc]) (simp add: near_point_buffer)
  qed
qed

text \<open>What a client reads from a packet of the filtering service.\<close>

definition near_seq :: "u8 list \<Rightarrow> u16" where
  "near_seq p = of_le16 (take 2 p)"

definition near_payload :: "u8 list \<Rightarrow> u8 list" where
  "near_payload p = drop 2 p"

lemma near_packets_read:
  assumes "list_all (\<lambda>c. 0 < length c \<and> length c \<le> 85) cs"
  shows "map near_seq (near_packets q cs) = map (\<lambda>k. q + of_nat k) [0..<length cs]"
    and "concat (map (decode_all 6 point_of_bytes \<circ> near_payload) (near_packets q cs)) = concat cs"
    and "list_all (\<lambda>p. 2 < length p \<and> length p \<le> 512) (near_packets q cs)"
proof -
  show "map near_seq (near_packets q cs) = map (\<lambda>k. q + of_nat k) [0..<length cs]"
    unfolding near_packets_def by (subst packets_of_seq) (simp_all add: near_seq_def)
  show "concat (map (decode_all 6 point_of_bytes \<circ> near_payload) (near_packets q cs)) = concat cs"
    unfolding near_packets_def by (rule point_codec.packets_payload) (simp add: near_payload_def)
  show "list_all (\<lambda>p. 2 < length p \<and> length p \<le> 512) (near_packets q cs)"
    unfolding near_packets_def packets_of_all using assms
    by (auto simp: point_codec.length_concat_enc list_all_length)
qed

section \<open>What the services guarantee\<close>

lemma point_cloud_transmits:
  assumes "client_ready (fs_udp s)" and "data_type d = kHighData E \<or> data_type d = kLowData E"
    and "unat (dot_num d) \<le> length (points d)"
  shows "\<exists>s' ps. full_PointCloudCallback E t x h v (Some d) s = Some s' \<and>
      sent (fs_udp s') = sent (fs_udp s) @ map (Pair (client_addr (fs_udp s))) ps \<and>
      length ps = (unat (dot_num d) + 241) div 242 \<and>
      list_all (\<lambda>p. length p \<le> 1472 \<and> packet_count p = length (decode_all 6 point_of_bytes (packet_payload p))) ps \<and>
      map packet_seq ps = map (\<lambda>k. seq_id s + 1 + of_nat k) [0..<length ps] \<and> seq_id s' = seq_id s + of_nat (length ps) \<and>
      concat (map (decode_all 6 point_of_bytes \<circ> packet_payload) ps) = map OptimizedPoint (take (unat (dot_num d)) (points d))"
proof -
  define s1 where "s1 = count_callback t x s"
  have s1: "fs_udp s1 = fs_udp s" "seq_id s1 = seq_id s" by (simp_all add: s1_def count_callback_def Let_def)
  have el: "element (point_bytes \<circ> OptimizedPoint) (points d) = element point_bytes (map OptimizedPoint (points d))"
    by (rule ext) (rule element_map)
  have cap: "MAX_POINTS_PER_PACKET = 242" by (simp add: capacity_defs)
  have "0 < (242 :: nat)" "(242 :: nat) < 65536" "HEADER_SIZE + 6 * 242 \<le> MAX_UDP_PAYLOAD"
      "unat (dot_num d) \<le> length (map OptimizedPoint (points d))"
    using assms(3) by (simp_all add: capacity_defs)
  note tr = point_codec.transmitted [OF this assms(1), of "timestamp d" h v "data_type d" "seq_id s"]
  define ps where "ps = packets_of (\<lambda>q n. packet_header q (timestamp d) h v (data_type d) n) point_bytes (seq_id s)
    (chunks 242 (take (unat (dot_num d)) (map OptimizedPoint (points d))))"
  note tr = tr [folded ps_def]
  define sp where "sp = s1\<lparr>seq_id := seq_id s + of_nat (length ps),
      fs_udp := (fs_udp s)\<lparr>sent := sent (fs_udp s) @ map (Pair (client_addr (fs_udp s))) ps\<rparr>\<rparr>"
  have cp: "full_PointCloudCallback E t x h v (Some d) s = Some sp"
    using assms(1,2) tr(1) by (auto simp: full_PointCloudCallback_def s1_def [symmetric] s1 el cap sp_def)
  show ?thesis
    by (rule exI [of _ sp], rule exI [of _ ps], intro conjI)
      (use cp tr(2-5) in \<open>simp_all add: sp_def take_map MAX_UDP_PAYLOAD_def\<close>)
qed

lemma imu_transmits:
  assumes "client_ready (fs_udp s)" and "unat (dot_num e) \<le> length (samples e)"
  shows "\<exists>s' ps. ImuDataCallback h v (Some e) s = Some s' \<and>
      sent (fs_udp s') = sent (fs_udp s) @ map (Pair (client_addr (fs_udp s))) ps \<and>
      length ps = (unat (dot_num e) + 59) div 60 \<and>
      list_all (\<lambda>p. length p \<le> 1472 \<and> packet_count p = length (decode_all 24 imu_of_bytes (packet_payload p))) ps \<and>
      map packet_seq ps = map (\<lambda>k. imu_seq_id s + 1 + of_nat k) [0..<length ps] \<and> imu_seq_id s' = imu_seq_id s + of_nat (length ps) \<and>
      concat (map (decode_all 24 imu_of_bytes \<circ> packet_payload) ps) = take (unat (dot_num e)) (samples e)"
proof -
  have cap: "MAX_IMU_PER_PACKET = 60" by (simp add: capacity_defs)
  have "0 < (60 :: nat)" "(60 :: nat) < 65536" "HEADER_SIZE + 24 * 60 \<le> MAX_UDP_PAYLOAD"
    by (simp_all add: capacity_defs)
  note ti = imu_codec.transmitted [OF this assms(2,1), of "timestamp e" h v "data_type e" "imu_seq_id s"]
  define qs where "qs = packets_of (\<lambda>q n. packet_header q (timestamp e) h v (data_type e) n) imu_bytes (imu_seq_id s)
    (chunks 60 (take (unat (dot_num e)) (samples e)))"
  note ti = ti [folded qs_def]
  define si where "si = s\<lparr>imu_seq_id := imu_seq_id s + of_nat (length qs),
      fs_udp := (fs_udp s)\<lparr>sent := sent (fs_udp s) @ map (Pair (client_addr (fs_udp s))) qs\<rparr>\<rparr>"
  have ci: "ImuDataCallback h v (Some e) s = Some si"
    using assms(1) ti(1) by (simp add: ImuDataCallback_def cap si_def)
  show ?thesis
    by (rule exI [of _ si], rule exI [of _ qs], intro conjI)
      (use ci ti(2-5) in \<open>simp_all add: si_def MAX_UDP_PAYLOAD_def\<close>)
qed


definition one_point :: ethernet_packet where
  "one_point = \<lparr>data_type = 1, dot_num = 1, timestamp = 5, points = [\<lparr>px = 65537, py = 2, pz = 70\<rparr>],
     samples = [\<lparr>acc_x = 1, acc_y = 2, acc_z = 3, gyro_x = 4, gyro_y = 5, gyro_z = 6\<rparr>]\<rparr>"

lemma one_point_kept:
  "filter near_plane (map OptimizedPoint (take (unat (dot_num one_point)) (points one_point))) = [(1, 2, 70)]"
  by code_simp

definition one_client :: udp where
  "one_client = \<lparr>client_ready = True, client_addr = (9, 8), sent = []\<rparr>"


text \<open>C27: The filtering service sends exactly the points whose 16-bit height lies strictly between -80 and 80,
  in order, in packets of more than 2 and at most 512 bytes with consecutive sequence numbers, and
  leaves the sequence number for the next packet.\<close>

theorem near_service_filters:
  assumes "client_ready (near_udp s)" and "data_type d = kHighData E" and "unat (dot_num d) \<le> length (points d)"
  shows "\<exists>s' ps. near_PointCloudCallback E (Some d) s = Some s' \<and>
    sent (near_udp s') = sent (near_udp s) @ map (Pair (client_addr (near_udp s))) ps \<and>
    list_all (\<lambda>p. 2 < length p \<and> length p \<le> 512) ps \<and>
    map near_seq ps = map (\<lambda>k. near_seq_id s + of_nat k) [0..<length ps] \<and>
    near_seq_id s' = near_seq_id s + of_nat (length ps) \<and>
    concat (map (decode_all 6 point_of_bytes \<circ> near_payload) ps) =
      filter near_plane (map OptimizedPoint (take (unat (dot_num d)) (points d)))"
proof -
  define qs where "qs = map OptimizedPoint (take (unat (dot_num d)) (points d))"
  have start: "(le16 (near_seq_id s), s) = near_buffer s [] []" by (simp add: near_buffer_def)
  obtain ds bcc where f: "fold near_point qs (near_buffer s [] []) = near_buffer s ds bcc" "length bcc \<le> 85"
      "concat ds @ bcc = filter near_plane qs" "list_all (\<lambda>c. length c = 85) ds" "ds \<noteq> [] \<longrightarrow> bcc \<noteq> []"
    using near_fold [OF assms(1), of "[]" qs "[]"] by auto
  define cs where "cs = (if bcc = [] then [] else ds @ [bcc])"
  have cs: "list_all (\<lambda>c. 0 < length c \<and> length c \<le> 85) cs" "concat cs = filter near_plane qs"
    using f by (auto simp: cs_def list_all_iff)
  have "near_PointCloudCallback E (Some d) s =
      Some (case near_buffer s ds bcc of (packet, s) \<Rightarrow> if length packet > 2 then flush packet s else s)"
    using assms(2,3) by (simp add: near_PointCloudCallback_def qs_def [symmetric] start f(1) Let_def split_beta)
  also have "\<dots> = Some (near_sent s cs)"
  proof (cases "bcc = []")
    case True
    then have "ds = []" using f(5) by simp
    with True show ?thesis by (simp add: near_buffer_def cs_def)
  next
    case False
    then show ?thesis
      using flush_near_sent [OF assms(1), of ds bcc]
      by (simp add: near_buffer_def cs_def point_codec.length_concat_enc)
  qed
  finally have "near_PointCloudCallback E (Some d) s = Some (near_sent s cs)" .
  then show ?thesis
    unfolding qs_def [symmetric] using near_packets_read [OF cs(1), of "near_seq_id s"] cs(2)
    by (intro exI [of _ "near_sent s cs"] exI [of _ "near_packets (near_seq_id s) cs"])
      (simp add: near_sent_def length_near_packets)
qed

theorem near_service_filters_witness:
  "\<exists>s'. near_PointCloudCallback \<lparr>kHighData = 1, kLowData = 2\<rparr> (Some one_point)
      \<lparr>near_seq_id = 4, near_udp = one_client\<rparr> = Some s' \<and>
    concat (map (decode_all 6 point_of_bytes \<circ> near_payload) (map snd (sent (near_udp s')))) = [(1, 2, 70)]"
proof -
  define s where "s = \<lparr>near_seq_id = 4, near_udp = one_client\<rparr>"
  define E :: livox_enums where "E = \<lparr>kHighData = 1, kLowData = 2\<rparr>"
  have "client_ready (near_udp s)" "data_type one_point = kHighData E"
    "unat (dot_num one_point) \<le> length (points one_point)"
    by (simp_all add: s_def E_def one_point_def one_client_def)
  from near_service_filters [OF this] obtain s' ps where
    1: "near_PointCloudCallback E (Some one_point) s = Some s'"
      "sent (near_udp s') = sent (near_udp s) @ map (Pair (client_addr (near_udp s))) ps"
      "concat (map (decode_all 6 point_of_bytes \<circ> near_payload) ps) =
        filter near_plane (map OptimizedPoint (take (unat (dot_num one_point)) (points one_point)))"
    by blast
  have "map snd (sent (near_udp s')) = ps" using 1(2) by (simp add: s_def one_client_def comp_def)
  with 1 show ?thesis unfolding E_def s_def one_point_kept by (intro exI [of _ s']) (simp only: simp_thms)
qed

end
