(* ===== verification/Wav.thy ===== *)
theory Wav
  imports Prelude
begin

text \<open>
  Reading and writing of wave files for the audio client of the G1 (\<open>example/g1/audio/wav.hpp\<close>): the
  input stream with its failure state, the header checks, the search for the data chunk, which
  may run forever, and the writer.
\<close>

section \<open>Input stream\<close>

text \<open>
  A binary file stream: content, read position and whether the stream is usable. A read that
  meets the end stores what there is and fails; a failed stream reads and seeks nothing. A
  seek may go past the end, but not before the beginning.
\<close>

record istream =
  content :: "u8 list"
  pos :: nat
  good :: bool

definition open_stream :: "u8 list \<Rightarrow> istream" where
  "open_stream bs = \<lparr>content = bs, pos = 0, good = True\<rparr>"

definition read_bytes :: "nat \<Rightarrow> istream \<Rightarrow> u8 list \<times> istream" where
  "read_bytes n s = (if \<not> good s then ([], s)
     else let bs = take n (drop (pos s) (content s))
          in (bs, s\<lparr>pos := pos s + length bs, good := (length bs = n)\<rparr>))"

definition seekg :: "int \<Rightarrow> istream \<Rightarrow> istream" where
  "seekg off s = (if \<not> good s then s
     else if int (pos s) + off < 0 then s\<lparr>good := False\<rparr>
     else s\<lparr>pos := nat (int (pos s) + off)\<rparr>)"

text \<open>Reading into a variable overwrites as many of its bytes as were read.\<close>

definition read32 :: "u32 \<Rightarrow> istream \<Rightarrow> u32 \<times> istream" where
  "read32 old s = (let (bs, s) = read_bytes 4 s in (of_le32 (bs @ drop (length bs) (le32 old)), s))"

definition read16 :: "u16 \<Rightarrow> istream \<Rightarrow> u16 \<times> istream" where
  "read16 old s = (let (bs, s) = read_bytes 2 s in (of_le16 (bs @ drop (length bs) (le16 old)), s))"

section \<open>Header\<close>

record WaveHeader =
  chunk_id :: u32
  chunk_size :: u32
  wave_format :: u32
  subchunk1_id :: u32
  subchunk1_size :: u32
  audio_format :: u16
  num_channels :: u16
  sample_rate :: u32
  byte_rate :: u32
  block_align :: u16
  bits_per_sample :: u16
  subchunk2_id :: u32
  subchunk2_size :: u32

definition header_bytes :: "WaveHeader \<Rightarrow> u8 list" where
  "header_bytes h = le32 (chunk_id h) @ le32 (chunk_size h) @ le32 (wave_format h) @ le32 (subchunk1_id h) @
     le32 (subchunk1_size h) @ le16 (audio_format h) @ le16 (num_channels h) @ le32 (sample_rate h) @
     le32 (byte_rate h) @ le16 (block_align h) @ le16 (bits_per_sample h) @ le32 (subchunk2_id h) @ le32 (subchunk2_size h)"

lemma length_header_bytes: "length (header_bytes h) = 44"
  by (simp add: header_bytes_def)

definition RIFF :: u32 where "RIFF = 0x46464952"
definition WAVE :: u32 where "WAVE = 0x45564157"
definition JUNK :: u32 where "JUNK = 0x4b4e554a"
definition FMT :: u32 where "FMT = 0x20746d66"
definition DATA :: u32 where "DATA = 0x61746164"

text \<open>The chunk sizes are signed. The loop ends when the stream fails or a data chunk is found.\<close>

partial_function (option) SeekToDataChunk :: "istream \<Rightarrow> u32 \<Rightarrow> u32 \<Rightarrow> (istream \<times> u32 \<times> u32) option" where
  "SeekToDataChunk is cid csize =
     (if good is \<and> cid \<noteq> DATA then
        let is = seekg (sint csize) is; (cid, is) = read32 cid is; (csize, is) = read32 csize is
        in SeekToDataChunk is cid csize
      else Some (is, cid, csize))"

section \<open>Reader\<close>

text \<open>How the reader may stop other than by returning: signed overflow, a vector of impossible
  length, an access outside a buffer.\<close>

datatype wav_stop = SignedOverflow | LengthError | BufferOverflow

text \<open>The return value and the output parameters that were assigned.\<close>

record wav_result =
  is_ok :: bool
  sampling_rate :: "u32 option"
  channelCount :: "8 word option"
  answer :: "u8 list"

definition not_ok :: "8 word option \<Rightarrow> u32 option \<Rightarrow> wav_stop + wav_result" where
  "not_ok ch rate = Inr \<lparr>is_ok = False, sampling_rate = rate, channelCount = ch, answer = []\<rparr>"

text \<open>Division of the source truncates.\<close>

definition tdiv8 :: "int \<Rightarrow> int" where
  "tdiv8 x = (if 0 \<le> x then x div 8 else - ((- x) div 8))"

definition fits32 :: "int \<Rightarrow> bool" where
  "fits32 x \<longleftrightarrow> - (2 ^ 31) \<le> x \<and> x < 2 ^ 31"

text \<open>From the fields of the format chunk on: the samples after the data chunk header.\<close>

definition read_samples :: "8 word option \<Rightarrow> u32 \<Rightarrow> istream \<Rightarrow> u32 \<Rightarrow> wav_stop + wav_result" where
  "read_samples ch rate is csize =
     (let n = sint csize; samples = (if 0 \<le> n then n div 2 else - ((- n) div 2)) in
      if samples < 0 then Inl LengthError
      else if n < 0 then not_ok ch (Some rate)
      else let (bs, is) = read_bytes (nat n) is in
        if length bs > 2 * nat samples then Inl BufferOverflow
        else if \<not> good is then not_ok ch (Some rate)
        else Inr \<lparr>is_ok = True, sampling_rate = Some rate, channelCount = ch,
               answer = concat (map (\<lambda>i. let v = of_le16 [bs ! (2 * i), bs ! (2 * i + 1)] in [ucast v, ucast (drop_bit 8 v)])
                 [0..<nat samples])\<rparr>)"

definition read_data :: "8 word option \<Rightarrow> u32 \<Rightarrow> u32 \<Rightarrow> istream \<Rightarrow> (wav_stop + wav_result) option" where
  "read_data ch rate fmt_size is =
     (let (extra_size, is) = (if fmt_size = 18 then read16 (- 1) is else (0, is)) in
      if fmt_size = 18 \<and> extra_size \<noteq> 0 then Some (not_ok ch None)
      else let (cid, is) = read32 0 is; (csize, is) = read32 0 is
           in case SeekToDataChunk is cid csize of
                None \<Rightarrow> None
              | Some (is, cid, csize) \<Rightarrow>
                  Some (if \<not> good is then not_ok ch None else read_samples ch rate is csize))"

definition read_format :: "u32 \<Rightarrow> istream \<Rightarrow> (wav_stop + wav_result) option" where
  "read_format fmt_size is =
     (let (af, is) = read16 0 is in
      if af \<noteq> 1 then Some (not_ok None None)
      else let (nc, is) = read16 0 is; ch = Some (ucast nc);
               (sr, is) = read32 0 is; (br, is) = read32 0 is; (ba, is) = read16 0 is; (bps, is) = read16 0 is;
               rate_channels = sint sr * sint nc
           in if \<not> fits32 rate_channels \<or> \<not> fits32 (rate_channels * sint bps) then Some (Inl SignedOverflow)
              else if sint br \<noteq> tdiv8 (rate_channels * sint bps) then Some (not_ok ch None)
              else if sint ba \<noteq> tdiv8 (sint nc * sint bps) then Some (not_ok ch None)
              else if bps \<noteq> 16 then Some (not_ok ch None)
              else read_data ch sr fmt_size is)"

definition ReadWaveImpl :: "istream \<Rightarrow> (wav_stop + wav_result) option" where
  "ReadWaveImpl is =
     (let (cid, is) = read32 0 is in
      if cid \<noteq> RIFF then Some (not_ok None None)
      else let (csz, is) = read32 0 is; (fm, is) = read32 0 is in
      if fm \<noteq> WAVE then Some (not_ok None None)
      else let (id1, is) = read32 0 is; (sz1, is) = read32 0 is;
               (id1, sz1, is) = (if id1 = JUNK then
                   let is = seekg (sint sz1) is; (id1, is) = read32 id1 is; (sz1, is) = read32 sz1 is in (id1, sz1, is)
                 else (id1, sz1, is)) in
      if id1 \<noteq> FMT then Some (not_ok None None)
      else if sz1 \<noteq> 16 \<and> sz1 \<noteq> 18 then Some (not_ok None None)
      else read_format sz1 is)"

section \<open>Writer\<close>

text \<open>
  The number of frames is \<open>n\<close>, with \<open>num_channels\<close> samples each. The arithmetic is done on signed 32-bit
  integers, the sizes are stored in 32 and 16 bits. \<open>disk\<close> is what becomes of the bytes: no file when it
  cannot be opened, otherwise whether writing succeeded and the content of the file.
\<close>

definition WriteWave :: "(u8 list \<Rightarrow> (bool \<times> u8 list) option) \<Rightarrow> u32 \<Rightarrow> u16 list \<Rightarrow> u32 \<Rightarrow> u8 \<Rightarrow>
    wav_stop + bool \<times> u8 list option" where
  "WriteWave disk rate samples n channels =
     (let nc = uint channels; r = sint rate; k = sint n in
      if \<not> fits32 (r * nc) \<or> \<not> fits32 (r * nc * 16) \<or> \<not> fits32 (k * nc) \<or> \<not> fits32 (k * nc * 16) \<or>
         \<not> fits32 (36 + tdiv8 (k * nc * 16))
      then Inl SignedOverflow
      else if k * nc < 0 then Inl LengthError
      else if length samples < nat (k * nc) then Inl BufferOverflow
      else let header = \<lparr>chunk_id = RIFF, chunk_size = word_of_int (36 + tdiv8 (k * nc * 16)), wave_format = WAVE,
             subchunk1_id = FMT, subchunk1_size = 16, audio_format = 1, num_channels = word_of_int nc, sample_rate = rate,
             byte_rate = word_of_int (tdiv8 (r * nc * 16)), block_align = word_of_int (tdiv8 (nc * 16)), bits_per_sample = 16,
             subchunk2_id = DATA, subchunk2_size = word_of_int (tdiv8 (k * nc * 16))\<rparr>
           in case disk (header_bytes header @ concat (map le16 (take (nat (k * nc)) samples))) of
                None \<Rightarrow> Inr (False, None)
              | Some (written, file) \<Rightarrow> Inr (written, Some file))"

section \<open>Reading what was written\<close>

lemma le16_of_le16: "le16 (of_le16 [a, b]) = [a, b]"
proof -
  have "ucast (of_le16 [a, b]) = a"
    by (rule bit_word_eqI) (auto simp: bit_of_le16 bit_ucast_iff)
  moreover have "ucast (drop_bit 8 (of_le16 [a, b])) = b"
    by (rule bit_word_eqI) (auto simp: bit_of_le16 bit_ucast_iff bit_drop_bit_eq add.commute)
  ultimately show ?thesis by (simp add: le16_def)
qed

lemma sample_pairs:
  "length bs = 2 * m \<Longrightarrow> concat (map (\<lambda>i. le16 (of_le16 [bs ! (2 * i), bs ! (2 * i + 1)])) [0..<m]) = bs"
proof (induction m arbitrary: bs)
  case (Suc m)
  then obtain a b cs where bs: "bs = a # b # cs" by (auto simp: Suc_length_conv length_Suc_conv)
  have "map (\<lambda>i. le16 (of_le16 [bs ! (2 * i), bs ! (2 * i + 1)])) [0..<Suc m] =
      [a, b] # map (\<lambda>i. le16 (of_le16 [cs ! (2 * i), cs ! (2 * i + 1)])) [0..<m]"
    by (simp add: upt_conv_Cons map_Suc_upt [symmetric] comp_def bs le16_of_le16 del: upt_Suc)
  with Suc.IH [of cs] Suc.prems show ?case by (simp add: bs)
qed simp

lemma SeekToDataChunk_found: "SeekToDataChunk is DATA csize = Some (is, DATA, csize)"
  by (simp add: SeekToDataChunk.simps)

lemma read_samples_even:
  assumes "sint csize = 2 * int m" and "length bs = 2 * m" and "drop (pos is) (content is) = bs @ rest" and "good is"
  shows "read_samples ch rate is csize =
    Inr \<lparr>is_ok = True, sampling_rate = Some rate, channelCount = ch, answer = bs\<rparr>"
proof -
  have "nat (2 * int m) = 2 * m" by simp
  with assms sample_pairs [OF assms(2)] show ?thesis
    by (simp add: read_samples_def read_bytes_def Let_def le16_def)
qed

text \<open>A header that passes every check, followed by the data it announces.\<close>

lemma read_header:
  assumes "sint rate * sint nc * 16 < 2 ^ 31" "0 \<le> sint rate" "0 \<le> sint nc"
    and "sint br = sint rate * sint nc * 2" and "sint ba = sint nc * 2"
    and "sint csize = 2 * int m" and "length bs = 2 * m"
  shows "ReadWaveImpl (open_stream (header_bytes \<lparr>chunk_id = RIFF, chunk_size = z, wave_format = WAVE,
      subchunk1_id = FMT, subchunk1_size = 16, audio_format = 1, num_channels = nc, sample_rate = rate,
      byte_rate = br, block_align = ba, bits_per_sample = 16, subchunk2_id = DATA, subchunk2_size = csize\<rparr> @ bs @ rest)) =
    Some (Inr \<lparr>is_ok = True, sampling_rate = Some rate, channelCount = Some (ucast nc), answer = bs\<rparr>)"
proof -
  have "0 \<le> sint rate * sint nc" using assms(2,3) by simp
  then have fit: "fits32 (sint rate * sint nc)" "fits32 (sint rate * sint nc * 16)"
    using assms(1) unfolding fits32_def by linarith+
  have div: "tdiv8 (sint rate * sint nc * 16) = sint rate * sint nc * 2" "tdiv8 (sint nc * 16) = sint nc * 2"
    using assms(2,3) by (simp_all add: tdiv8_def)
  have FMT_JUNK: "FMT \<noteq> JUNK" by (simp add: FMT_def JUNK_def)
  show ?thesis
    using assms FMT_JUNK fit div
    by (simp add: ReadWaveImpl_def read_format_def read_data_def open_stream_def header_bytes_def read32_def read16_def
        read_bytes_def Let_def SeekToDataChunk_found read_samples_even [where m = m and rest = rest])
qed

text \<open>A chunk of odd size: one byte more is read than the samples take.\<close>

lemma read_samples_odd:
  assumes "sint csize = 2 * int m + 1" and "2 * m + 1 \<le> length (drop (pos is) (content is))" and "good is"
  shows "read_samples ch rate is csize = Inl BufferOverflow"
proof -
  have "nat (2 * int m + 1) = 2 * m + 1" by simp
  with assms show ?thesis by (simp add: read_samples_def read_bytes_def Let_def)
qed

section \<open>The search for the data chunk\<close>

definition seek_body :: "istream \<Rightarrow> u32 \<Rightarrow> u32 \<Rightarrow> istream \<times> u32 \<times> u32" where
  "seek_body is cid csize =
     (let is = seekg (sint csize) is; (cid, is) = read32 cid is; (csize, is) = read32 csize is in (is, cid, csize))"

lemma SeekToDataChunk_body:
  "SeekToDataChunk is cid csize =
     (if good is \<and> cid \<noteq> DATA then (case seek_body is cid csize of (is, cid, csize) \<Rightarrow> SeekToDataChunk is cid csize)
      else Some (is, cid, csize))"
  by (subst SeekToDataChunk.simps) (simp add: seek_body_def Let_def split_beta)

text \<open>The sizes of the chunks that the search skips.\<close>

inductive skips :: "istream \<Rightarrow> u32 \<Rightarrow> u32 \<Rightarrow> u32 \<Rightarrow> bool" where
  here: "good is \<Longrightarrow> cid \<noteq> DATA \<Longrightarrow> skips is cid csize csize"
| later: "good is \<Longrightarrow> cid \<noteq> DATA \<Longrightarrow> seek_body is cid csize = (is', cid', csize') \<Longrightarrow> skips is' cid' csize' z \<Longrightarrow>
    skips is cid csize z"

lemma read32_progress:
  assumes "read32 old s = (w, s')" and "good s'"
  shows "good s \<and> content s' = content s \<and> pos s' = pos s + 4 \<and> pos s' \<le> length (content s')"
  using assms by (auto simp: read32_def read_bytes_def Let_def split_beta split: if_splits)

lemma seek_body_progress:
  assumes "seek_body is cid csize = (is', cid', csize')" and "good is'" and "good is" and "0 \<le> sint csize"
  shows "content is' = content is \<and> pos is < pos is' \<and> pos is' \<le> length (content is')"
proof -
  obtain c1 i1 c2 where r: "read32 cid (seekg (sint csize) is) = (c1, i1)" "read32 csize i1 = (c2, is')"
    using assms(1) by (auto simp: seek_body_def Let_def split_beta prod_eq_iff)
  have "content (seekg (sint csize) is) = content is \<and> pos is \<le> pos (seekg (sint csize) is)"
    using assms(3,4) by (auto simp: seekg_def)
  with read32_progress [OF r(2) assms(2)] read32_progress [OF r(1)] show ?thesis by auto
qed

lemma search_returns:
  assumes "\<forall>z. skips is cid csize z \<longrightarrow> 0 \<le> sint z"
  shows "\<exists>r. SeekToDataChunk is cid csize = Some r"
  using assms
proof (induction "if good is then Suc (length (content is) - pos is) else 0" arbitrary: "is" cid csize rule: less_induct)
  case less
  show ?case
  proof (cases "good is \<and> cid \<noteq> DATA")
    case True
    obtain is' cid' csize' where b: "seek_body is cid csize = (is', cid', csize')" by (metis prod_cases3)
    have "0 \<le> sint csize" using less.prems True by (blast intro: here)
    then have "content is' = content is \<and> pos is < pos is' \<and> pos is' \<le> length (content is')" if "good is'"
      using seek_body_progress [OF b that] True by blast
    then have "(if good is' then Suc (length (content is') - pos is') else 0) <
        (if good is then Suc (length (content is) - pos is) else 0)"
      using True by fastforce
    moreover have "\<forall>z. skips is' cid' csize' z \<longrightarrow> 0 \<le> sint z"
      using less.prems True b by (blast intro: later)
    ultimately have "\<exists>r. SeekToDataChunk is' cid' csize' = Some r" by (rule less.hyps)
    with True b show ?thesis by (subst SeekToDataChunk_body) simp
  next
    case False
    then show ?thesis by (subst SeekToDataChunk_body) auto
  qed
qed

lemma search_loops:
  assumes fixpoint: "seek_body is cid csize = (is, cid, csize)" and "good is" and "cid \<noteq> DATA"
  shows "SeekToDataChunk is cid csize = None"
proof (rule ccontr)
  assume "SeekToDataChunk is cid csize \<noteq> None"
  then obtain r where ret: "SeekToDataChunk is cid csize = Some r" by blast
  have "(is, cid, csize) \<noteq> (is, cid, csize)"
  proof (rule SeekToDataChunk.raw_induct [where P = "\<lambda>i c z r. (i, c, z) \<noteq> (is, cid, csize)", OF _ ret])
    fix f i c z r
    assume IH: "\<And>i c z r. f i c z = Some r \<Longrightarrow> (i, c, z) \<noteq> (is, cid, csize)"
      and eq: "(if good i \<and> c \<noteq> DATA then
          let is = seekg (sint z) i; (cid, is) = read32 c is; (csize, is) = read32 z is in f is cid csize
        else Some (i, c, z)) = Some r"
    show "(i, c, z) \<noteq> (is, cid, csize)"
    proof
      assume "(i, c, z) = (is, cid, csize)"
      with eq assms(2,3) have "(case seek_body is cid csize of (i', c', z') \<Rightarrow> f i' c' z') = Some r"
        by (simp add: seek_body_def Let_def split_beta)
      with fixpoint have "f is cid csize = Some r" by simp
      with IH show False by blast
    qed
  qed
  then show False by simp
qed

lemma minus_eight_fixpoint:
  assumes "good is" and "8 \<le> pos is" and "take 8 (drop (pos is - 8) (content is)) = le32 cid @ le32 (- 8)"
  shows "seek_body is cid (- 8) = (is, cid, - 8)"
proof -
  define rest where "rest = drop 8 (drop (pos is - 8) (content is))"
  have d: "drop (pos is - 8) (content is) = le32 cid @ le32 (- 8) @ rest"
    using append_take_drop_id [of 8 "drop (pos is - 8) (content is)"] assms(3) by (simp add: rest_def)
  have sk: "seekg (- 8) is = is\<lparr>pos := pos is - 8\<rparr>"
    using assms(1,2) by (simp add: seekg_def nat_diff_distrib)
  have d4: "drop (pos is - 4) (content is) = le32 (- 8) @ rest"
  proof -
    have "drop (pos is - 4) (content is) = drop 4 (drop (pos is - 8) (content is))"
      using assms(2) by (simp add: add.commute)
    then show ?thesis by (simp only: d) simp
  qed
  show ?thesis
    using assms(1,2) d d4 sk
    by (simp add: seek_body_def read32_def read_bytes_def Let_def)
qed

section \<open>What reader and writer guarantee\<close>

text \<open>Sizes that fit survive the conversion to a field of the header.\<close>

lemma sint_u32: "0 \<le> x \<Longrightarrow> x < 2 ^ 31 \<Longrightarrow> sint (word_of_int x :: u32) = x"
  by (simp add: int_word_sint)

lemma sint_u16: "0 \<le> x \<Longrightarrow> x < 2 ^ 15 \<Longrightarrow> sint (word_of_int x :: u16) = x"
  by (simp add: int_word_sint)

lemma channels_field: "(ucast (word_of_int (uint channels) :: u16) :: u8) = channels"
proof -
  have "(word_of_int (uint channels) :: u16) = ucast channels" by simp
  then show ?thesis by (simp only:) (rule bit_word_eqI, simp add: bit_ucast_iff)
qed



text \<open>C34: The search for the data chunk returns on every file in which none of the chunks it skips has a negative size;
  but a skipped chunk of size -8, which leads the stream back to the header of that
  chunk, makes it run forever.\<close>

theorem data_search_returns:
  "((\<forall>z. skips is cid csize z \<longrightarrow> 0 \<le> sint z) \<longrightarrow> (\<exists>r. SeekToDataChunk is cid csize = Some r)) \<and>
   (good is \<and> cid \<noteq> DATA \<and> 8 \<le> pos is \<and> take 8 (drop (pos is - 8) (content is)) = le32 cid @ le32 (- 8) \<longrightarrow>
      SeekToDataChunk is cid (- 8) = None)"
  using search_returns [of "is" cid csize] search_loops [OF minus_eight_fixpoint, of "is" cid] by blast

theorem data_search_returns_witness:
  "(\<exists>r. SeekToDataChunk (open_stream [9, 9]) 0 0 = Some r) \<and>
   SeekToDataChunk ((open_stream (le32 0 @ le32 (- 8)))\<lparr>pos := 8\<rparr>) 0 (- 8) = None"
proof
  have "z = 0" if "skips (open_stream [9, 9]) 0 0 z" for z
    using that
  proof cases
    case (later is' cid' csize')
    then have "\<not> good is'" by (auto simp: seek_body_def seekg_def read32_def read_bytes_def open_stream_def Let_def)
    with later(4) show ?thesis by (auto elim: skips.cases)
  qed simp
  then have "\<forall>z. skips (open_stream [9, 9]) 0 0 z \<longrightarrow> 0 \<le> sint z" by (metis order_refl sint_0)
  with data_search_returns [of "open_stream [9, 9]" 0 0]
  show "\<exists>r. SeekToDataChunk (open_stream [9, 9]) 0 0 = Some r" by blast
  show "SeekToDataChunk ((open_stream (le32 0 @ le32 (- 8)))\<lparr>pos := 8\<rparr>) 0 (- 8) = None"
    using data_search_returns [of "(open_stream (le32 0 @ le32 (- 8)))\<lparr>pos := 8\<rparr>" 0 0]
    by (simp add: open_stream_def DATA_def)
qed

end
