(* ===== verification/Publisher.thy ===== *)
theory Publisher
  imports Prelude "HOL-Library.Sublist"
begin

text \<open>
  The real-time publisher of the DDS wrapper (\<open>dds_wrapper/common/Publisher.h\<close>): a control thread that
  fills a message and never blocks, and a thread that publishes it. Each step of the relation is one
  access to the shared state. The hook \<open>pre_communication\<close>, which subclasses use to set the
  checksum, is the parameter \<open>pre\<close>.
\<close>

section \<open>State\<close>

datatype turn = REALTIME | NON_REALTIME | LOOP_NOT_STARTED

datatype owner = Nobody | Control | Loop

text \<open>Control thread: idle, testing the turn after a successful \<open>try_lock\<close>, owning the message, about to unlock.\<close>

datatype cpc = CIdle | CTest | COwn | CUnlock

text \<open>
  Publishing thread: the two assignments before the loop, the loop test, taking the lock, the
  inner test, giving the lock up to sleep, copying the message, handing the turn back, unlocking,
  publishing, the hook after publishing, the end.
\<close>

datatype lpc = LStart | LTurn | LWhile | LLock | LInner | LSleep | LCopy | LHandBack | LUnlock | LPublish | LPost | LEnd

record 'm publisher =
  msg :: 'm
  outgoing :: 'm
  turn_of :: turn
  keep_running :: bool
  is_running :: bool
  mutex :: owner
  cpc_of :: cpc
  lpc_of :: lpc
  committed :: "'m list"
  published :: "'m list"

definition publisher_init :: "'m \<Rightarrow> 'm publisher" where
  "publisher_init m = \<lparr>msg = m, outgoing = m, turn_of = LOOP_NOT_STARTED, keep_running = True, is_running = False,
     mutex = Nobody, cpc_of = CIdle, lpc_of = LStart, committed = [], published = []\<rparr>"

section \<open>Steps of the control thread\<close>

text \<open>\<open>trylock\<close> succeeds when the mutex is free and the turn is its own.\<close>

inductive control :: "'m publisher \<Rightarrow> 'm publisher \<Rightarrow> bool" where
  try_lock: "cpc_of s = CIdle \<Longrightarrow> mutex s = Nobody \<Longrightarrow> control s (s\<lparr>cpc_of := CTest, mutex := Control\<rparr>)"
| try_busy: "cpc_of s = CIdle \<Longrightarrow> mutex s \<noteq> Nobody \<Longrightarrow> control s s"
| my_turn: "cpc_of s = CTest \<Longrightarrow> turn_of s = REALTIME \<Longrightarrow> control s (s\<lparr>cpc_of := COwn\<rparr>)"
| not_my_turn: "cpc_of s = CTest \<Longrightarrow> turn_of s \<noteq> REALTIME \<Longrightarrow> control s (s\<lparr>cpc_of := CUnlock\<rparr>)"
| fill: "cpc_of s = COwn \<Longrightarrow> control s (s\<lparr>msg := m\<rparr>)"
| commit: "cpc_of s = COwn \<Longrightarrow>
    control s (s\<lparr>cpc_of := CUnlock, turn_of := NON_REALTIME, committed := committed s @ [msg s]\<rparr>)"
| give_up: "cpc_of s = COwn \<Longrightarrow> control s (s\<lparr>cpc_of := CUnlock\<rparr>)"
| unlock: "cpc_of s = CUnlock \<Longrightarrow> control s (s\<lparr>cpc_of := CIdle, mutex := Nobody\<rparr>)"
| stop: "control s (s\<lparr>keep_running := False\<rparr>)"

section \<open>Steps of the publishing thread\<close>

inductive loop :: "('m \<Rightarrow> 'm) \<Rightarrow> 'm publisher \<Rightarrow> 'm publisher \<Rightarrow> bool" for pre where
  start: "lpc_of s = LStart \<Longrightarrow> loop pre s (s\<lparr>lpc_of := LTurn, is_running := True\<rparr>)"
| first_turn: "lpc_of s = LTurn \<Longrightarrow> loop pre s (s\<lparr>lpc_of := LWhile, turn_of := REALTIME\<rparr>)"
| enter: "lpc_of s = LWhile \<Longrightarrow> keep_running s \<Longrightarrow> loop pre s (s\<lparr>lpc_of := LLock\<rparr>)"
| leave: "lpc_of s = LWhile \<Longrightarrow> \<not> keep_running s \<Longrightarrow> loop pre s (s\<lparr>lpc_of := LEnd, is_running := False\<rparr>)"
| lock: "lpc_of s = LLock \<Longrightarrow> mutex s = Nobody \<Longrightarrow> loop pre s (s\<lparr>lpc_of := LInner, mutex := Loop\<rparr>)"
| lock_busy: "lpc_of s = LLock \<Longrightarrow> mutex s \<noteq> Nobody \<Longrightarrow> loop pre s s"
| wait: "lpc_of s = LInner \<Longrightarrow> turn_of s \<noteq> NON_REALTIME \<Longrightarrow> keep_running s \<Longrightarrow> loop pre s (s\<lparr>lpc_of := LSleep\<rparr>)"
| sleep: "lpc_of s = LSleep \<Longrightarrow> loop pre s (s\<lparr>lpc_of := LLock, mutex := Nobody\<rparr>)"
| go_on: "lpc_of s = LInner \<Longrightarrow> turn_of s = NON_REALTIME \<or> \<not> keep_running s \<Longrightarrow> loop pre s (s\<lparr>lpc_of := LCopy\<rparr>)"
| copy: "lpc_of s = LCopy \<Longrightarrow> loop pre s (s\<lparr>lpc_of := LHandBack, msg := pre (msg s), outgoing := pre (msg s)\<rparr>)"
| hand_back: "lpc_of s = LHandBack \<Longrightarrow> loop pre s (s\<lparr>lpc_of := LUnlock, turn_of := REALTIME\<rparr>)"
| unlock: "lpc_of s = LUnlock \<Longrightarrow> loop pre s (s\<lparr>lpc_of := LPublish, mutex := Nobody\<rparr>)"
| publish: "lpc_of s = LPublish \<Longrightarrow> keep_running s \<Longrightarrow>
    loop pre s (s\<lparr>lpc_of := LPost, published := published s @ [outgoing s]\<rparr>)"
| drop: "lpc_of s = LPublish \<Longrightarrow> \<not> keep_running s \<Longrightarrow> loop pre s (s\<lparr>lpc_of := LPost\<rparr>)"
| post: "lpc_of s = LPost \<Longrightarrow> loop pre s (s\<lparr>lpc_of := LWhile\<rparr>)"

inductive_cases control_cases: "control s s'"
inductive_cases loop_cases: "loop pre s s'"

definition either :: "('m \<Rightarrow> 'm) \<Rightarrow> 'm publisher \<Rightarrow> 'm publisher \<Rightarrow> bool" where
  "either pre s s' \<longleftrightarrow> control s s' \<or> loop pre s s'"

abbreviation runs_to :: "('m \<Rightarrow> 'm) \<Rightarrow> 'm publisher \<Rightarrow> 'm publisher \<Rightarrow> bool" where
  "runs_to pre s s' \<equiv> (either pre)\<^sup>*\<^sup>* s s'"

section \<open>Invariants\<close>

text \<open>Who holds the mutex, and whose turn it is.\<close>

definition mutex_inv :: "'m publisher \<Rightarrow> bool" where
  "mutex_inv s \<longleftrightarrow> (mutex s = Control \<longleftrightarrow> cpc_of s \<noteq> CIdle) \<and>
     (mutex s = Loop \<longleftrightarrow> lpc_of s \<in> {LInner, LSleep, LCopy, LHandBack, LUnlock})"

definition turn_inv :: "'m publisher \<Rightarrow> bool" where
  "turn_inv s \<longleftrightarrow> (cpc_of s = COwn \<longrightarrow> turn_of s = REALTIME) \<and>
     (lpc_of s \<in> {LStart, LTurn} \<longrightarrow> turn_of s = LOOP_NOT_STARTED) \<and> (lpc_of s = LUnlock \<longrightarrow> turn_of s = REALTIME) \<and>
     (lpc_of s = LEnd \<longrightarrow> \<not> keep_running s) \<and>
     (lpc_of s \<in> {LCopy, LHandBack} \<and> keep_running s \<longrightarrow> turn_of s = NON_REALTIME)"

text \<open>The committed messages that are not published yet, while the publisher runs.\<close>

definition under_way :: "('m \<Rightarrow> 'm) \<Rightarrow> 'm publisher \<Rightarrow> 'm list" where
  "under_way pre s = (if lpc_of s \<in> {LHandBack, LUnlock} then [outgoing s]
     else (if lpc_of s = LPublish then [outgoing s] else []) @ (if turn_of s = NON_REALTIME then [pre (msg s)] else []))"

definition flow_inv :: "('m \<Rightarrow> 'm) \<Rightarrow> 'm publisher \<Rightarrow> bool" where
  "flow_inv pre s \<longleftrightarrow> (if keep_running s then map pre (committed s) = published s @ under_way pre s
     else prefix (published s) (map pre (committed s)))"

lemmas publisher_invs = mutex_inv_def turn_inv_def flow_inv_def under_way_def

lemma control_mutex: "control s s' \<Longrightarrow> mutex_inv s \<Longrightarrow> mutex_inv s'"
  by (induction rule: control.induct) (auto simp: mutex_inv_def)

lemma control_turn: "control s s' \<Longrightarrow> mutex_inv s \<Longrightarrow> turn_inv s \<Longrightarrow> turn_inv s'"
proof (induction rule: control.induct)
  case (commit s)
  then show ?case by (cases "lpc_of s") (auto simp: mutex_inv_def turn_inv_def)
qed (auto simp: turn_inv_def)

lemma control_flow: "control s s' \<Longrightarrow> mutex_inv s \<Longrightarrow> turn_inv s \<Longrightarrow> flow_inv pre s \<Longrightarrow> flow_inv pre s'"
proof (induction rule: control.induct)
  case (stop s)
  then show ?case by (auto simp: flow_inv_def prefix_def split: if_splits)
next
  case (commit s)
  then show ?case by (cases "lpc_of s") (auto simp: publisher_invs prefix_def)
next
  case (fill s m)
  then show ?case by (cases "lpc_of s") (auto simp: publisher_invs)
qed (simp_all add: flow_inv_def under_way_def)

lemma loop_mutex: "loop pre s s' \<Longrightarrow> mutex_inv s \<Longrightarrow> mutex_inv s'"
  by (induction rule: loop.induct) (auto simp: mutex_inv_def)

lemma loop_turn: "loop pre s s' \<Longrightarrow> mutex_inv s \<Longrightarrow> turn_inv s \<Longrightarrow> turn_inv s'"
  by (induction rule: loop.induct) (auto simp: mutex_inv_def turn_inv_def)

lemma loop_flow: "loop pre s s' \<Longrightarrow> turn_inv s \<Longrightarrow> flow_inv pre s \<Longrightarrow> flow_inv pre s'"
  by (induction rule: loop.induct) (auto simp: turn_inv_def flow_inv_def under_way_def split: if_splits)

lemmas step_invs = control_mutex control_turn control_flow loop_mutex loop_turn loop_flow

lemma reachable_inv:
  assumes "runs_to pre (publisher_init m) s"
  shows "mutex_inv s \<and> turn_inv s \<and> flow_inv pre s"
  using assms
proof (induction rule: rtranclp_induct)
  case base
  show ?case by (simp add: publisher_invs publisher_init_def)
next
  case (step s s')
  then have "control s s' \<or> loop pre s s'" by (simp add: either_def)
  with step.IH show ?case by (blast intro: step_invs)
qed

lemma published_prefix:
  assumes "runs_to pre (publisher_init m) s"
  shows "prefix (published s) (map pre (committed s))"
  using reachable_inv [OF assms] by (auto simp: flow_inv_def split: if_splits)

section \<open>Progress\<close>

fun distance :: "lpc \<Rightarrow> nat" where
  "distance LPost = 9" | "distance LWhile = 8" | "distance LSleep = 8" | "distance LLock = 7" | "distance LInner = 6"
| "distance LCopy = 5" | "distance LHandBack = 4" | "distance LUnlock = 3" | "distance LPublish = 2" | "distance pc = 1"

definition backlog :: "'m publisher \<Rightarrow> nat" where
  "backlog s = 10 * (length (committed s) - length (published s)) + distance (lpc_of s)"

definition running :: "('m \<Rightarrow> 'm) \<Rightarrow> 'm publisher \<Rightarrow> bool" where
  "running pre s \<longleftrightarrow> mutex_inv s \<and> turn_inv s \<and> flow_inv pre s \<and> keep_running s \<and> cpc_of s = CIdle"

lemma free_mutex: "running pre s \<Longrightarrow> lpc_of s = LLock \<Longrightarrow> mutex s = Nobody"
  by (cases "mutex s") (auto simp: running_def mutex_inv_def)

lemma loop_advances:
  assumes "running pre s" and "published s \<noteq> map pre (committed s)"
  shows "\<exists>s'. loop pre s s' \<and> backlog s' < backlog s \<and> keep_running s' \<and> cpc_of s' = CIdle \<and> committed s' = committed s"
proof -
  have flow: "map pre (committed s) = published s @ under_way pre s" and uw: "under_way pre s \<noteq> []"
    and keep: "keep_running s" "cpc_of s = CIdle" and turn: "turn_inv s"
    using assms by (auto simp: running_def flow_inv_def)
  have len: "length (committed s) = length (published s) + length (under_way pre s)"
    using arg_cong [OF flow, of length] by simp
  show ?thesis
  proof (cases "lpc_of s")
    case LWhile
    show ?thesis by (rule exI, rule conjI, rule enter) (use LWhile keep in \<open>simp_all add: backlog_def\<close>)
  next
    case LLock
    show ?thesis by (rule exI, rule conjI, rule lock) (use LLock keep free_mutex [OF assms(1)] in \<open>simp_all add: backlog_def\<close>)
  next
    case LInner
    with uw have "turn_of s = NON_REALTIME" by (simp add: under_way_def split: if_splits)
    note t = this
    show ?thesis by (rule exI, rule conjI, rule go_on) (use LInner keep t in \<open>simp_all add: backlog_def\<close>)
  next
    case LSleep
    show ?thesis by (rule exI, rule conjI, rule sleep) (use LSleep keep in \<open>simp_all add: backlog_def\<close>)
  next
    case LCopy
    show ?thesis by (rule exI, rule conjI, rule copy) (use LCopy keep in \<open>simp_all add: backlog_def\<close>)
  next
    case LHandBack
    show ?thesis by (rule exI, rule conjI, rule hand_back) (use LHandBack keep in \<open>simp_all add: backlog_def\<close>)
  next
    case LUnlock
    show ?thesis by (rule exI, rule conjI, rule loop.unlock) (use LUnlock keep in \<open>simp_all add: backlog_def\<close>)
  next
    case LPublish
    then have l: "length (published s) < length (committed s)" using len by (simp add: under_way_def)
    show ?thesis by (rule exI, rule conjI, rule publish) (use LPublish keep l in \<open>simp_all add: backlog_def\<close>)
  next
    case LPost
    show ?thesis by (rule exI, rule conjI, rule post) (use LPost keep in \<open>simp_all add: backlog_def\<close>)
  qed (use turn uw keep in \<open>simp_all add: turn_inv_def under_way_def split: if_splits\<close>)
qed

lemma loop_runs: "(loop pre)\<^sup>*\<^sup>* s s' \<Longrightarrow> runs_to pre s s'"
  by (erule rtranclp_mono [THEN predicate2D, rotated]) (simp add: either_def le_fun_def)

lemma loop_committed: "(loop pre)\<^sup>*\<^sup>* s s' \<Longrightarrow> committed s' = committed s"
  by (induction rule: rtranclp_induct) (auto elim: loop_cases)

lemma loop_delivers:
  assumes "running pre s"
  shows "\<exists>s'. (loop pre)\<^sup>*\<^sup>* s s' \<and> published s' = map pre (committed s)"
  using assms
proof (induction "backlog s" arbitrary: s rule: less_induct)
  case less
  show ?case
  proof (cases "published s = map pre (committed s)")
    case False
    obtain s' where s': "loop pre s s'" "backlog s' < backlog s" "keep_running s'" "cpc_of s' = CIdle" "committed s' = committed s"
      using loop_advances [OF less.prems False] by blast
    then have "running pre s'" using less.prems by (auto simp: running_def intro: step_invs)
    with less.hyps s' show ?thesis by (metis converse_rtranclp_into_rtranclp)
  qed blast
qed

section \<open>What the publisher guarantees\<close>

text \<open>C8: In every interleaving, the published messages are the committed ones after the hook, in order,
  with none repeated, torn or invented; while the publisher runs at most two are under way, and none is
  missing when the publishing thread waits with the turn handed back; the control thread
  never fills the message while it is being copied.\<close>

theorem publisher_in_order:
  assumes "runs_to pre (publisher_init m) s"
  shows "prefix (published s) (map pre (committed s)) \<and>
    (keep_running s \<longrightarrow> length (committed s) \<le> length (published s) + 2) \<and>
    (keep_running s \<and> lpc_of s \<in> {LWhile, LLock, LInner, LSleep, LPost} \<and> turn_of s = REALTIME \<longrightarrow>
       published s = map pre (committed s)) \<and>
    \<not> (cpc_of s = COwn \<and> lpc_of s \<in> {LCopy, LHandBack})"
proof -
  have inv: "mutex_inv s" "turn_inv s" "flow_inv pre s" using reachable_inv [OF assms] by auto
  have "length (committed s) \<le> length (published s) + 2" if "keep_running s"
  proof -
    have "length (map pre (committed s)) = length (published s @ under_way pre s)"
      using inv(3) that by (simp add: flow_inv_def)
    then show ?thesis by (simp add: under_way_def)
  qed
  moreover note published_prefix [OF assms]
  moreover have "\<not> (cpc_of s = COwn \<and> lpc_of s \<in> {LCopy, LHandBack})"
    using inv(1) by (auto simp: mutex_inv_def)
  moreover have "published s = map pre (committed s)"
    if "keep_running s \<and> lpc_of s \<in> {LWhile, LLock, LInner, LSleep, LPost} \<and> turn_of s = REALTIME"
    using inv(3) that by (auto simp: flow_inv_def under_way_def)
  ultimately show ?thesis by blast
qed

text \<open>A run in which one message is committed.\<close>

definition one_committed :: "'m \<Rightarrow> 'm \<Rightarrow> 'm publisher" where
  "one_committed m0 m = \<lparr>msg = m, outgoing = m0, turn_of = NON_REALTIME, keep_running = True, is_running = True,
     mutex = Nobody, cpc_of = CIdle, lpc_of = LWhile, committed = [m], published = []\<rparr>"

lemma runs_loop: "runs_to pre a b \<Longrightarrow> loop pre b c \<Longrightarrow> runs_to pre a c"
  by (erule rtranclp.rtrancl_into_rtrancl) (simp add: either_def)

lemma runs_control: "runs_to pre a b \<Longrightarrow> control b c \<Longrightarrow> runs_to pre a c"
  by (erule rtranclp.rtrancl_into_rtrancl) (simp add: either_def)

lemma one_committed_reachable: "runs_to pre (publisher_init m0) (one_committed m0 m)"
proof -
  define s1 where "s1 = (publisher_init m0)\<lparr>lpc_of := LTurn, is_running := True\<rparr>"
  define s2 where "s2 = s1\<lparr>lpc_of := LWhile, turn_of := REALTIME\<rparr>"
  define s3 where "s3 = s2\<lparr>cpc_of := CTest, mutex := Control\<rparr>"
  define s4 where "s4 = s3\<lparr>cpc_of := COwn\<rparr>"
  define s5 where "s5 = s4\<lparr>msg := m\<rparr>"
  define s6 where "s6 = s5\<lparr>cpc_of := CUnlock, turn_of := NON_REALTIME, committed := committed s5 @ [msg s5]\<rparr>"
  have "loop pre (publisher_init m0) s1" unfolding s1_def by (rule start) (simp add: publisher_init_def)
  then have "runs_to pre (publisher_init m0) s1" by (rule runs_loop [OF rtranclp.rtrancl_refl])
  moreover have "loop pre s1 s2" unfolding s2_def by (rule first_turn) (simp add: s1_def)
  ultimately have "runs_to pre (publisher_init m0) s2" by (rule runs_loop)
  moreover have "control s2 s3" unfolding s3_def by (rule try_lock) (simp_all add: s2_def s1_def publisher_init_def)
  ultimately have "runs_to pre (publisher_init m0) s3" by (rule runs_control)
  moreover have "control s3 s4" unfolding s4_def by (rule my_turn) (simp_all add: s3_def s2_def)
  ultimately have "runs_to pre (publisher_init m0) s4" by (rule runs_control)
  moreover have "control s4 s5" unfolding s5_def by (rule fill) (simp add: s4_def)
  ultimately have "runs_to pre (publisher_init m0) s5" by (rule runs_control)
  moreover have "control s5 s6" unfolding s6_def by (rule commit) (simp add: s5_def s4_def)
  ultimately have "runs_to pre (publisher_init m0) s6" by (rule runs_control)
  moreover have "control s6 (one_committed m0 m)"
    using control.unlock [of s6]
    by (simp add: s6_def s5_def s4_def s3_def s2_def s1_def publisher_init_def one_committed_def)
  ultimately show ?thesis by (rule runs_control)
qed

theorem publisher_in_order_witness:
  "prefix (published (one_committed 0 5)) (map Suc (committed (one_committed 0 5))) \<and>
   length (committed (one_committed 0 5)) \<le> length (published (one_committed 0 (5 :: nat))) + 2"
  using publisher_in_order [OF one_committed_reachable [of Suc 0 5]] by (simp add: one_committed_def)



end
