(* ===== verification/Typego.thy ===== *)
theory Typego
  imports Prelude Floats
begin

text \<open>
  The control service of the Go2 (\<open>example/go2/typego_control_interface.cpp\<close>): the PID controller, the
  closed-loop motions \<open>rotate\<close> and \<open>move\<close>, the single-shot commands and the HTTP dispatch; and the
  upload route of the audio service (\<open>example/go2/typego_audio_interface.cpp\<close>). The precompiled
  sport client is the log of calls made to it together with a function that gives the result
  of each call; the trigonometric functions of the C library are arguments.
\<close>

section \<open>PID controller\<close>

definition M_PI :: real where
  "M_PI = rnd64 (314159265358979323846 / 100000000000000000000)"

definition clampf :: "real \<Rightarrow> real \<Rightarrow> real \<Rightarrow> real" where
  "clampf v lo hi = (if v < lo then lo else if hi < v then hi else v)"

record PID =
  kp :: real
  ki :: real
  kd :: real
  rate :: real
  pid_dt :: real
  last_error :: real
  integral :: real
  tau :: real
  filtered_derivative :: real
  i_limit :: real
  o_limit :: real

definition PID_init :: "real \<Rightarrow> real \<Rightarrow> real \<Rightarrow> real \<Rightarrow> real \<Rightarrow> real \<Rightarrow> real \<Rightarrow> PID" where
  "PID_init p i d r cutoff_freq il ol =
     \<lparr>kp = p, ki = i, kd = d, rate = r, pid_dt = rnd32 (1 / r), last_error = 0, integral = 0,
      tau = (if cutoff_freq > 0 then rnd32 (rnd64 (1 / rnd64 (rnd64 (2 * M_PI) * cutoff_freq))) else 0),
      filtered_derivative = 0, i_limit = il, o_limit = ol\<rparr>"

definition PID_update :: "real \<Rightarrow> PID \<Rightarrow> real \<times> PID" where
  "PID_update error p =
     (let output = rnd32 (kp p * error);
          raw_derivative = rnd32 (rnd32 (error - last_error p) * rate p);
          p = p\<lparr>last_error := error\<rparr>;
          p = (if tau p > 0 then
                 let alpha = rnd32 (pid_dt p / rnd32 (tau p + pid_dt p))
                 in p\<lparr>filtered_derivative := rnd32 (rnd32 (filtered_derivative p * rnd32 (1 - alpha)) + rnd32 (raw_derivative * alpha))\<rparr>
               else p\<lparr>filtered_derivative := raw_derivative\<rparr>);
          output = rnd32 (output + rnd32 (kd p * filtered_derivative p));
          p = p\<lparr>integral := rnd32 (integral p + rnd32 (error * pid_dt p))\<rparr>;
          p = (if i_limit p > 0 then p\<lparr>integral := clampf (integral p) (- i_limit p) (i_limit p)\<rparr> else p);
          output = rnd32 (output + rnd32 (ki p * integral p));
          output = (if o_limit p > 0 then clampf output (- o_limit p) (o_limit p) else output)
      in (output, p))"

definition PID_reset :: "PID \<Rightarrow> PID" where
  "PID_reset p = p\<lparr>last_error := 0, integral := 0, filtered_derivative := 0\<rparr>"

section \<open>Robot control\<close>

datatype ExecutionStatus = SUCCESS | TIMEOUT | ERROR

type_synonym ExecutionResult = "ExecutionStatus \<times> string"

datatype sport_call = Move real real real | StopMove | Hello | StandDown | RecoveryStand | BalanceStand
  | Euler real real real | Stretch

text \<open>The members of \<open>Go2RemoteControl\<close> that change, with the calls made so far.\<close>

record Go2RemoteControl =
  pid_yaw :: PID
  pid_x :: PID
  pid_y :: PID
  cancel_flag :: bool
  calls :: "sport_call list"

definition Go2RemoteControl_new :: Go2RemoteControl where
  "Go2RemoteControl_new = \<lparr>pid_yaw = PID_init 10 0 0 100 10 (1 / 2) 2, pid_x = PID_init 2 0 0 100 10 (1 / 2) 1,
     pid_y = PID_init 2 0 0 100 10 (1 / 2) 1, cancel_flag = False, calls = []\<rparr>"

text \<open>The result of a call may depend on everything sent before.\<close>

definition sport :: "(sport_call list \<Rightarrow> int) \<Rightarrow> sport_call \<Rightarrow> Go2RemoteControl \<Rightarrow> int \<times> Go2RemoteControl" where
  "sport code c rc = (code (calls rc @ [c]), rc\<lparr>calls := calls rc @ [c]\<rparr>)"

definition single :: "(sport_call list \<Rightarrow> int) \<Rightarrow> sport_call \<Rightarrow> string \<Rightarrow> Go2RemoteControl \<Rightarrow> ExecutionResult \<times> Go2RemoteControl" where
  "single code c failure rc = (case sport code c rc of (ret, rc) \<Rightarrow> (if ret \<noteq> 0 then (ERROR, failure) else (SUCCESS, []), rc))"

definition cancel :: "Go2RemoteControl \<Rightarrow> Go2RemoteControl" where
  "cancel rc = rc\<lparr>cancel_flag := True\<rparr>"

definition stop :: "(sport_call list \<Rightarrow> int) \<Rightarrow> Go2RemoteControl \<Rightarrow> ExecutionResult \<times> Go2RemoteControl" where
  "stop code = single code StopMove ''Failed to send stop command.''"

definition hello :: "(sport_call list \<Rightarrow> int) \<Rightarrow> Go2RemoteControl \<Rightarrow> ExecutionResult \<times> Go2RemoteControl" where
  "hello code = single code Hello ''Failed to send hello command.''"

definition stand_down :: "(sport_call list \<Rightarrow> int) \<Rightarrow> Go2RemoteControl \<Rightarrow> ExecutionResult \<times> Go2RemoteControl" where
  "stand_down code = single code StandDown ''Failed to send stand down command.''"

definition stand_up :: "(sport_call list \<Rightarrow> int) \<Rightarrow> Go2RemoteControl \<Rightarrow> ExecutionResult \<times> Go2RemoteControl" where
  "stand_up code = single code RecoveryStand ''Failed recovery.''"

definition balanced_stand :: "(sport_call list \<Rightarrow> int) \<Rightarrow> Go2RemoteControl \<Rightarrow> ExecutionResult \<times> Go2RemoteControl" where
  "balanced_stand code = single code BalanceStand ''Failed to send balanced stand command.''"

definition euler :: "(sport_call list \<Rightarrow> int) \<Rightarrow> real \<Rightarrow> real \<Rightarrow> real \<Rightarrow> Go2RemoteControl \<Rightarrow> ExecutionResult \<times> Go2RemoteControl" where
  "euler code roll pitch yaw = single code (Euler roll pitch yaw) ''Failed to send Euler command.''"

definition stretch :: "(sport_call list \<Rightarrow> int) \<Rightarrow> Go2RemoteControl \<Rightarrow> ExecutionResult \<times> Go2RemoteControl" where
  "stretch code = single code Stretch ''Failed to send stretch command.''"

definition nav :: "(sport_call list \<Rightarrow> int) \<Rightarrow> real \<Rightarrow> real \<Rightarrow> real \<Rightarrow> Go2RemoteControl \<Rightarrow> ExecutionResult \<times> Go2RemoteControl" where
  "nav code vx vy vyaw rc = (case sport code (Move (rnd32 vx) (rnd32 vy) (rnd32 vyaw)) rc of (rslt, rc) \<Rightarrow>
     (if rslt \<noteq> 0 then (ERROR, ''Move failed with error code: '' @ to_string rslt) else (SUCCESS, []), rc))"

section \<open>Closed-loop motions\<close>

text \<open>
  What the loop observes in one turn: the cancel flag, then the clock in nanoseconds, then the
  robot state, which another thread updates. Times are compared as doubles.
\<close>

record tick =
  t_cancel :: bool
  t_now :: int
  t_x :: real
  t_y :: real
  t_yaw :: real

definition end_time :: "int \<Rightarrow> real \<Rightarrow> real" where
  "end_time now timeout = rnd64 (rnd64 (of_int now) + rnd64 (timeout * 1000000000))"

definition before :: "int \<Rightarrow> real \<Rightarrow> bool" where
  "before now e \<longleftrightarrow> rnd64 (of_int now) < e"

definition control_error_yaw :: real where
  "control_error_yaw = rnd64 (1 / 100)"

definition control_error :: real where
  "control_error = rnd64 (5 / 100)"

definition yaw_step :: "real \<Rightarrow> real \<Rightarrow> real" where
  "yaw_step yaw_current prev_yaw =
     (let yaw_diff = rnd64 (yaw_current - prev_yaw)
      in if yaw_diff > M_PI then rnd64 (yaw_diff - rnd64 (2 * M_PI))
         else if yaw_diff < - M_PI then rnd64 (yaw_diff + rnd64 (2 * M_PI)) else yaw_diff)"

text \<open>The loop over the observations; \<open>None\<close> when it is still running after the last of them.\<close>

fun rotate_loop :: "(sport_call list \<Rightarrow> int) \<Rightarrow> real \<Rightarrow> real \<Rightarrow> tick list \<Rightarrow> int \<Rightarrow> real \<Rightarrow> real \<Rightarrow> Go2RemoteControl \<Rightarrow>
    ExecutionResult option \<times> Go2RemoteControl" where
  "rotate_loop code e delta_rad ticks now prev_yaw accumulated_angle rc =
     (if \<not> before now e then (Some (TIMEOUT, ''Rotation timed out before reaching the target angle.''), rc)
      else case ticks of [] \<Rightarrow> (None, rc)
      | t # ticks \<Rightarrow>
        if t_cancel t then (Some (ERROR, ''Rotate cancelled''), snd (sport code (Move 0 0 0) rc))
        else let accumulated_angle = rnd64 (accumulated_angle + yaw_step (t_yaw t) prev_yaw);
                 remaining_angle = rnd64 (delta_rad - accumulated_angle)
             in if \<bar>remaining_angle\<bar> < control_error_yaw then (Some (SUCCESS, []), rc)
                else let (vyaw, p) = PID_update (rnd32 remaining_angle) (pid_yaw rc);
                         rc = snd (sport code (Move 0 0 (rnd32 vyaw)) (rc\<lparr>pid_yaw := p\<rparr>))
                     in rotate_loop code e delta_rad ticks (t_now t) (t_yaw t) accumulated_angle rc)"

declare rotate_loop.simps [simp del]

definition rotate :: "(sport_call list \<Rightarrow> int) \<Rightarrow> real \<Rightarrow> real \<Rightarrow> real \<Rightarrow> int \<Rightarrow> tick list \<Rightarrow> Go2RemoteControl \<Rightarrow>
    ExecutionResult option \<times> Go2RemoteControl" where
  "rotate code delta_rad timeout initial_yaw now ticks rc =
     rotate_loop code (end_time now timeout) delta_rad ticks now initial_yaw 0 (rc\<lparr>cancel_flag := False\<rparr>)"

fun move_loop :: "(sport_call list \<Rightarrow> int) \<Rightarrow> (real \<Rightarrow> real) \<Rightarrow> (real \<Rightarrow> real) \<Rightarrow> real \<Rightarrow> real \<Rightarrow> real \<Rightarrow> real \<Rightarrow> tick list \<Rightarrow> int \<Rightarrow>
    Go2RemoteControl \<Rightarrow> ExecutionResult option \<times> Go2RemoteControl" where
  "move_loop code cosd sind e target_x target_y yaw_target ticks now rc =
     (if \<not> before now e then (Some (TIMEOUT, ''Movement timed out before reaching the target position.''), rc)
      else case ticks of [] \<Rightarrow> (None, rc)
      | t # ticks \<Rightarrow>
        if t_cancel t then (Some (ERROR, ''Move cancelled''), snd (sport code (Move 0 0 0) rc))
        else let remaining_x = rnd64 (target_x - t_x t); remaining_y = rnd64 (target_y - t_y t)
             in if \<bar>remaining_x\<bar> < control_error \<and> \<bar>remaining_y\<bar> < control_error then (Some (SUCCESS, []), rc)
                else let (vx, px) = PID_update (rnd32 remaining_x) (pid_x rc);
                         (vy, py) = PID_update (rnd32 remaining_y) (pid_y rc);
                         v_body_x = rnd64 (rnd64 (vx * cosd (t_yaw t)) + rnd64 (vy * sind (t_yaw t)));
                         v_body_y = rnd64 (rnd64 (- vx * sind (t_yaw t)) + rnd64 (vy * cosd (t_yaw t)));
                         (vyaw, pyaw) = PID_update (rnd32 (rnd64 (yaw_target - t_yaw t))) (pid_yaw rc);
                         rc = snd (sport code (Move (rnd32 v_body_x) (rnd32 v_body_y) (rnd32 vyaw))
                                (rc\<lparr>pid_x := px, pid_y := py, pid_yaw := pyaw\<rparr>))
                     in move_loop code cosd sind e target_x target_y yaw_target ticks (t_now t) rc)"

declare move_loop.simps [simp del]

definition move_target :: "(real \<Rightarrow> real) \<Rightarrow> (real \<Rightarrow> real) \<Rightarrow> real \<Rightarrow> real \<Rightarrow> bool \<Rightarrow> real \<Rightarrow> real \<Rightarrow> real \<Rightarrow> real \<times> real" where
  "move_target cosd sind dx dy body_frame initial_x initial_y initial_yaw =
     (if body_frame then
        let body_dx = rnd64 (rnd64 (dx * cosd initial_yaw) - rnd64 (dy * sind initial_yaw));
            body_dy = rnd64 (rnd64 (dx * sind initial_yaw) + rnd64 (dy * cosd initial_yaw))
        in (rnd64 (initial_x + body_dx), rnd64 (initial_y + body_dy))
      else (rnd64 (initial_x + dx), rnd64 (initial_y + dy)))"

definition move :: "(sport_call list \<Rightarrow> int) \<Rightarrow> (real \<Rightarrow> real) \<Rightarrow> (real \<Rightarrow> real) \<Rightarrow> real \<Rightarrow> real \<Rightarrow> bool \<Rightarrow> real \<Rightarrow>
    tick \<Rightarrow> tick list \<Rightarrow> Go2RemoteControl \<Rightarrow> ExecutionResult option \<times> Go2RemoteControl" where
  "move code cosd sind dx dy body_frame timeout t0 ticks rc =
     (let (target_x, target_y) = move_target cosd sind dx dy body_frame (t_x t0) (t_y t0) (t_yaw t0)
      in move_loop code cosd sind (end_time (t_now t0) timeout) target_x target_y (t_yaw t0) ticks (t_now t0)
           (rc\<lparr>cancel_flag := False\<rparr>))"

section \<open>HTTP dispatch\<close>

text \<open>
  The request body as the JSON library gives it: no body when it does not parse, and accessors that
  fail on a missing member or one of another type.
\<close>

record body =
  b_s :: "string \<Rightarrow> string option"
  b_d :: "string \<Rightarrow> real option"
  b_b :: "string \<Rightarrow> bool option"

text \<open>A text response, a status response, an exception out of the handler, or a motion still running.\<close>

datatype response = Text int string | Status int int string | Thrown | Pending

fun status_code :: "ExecutionStatus \<Rightarrow> int" where
  "status_code SUCCESS = 0" | "status_code TIMEOUT = 1" | "status_code ERROR = 2"

definition respond :: "ExecutionResult option \<times> Go2RemoteControl \<Rightarrow> response \<times> Go2RemoteControl" where
  "respond r = (case r of (None, rc) \<Rightarrow> (Pending, rc) | (Some (st, m), rc) \<Rightarrow> (Status 200 (status_code st) m, rc))"

definition reply_now :: "ExecutionResult \<times> Go2RemoteControl \<Rightarrow> response \<times> Go2RemoteControl" where
  "reply_now r = (case r of (res, rc) \<Rightarrow> respond (Some res, rc))"

text \<open>\<open>t0\<close> is the robot state and the clock at the start of a motion, \<open>ticks\<close> what its loop observes.\<close>

definition control_route :: "(sport_call list \<Rightarrow> int) \<Rightarrow> (real \<Rightarrow> real) \<Rightarrow> (real \<Rightarrow> real) \<Rightarrow> tick \<Rightarrow> tick list \<Rightarrow> body option \<Rightarrow>
    Go2RemoteControl \<Rightarrow> response \<times> Go2RemoteControl" where
  "control_route code cosd sind t0 ticks bo rc =
     (case bo of None \<Rightarrow> (Text 400 ''Invalid JSON'', rc)
      | Some b \<Rightarrow> (case b_s b ''command'' of None \<Rightarrow> (Thrown, rc)
      | Some command \<Rightarrow>
        if command = ''move'' then
          (case (b_d b ''dx'', b_d b ''dy'', b_b b ''body_frame'', b_d b ''timeout'') of
             (Some dx, Some dy, Some bf, Some timeout) \<Rightarrow> respond (move code cosd sind dx dy bf timeout t0 ticks rc)
           | _ \<Rightarrow> (Thrown, rc))
        else if command = ''rotate'' then
          (case (b_d b ''delta_rad'', b_d b ''timeout'') of
             (Some delta_rad, Some timeout) \<Rightarrow> respond (rotate code delta_rad timeout (t_yaw t0) (t_now t0) ticks rc)
           | _ \<Rightarrow> (Thrown, rc))
        else if command = ''stand_up'' then reply_now (stand_up code rc)
        else if command = ''shake_hand'' then reply_now (hello code rc)
        else if command = ''stand_down'' then reply_now (stand_down code rc)
        else if command = ''nav'' then
          (case (b_d b ''vx'', b_d b ''vy'', b_d b ''vyaw'') of
             (Some vx, Some vy, Some vyaw) \<Rightarrow> reply_now (nav code vx vy vyaw rc)
           | _ \<Rightarrow> (Thrown, rc))
        else if command = ''euler'' then
          (case (b_d b ''roll'', b_d b ''pitch'', b_d b ''yaw'') of
             (Some roll, Some pitch, Some yaw) \<Rightarrow> reply_now (euler code (rnd32 roll) (rnd32 pitch) (rnd32 yaw) rc)
           | _ \<Rightarrow> (Thrown, rc))
        else if command = ''stop'' then reply_now (stop code rc)
        else if command = ''stretch'' then reply_now (stretch code rc)
        else if command = ''balanced_stand'' then reply_now (balanced_stand code rc)
        else (Text 400 ''Unknown command'', rc)))"

section \<open>Upload route of the audio service\<close>

datatype upload_reply = Upload int ExecutionStatus string

text \<open>\<open>opens\<close> tells whether the file can be created and \<open>plays\<close> whether the player succeeds on it; the
  result contains the file written, if any.\<close>

definition upload_play :: "(string \<Rightarrow> bool) \<Rightarrow> (string \<Rightarrow> bool) \<Rightarrow> u8 list \<Rightarrow> string option \<Rightarrow>
    upload_reply \<times> (string \<times> u8 list) option" where
  "upload_play opens plays body filename_param =
     (if body = [] then (Upload 400 ERROR ''No audio file provided. Use 'audio' as the form field name.'', None)
      else let filename = (case filename_param of None \<Rightarrow> ''uploaded_audio.wav'' | Some f \<Rightarrow> f) in
      if length filename < 4 \<or> drop (length filename - 4) filename \<noteq> ''.wav''
      then (Upload 400 ERROR ''Only WAV files are supported'', None)
      else let filepath = ''/tmp/audio_uploads/'' @ filename in
      if \<not> opens filepath then (Upload 500 ERROR ''Failed to save uploaded file'', None)
      else if plays filepath then (Upload 200 SUCCESS ''Audio uploaded and played successfully!'', Some (filepath, body))
      else (Upload 500 ERROR ''Audio uploaded but playback failed!'', Some (filepath, body)))"

section \<open>Speed limits\<close>

definition gains :: "real \<Rightarrow> real \<Rightarrow> PID \<Rightarrow> bool" where
  "gains k ol p \<longleftrightarrow> kp p = k \<and> ki p = 0 \<and> kd p = 0 \<and> o_limit p = ol"

lemma gains_update: "gains k ol p \<Longrightarrow> gains k ol (snd (PID_update e p))"
  by (simp add: gains_def PID_update_def Let_def)

lemma gains_init: "gains k ol (PID_init k 0 0 r c il ol)"
  by (simp add: gains_def PID_init_def)

text \<open>With no integral and no derivative gain the controller is a limited proportional one, whatever its history.\<close>

lemma PID_proportional:
  assumes "gains k ol p" and "0 < ol"
  shows "fst (PID_update e p) = clampf (rnd32 (k * e)) (- ol) ol"
  using assms by (simp add: gains_def PID_update_def Let_def)

lemma clampf_bound: "0 \<le> ol \<Longrightarrow> \<bar>clampf x (- ol) ol\<bar> \<le> ol"
  by (auto simp: clampf_def)

definition rc_ok :: "Go2RemoteControl \<Rightarrow> bool" where
  "rc_ok rc \<longleftrightarrow> gains 10 2 (pid_yaw rc) \<and> gains 2 1 (pid_x rc) \<and> gains 2 1 (pid_y rc)"

lemma rc_ok_new: "rc_ok Go2RemoteControl_new"
  by (simp add: rc_ok_def Go2RemoteControl_new_def gains_init)

fun slow :: "sport_call \<Rightarrow> bool" where
  "slow (Move x y z) \<longleftrightarrow> \<bar>x\<bar> \<le> 2 \<and> \<bar>y\<bar> \<le> 2 \<and> \<bar>z\<bar> \<le> 2"
| "slow c \<longleftrightarrow> True"

definition rc_inv :: "Go2RemoteControl \<Rightarrow> bool" where
  "rc_inv rc \<longleftrightarrow> rc_ok rc \<and> list_all slow (calls rc)"

lemma rc_inv_sport: "rc_inv rc \<Longrightarrow> slow c \<Longrightarrow> rc_inv (snd (sport code c rc))"
  by (simp add: rc_inv_def rc_ok_def sport_def)

lemma rnd32_le2: "\<bar>x\<bar> \<le> 2 \<Longrightarrow> \<bar>rnd32 x\<bar> \<le> 2"
  using f32.rnd_le [of x 2] f32.le_rnd [of "- 2" x] rep32_of_int [of 2] rep32_of_int [of "- 2"] by (simp add: abs_le_iff)

lemma rnd64_le2: "\<bar>x\<bar> \<le> 2 \<Longrightarrow> \<bar>rnd64 x\<bar> \<le> 2"
  using f64.rnd_le [of x 2] f64.le_rnd [of "- 2" x] rep64_of_int [of 2] rep64_of_int [of "- 2"] by (simp add: abs_le_iff)

lemma rnd64_le1: "\<bar>x\<bar> \<le> 1 \<Longrightarrow> \<bar>rnd64 x\<bar> \<le> 1"
  using f64.rnd_le [of x 1] f64.le_rnd [of "- 1" x] rep64_of_int [of 1] rep64_of_int [of "- 1"] by (simp add: abs_le_iff)

lemma mix_le2:
  assumes "\<bar>v\<bar> \<le> 1" "\<bar>c\<bar> \<le> 1" "\<bar>w\<bar> \<le> 1" "\<bar>d\<bar> \<le> 1"
  shows "\<bar>rnd32 (rnd64 (rnd64 (v * c) + rnd64 (w * d)))\<bar> \<le> 2"
proof -
  have "\<bar>v * c\<bar> \<le> 1" "\<bar>w * d\<bar> \<le> 1" using assms by (simp_all add: abs_mult mult_le_one)
  then have "\<bar>rnd64 (v * c)\<bar> \<le> 1" "\<bar>rnd64 (w * d)\<bar> \<le> 1" by (simp_all add: rnd64_le1)
  then have "\<bar>rnd64 (v * c) + rnd64 (w * d)\<bar> \<le> 2" by linarith
  then show ?thesis by (intro rnd32_le2 rnd64_le2)
qed

lemma PID_bound: "gains k ol p \<Longrightarrow> 0 < ol \<Longrightarrow> \<bar>fst (PID_update e p)\<bar> \<le> ol"
  by (simp add: PID_proportional clampf_bound)

text \<open>One turn of the movement loop that neither ends nor is cancelled.\<close>

definition move_turn :: "(sport_call list \<Rightarrow> int) \<Rightarrow> (real \<Rightarrow> real) \<Rightarrow> (real \<Rightarrow> real) \<Rightarrow> real \<Rightarrow> real \<Rightarrow> real \<Rightarrow> tick \<Rightarrow>
    Go2RemoteControl \<Rightarrow> Go2RemoteControl" where
  "move_turn code cosd sind tx ty yt t rc =
     (let (vx, px) = PID_update (rnd32 (rnd64 (tx - t_x t))) (pid_x rc);
          (vy, py) = PID_update (rnd32 (rnd64 (ty - t_y t))) (pid_y rc);
          (vyaw, pyaw) = PID_update (rnd32 (rnd64 (yt - t_yaw t))) (pid_yaw rc)
      in snd (sport code (Move (rnd32 (rnd64 (rnd64 (vx * cosd (t_yaw t)) + rnd64 (vy * sind (t_yaw t)))))
             (rnd32 (rnd64 (rnd64 (- vx * sind (t_yaw t)) + rnd64 (vy * cosd (t_yaw t))))) (rnd32 vyaw))
           (rc\<lparr>pid_x := px, pid_y := py, pid_yaw := pyaw\<rparr>)))"

definition move_done :: "real \<Rightarrow> real \<Rightarrow> tick \<Rightarrow> bool" where
  "move_done tx ty t \<longleftrightarrow> \<bar>rnd64 (tx - t_x t)\<bar> < control_error \<and> \<bar>rnd64 (ty - t_y t)\<bar> < control_error"

lemma move_loop_late: "\<not> before now e \<Longrightarrow> move_loop code cosd sind e tx ty yt ticks now rc =
    (Some (TIMEOUT, ''Movement timed out before reaching the target position.''), rc)"
  by (simp add: move_loop.simps)

lemma move_loop_Nil: "before now e \<Longrightarrow> move_loop code cosd sind e tx ty yt [] now rc = (None, rc)"
  by (simp add: move_loop.simps)

lemma move_loop_Cons: "before now e \<Longrightarrow> move_loop code cosd sind e tx ty yt (t # ts) now rc =
    (if t_cancel t then (Some (ERROR, ''Move cancelled''), snd (sport code (Move 0 0 0) rc))
     else if move_done tx ty t then (Some (SUCCESS, []), rc)
     else move_loop code cosd sind e tx ty yt ts (t_now t) (move_turn code cosd sind tx ty yt t rc))"
  by (subst move_loop.simps) (simp add: move_turn_def move_done_def Let_def split_beta)

text \<open>And of the rotation loop.\<close>

definition turned :: "real \<Rightarrow> real \<Rightarrow> tick \<Rightarrow> real" where
  "turned prev_yaw acc t = rnd64 (acc + yaw_step (t_yaw t) prev_yaw)"

definition rotate_done :: "real \<Rightarrow> real \<Rightarrow> bool" where
  "rotate_done d acc \<longleftrightarrow> \<bar>rnd64 (d - acc)\<bar> < control_error_yaw"

definition rotate_turn :: "(sport_call list \<Rightarrow> int) \<Rightarrow> real \<Rightarrow> real \<Rightarrow> Go2RemoteControl \<Rightarrow> Go2RemoteControl" where
  "rotate_turn code d acc rc =
     (let (vyaw, p) = PID_update (rnd32 (rnd64 (d - acc))) (pid_yaw rc)
      in snd (sport code (Move 0 0 (rnd32 vyaw)) (rc\<lparr>pid_yaw := p\<rparr>)))"

lemma rotate_loop_late: "\<not> before now e \<Longrightarrow> rotate_loop code e d ticks now py acc rc =
    (Some (TIMEOUT, ''Rotation timed out before reaching the target angle.''), rc)"
  by (simp add: rotate_loop.simps)

lemma rotate_loop_Nil: "before now e \<Longrightarrow> rotate_loop code e d [] now py acc rc = (None, rc)"
  by (simp add: rotate_loop.simps)

lemma rotate_loop_Cons: "before now e \<Longrightarrow> rotate_loop code e d (t # ts) now py acc rc =
    (if t_cancel t then (Some (ERROR, ''Rotate cancelled''), snd (sport code (Move 0 0 0) rc))
     else if rotate_done d (turned py acc t) then (Some (SUCCESS, []), rc)
     else rotate_loop code e d ts (t_now t) (t_yaw t) (turned py acc t) (rotate_turn code d (turned py acc t) rc))"
  by (subst rotate_loop.simps) (simp add: turned_def rotate_done_def rotate_turn_def Let_def split_beta)

lemmas loop_simps = move_loop_late move_loop_Nil move_loop_Cons rotate_loop_late rotate_loop_Nil rotate_loop_Cons

lemma rotate_turn_inv: "rc_inv rc \<Longrightarrow> rc_inv (rotate_turn code d acc rc)"
proof -
  assume inv: "rc_inv rc"
  define u where "u = PID_update (rnd32 (rnd64 (d - acc))) (pid_yaw rc)"
  have "gains 10 2 (pid_yaw rc)" using inv by (simp add: rc_inv_def rc_ok_def)
  then have "rc_inv (rc\<lparr>pid_yaw := snd u\<rparr>)" "\<bar>rnd32 (fst u)\<bar> \<le> 2"
    using inv by (simp_all add: rc_inv_def rc_ok_def u_def gains_update PID_bound rnd32_le2)
  then have "rc_inv (snd (sport code (Move 0 0 (rnd32 (fst u))) (rc\<lparr>pid_yaw := snd u\<rparr>)))"
    by (intro rc_inv_sport) simp_all
  then show ?thesis by (simp add: rotate_turn_def split_beta flip: u_def)
qed

lemma move_turn_inv:
  assumes inv: "rc_inv rc" and "\<And>x. \<bar>cosd x\<bar> \<le> 1" and "\<And>x. \<bar>sind x\<bar> \<le> 1"
  shows "rc_inv (move_turn code cosd sind tx ty yt t rc)"
proof -
  define a where "a = PID_update (rnd32 (rnd64 (tx - t_x t))) (pid_x rc)"
  define b where "b = PID_update (rnd32 (rnd64 (ty - t_y t))) (pid_y rc)"
  define c where "c = PID_update (rnd32 (rnd64 (yt - t_yaw t))) (pid_yaw rc)"
  have g: "gains 10 2 (pid_yaw rc)" "gains 2 1 (pid_x rc)" "gains 2 1 (pid_y rc)"
    using inv by (simp_all add: rc_inv_def rc_ok_def)
  then have v: "\<bar>fst a\<bar> \<le> 1" "\<bar>fst b\<bar> \<le> 1" "\<bar>rnd32 (fst c)\<bar> \<le> 2"
    by (simp_all add: a_def b_def c_def PID_bound rnd32_le2)
  have "rc_inv (rc\<lparr>pid_x := snd a, pid_y := snd b, pid_yaw := snd c\<rparr>)"
    using inv g by (simp add: rc_inv_def rc_ok_def a_def b_def c_def gains_update)
  moreover have "slow (Move (rnd32 (rnd64 (rnd64 (fst a * cosd (t_yaw t)) + rnd64 (fst b * sind (t_yaw t)))))
      (rnd32 (rnd64 (rnd64 (- fst a * sind (t_yaw t)) + rnd64 (fst b * cosd (t_yaw t))))) (rnd32 (fst c)))"
    using v assms(2,3) by (simp add: mix_le2 del: mult_minus_left)
  ultimately show ?thesis
    unfolding move_turn_def by (simp add: Let_def split_beta rc_inv_sport flip: a_def b_def c_def)
qed

lemma rotate_loop_inv: "rc_inv rc \<Longrightarrow> rc_inv (snd (rotate_loop code e d ticks now py acc rc))"
proof (induction ticks arbitrary: now py acc rc)
  case Nil
  then show ?case by (cases "before now e") (simp_all add: loop_simps)
next
  case (Cons t ts)
  then show ?case by (cases "before now e") (simp_all add: loop_simps rc_inv_sport rotate_turn_inv)
qed

lemma move_loop_inv:
  assumes "\<And>x. \<bar>cosd x\<bar> \<le> 1" and "\<And>x. \<bar>sind x\<bar> \<le> 1"
  shows "rc_inv rc \<Longrightarrow> rc_inv (snd (move_loop code cosd sind e tx ty yt ticks now rc))"
proof (induction ticks arbitrary: now rc)
  case Nil
  then show ?case by (cases "before now e") (simp_all add: loop_simps)
next
  case (Cons t ts)
  then show ?case by (cases "before now e") (simp_all add: loop_simps rc_inv_sport move_turn_inv assms)
qed

lemma rc_inv_flag: "rc_inv rc \<Longrightarrow> rc_inv (rc\<lparr>cancel_flag := f\<rparr>)"
  by (simp add: rc_inv_def rc_ok_def)

lemma rc_inv_single: "rc_inv rc \<Longrightarrow> slow c \<Longrightarrow> rc_inv (snd (single code c m rc))"
  using rc_inv_sport [of rc c code] by (simp add: single_def split_beta)

lemma snd_respond [simp]: "snd (respond r) = snd r" "snd (reply_now q) = snd q"
  by (simp_all add: respond_def reply_now_def split: prod.splits option.splits)

lemmas single_defs = stop_def hello_def stand_down_def stand_up_def balanced_stand_def euler_def stretch_def

text \<open>A sequence of requests, each with what its loop observes.\<close>

definition serve :: "(sport_call list \<Rightarrow> int) \<Rightarrow> (real \<Rightarrow> real) \<Rightarrow> (real \<Rightarrow> real) \<Rightarrow> (tick \<times> tick list \<times> body option) list \<Rightarrow>
    Go2RemoteControl \<Rightarrow> Go2RemoteControl" where
  "serve code cosd sind = fold (\<lambda>(t0, ticks, b) rc. snd (control_route code cosd sind t0 ticks b rc))"

fun not_nav :: "body option \<Rightarrow> bool" where
  "not_nav None \<longleftrightarrow> True"
| "not_nav (Some b) \<longleftrightarrow> b_s b ''command'' \<noteq> Some ''nav''"

lemma control_route_inv:
  assumes "rc_inv rc" and "not_nav b" and "\<And>x. \<bar>cosd x\<bar> \<le> 1" and "\<And>x. \<bar>sind x\<bar> \<le> 1"
  shows "rc_inv (snd (control_route code cosd sind t0 ticks b rc))"
proof -
  have mv: "rc_inv (snd (move code cosd sind dx dy bf timeout t0 ticks rc))" for dx dy bf timeout
    using assms by (simp add: move_def split_beta move_loop_inv rc_inv_flag)
  have rt: "rc_inv (snd (rotate code d timeout y now ticks rc))" for d timeout y now
    using assms(1) by (simp add: rotate_def rotate_loop_inv rc_inv_flag)
  have sg: "rc_inv (snd (single code c m rc))" if "slow c" for c m
    using assms(1) that by (rule rc_inv_single)
  show ?thesis
  proof (cases b)
    case (Some y)
    show ?thesis
    proof (cases "b_s y ''command''")
      case cmd: (Some c)
      with Some assms(2) have "c \<noteq> ''nav''" by simp
      with Some cmd mv rt sg assms(1) show ?thesis
        by (simp add: control_route_def single_defs split: option.splits)
    qed (use Some assms(1) in \<open>simp add: control_route_def\<close>)
  qed (use assms(1) in \<open>simp add: control_route_def\<close>)
qed

section \<open>What the control service guarantees\<close>



text \<open>The yaw accumulated over a list of observations.\<close>

fun total_turn :: "real \<Rightarrow> real \<Rightarrow> tick list \<Rightarrow> real" where
  "total_turn prev_yaw acc [] = acc"
| "total_turn prev_yaw acc (t # ts) = total_turn (t_yaw t) (turned prev_yaw acc t) ts"

lemma rotate_loop_returns:
  assumes "\<not> before now e \<or> (\<exists>t \<in> set ticks. \<not> before (t_now t) e)"
  shows "\<exists>st m. fst (rotate_loop code e d ticks now py acc rc) = Some (st, m) \<and>
    (st = SUCCESS \<longrightarrow> (\<exists>k \<le> length ticks. rotate_done d (total_turn py acc (take k ticks)))) \<and>
    (st = ERROR \<longrightarrow> (\<exists>t \<in> set ticks. t_cancel t))"
  using assms
proof (induction ticks arbitrary: now py acc rc)
  case Nil
  then show ?case by (simp add: loop_simps)
next
  case (Cons t ts)
  consider "\<not> before now e" | "before now e" "t_cancel t" | "before now e" "\<not> t_cancel t" "rotate_done d (turned py acc t)"
    | "before now e" "\<not> t_cancel t" "\<not> rotate_done d (turned py acc t)" by blast
  then show ?case
  proof cases
    case 3
    then show ?thesis by (auto simp: loop_simps intro!: exI [of _ "Suc 0"])
  next
    case 4
    with Cons.prems have "\<not> before (t_now t) e \<or> (\<exists>t \<in> set ts. \<not> before (t_now t) e)" by auto
    then obtain st m where
      r: "fst (rotate_loop code e d ts (t_now t) (t_yaw t) (turned py acc t) (rotate_turn code d (turned py acc t) rc)) = Some (st, m)"
      and ok: "st = SUCCESS \<Longrightarrow> \<exists>k \<le> length ts. rotate_done d (total_turn (t_yaw t) (turned py acc t) (take k ts))"
      and er: "st = ERROR \<Longrightarrow> \<exists>t \<in> set ts. t_cancel t"
      using Cons.IH [of "t_now t" "t_yaw t" "turned py acc t" "rotate_turn code d (turned py acc t) rc"] by blast
    have "\<exists>k \<le> length (t # ts). rotate_done d (total_turn py acc (take k (t # ts)))" if "st = SUCCESS"
      using ok [OF that] by (metis Suc_le_mono length_Cons take_Suc_Cons total_turn.simps(2))
    with 4 r er show ?thesis by (simp add: loop_simps)
  qed (simp_all add: loop_simps)
qed

lemma move_loop_returns:
  assumes "\<not> before now e \<or> (\<exists>t \<in> set ticks. \<not> before (t_now t) e)"
  shows "\<exists>st m. fst (move_loop code cosd sind e tx ty yt ticks now rc) = Some (st, m) \<and>
    (st = SUCCESS \<longrightarrow> (\<exists>t \<in> set ticks. move_done tx ty t)) \<and> (st = ERROR \<longrightarrow> (\<exists>t \<in> set ticks. t_cancel t))"
  using assms
proof (induction ticks arbitrary: now rc)
  case Nil
  then show ?case by (simp add: loop_simps)
next
  case (Cons t ts)
  consider "\<not> before now e" | "before now e" "t_cancel t \<or> move_done tx ty t" | "before now e" "\<not> t_cancel t" "\<not> move_done tx ty t"
    by blast
  then show ?case
  proof cases
    case 2
    then show ?thesis by (auto simp: loop_simps)
  next
    case 3
    with Cons.prems have "\<not> before (t_now t) e \<or> (\<exists>t \<in> set ts. \<not> before (t_now t) e)" by auto
    from Cons.IH [OF this, of "move_turn code cosd sind tx ty yt t rc"] 3 show ?thesis by (auto simp: loop_simps)
  qed (simp add: loop_simps)
qed

text \<open>C22: Once the clock has been observed past the deadline, \<open>rotate\<close> and \<open>move\<close> have returned. They report success only
  if at some observation the accumulated yaw was within the yaw tolerance of the demanded angle, or the position
  within the tolerance of the target in both coordinates, and an error only after a cancellation.\<close>

theorem motions_return:
  assumes "\<exists>t \<in> set ticks. \<not> before (t_now t) (end_time (t_now t0) timeout)"
  shows "(\<exists>st m. fst (rotate code d timeout (t_yaw t0) (t_now t0) ticks rc) = Some (st, m) \<and>
      (st = SUCCESS \<longrightarrow> (\<exists>k \<le> length ticks. rotate_done d (total_turn (t_yaw t0) 0 (take k ticks)))) \<and>
      (st = ERROR \<longrightarrow> (\<exists>t \<in> set ticks. t_cancel t))) \<and>
    (\<exists>st m. fst (move code cosd sind dx dy bf timeout t0 ticks rc) = Some (st, m) \<and>
      (st = SUCCESS \<longrightarrow> (\<exists>t \<in> set ticks. case move_target cosd sind dx dy bf (t_x t0) (t_y t0) (t_yaw t0) of (tx, ty) \<Rightarrow> move_done tx ty t)) \<and>
      (st = ERROR \<longrightarrow> (\<exists>t \<in> set ticks. t_cancel t)))"
  using rotate_loop_returns [of "t_now t0" "end_time (t_now t0) timeout" ticks code d "t_yaw t0" 0 "rc\<lparr>cancel_flag := False\<rparr>"]
    move_loop_returns [of "t_now t0" "end_time (t_now t0) timeout" ticks code cosd sind
      "fst (move_target cosd sind dx dy bf (t_x t0) (t_y t0) (t_yaw t0))"
      "snd (move_target cosd sind dx dy bf (t_x t0) (t_y t0) (t_yaw t0))" "t_yaw t0" "rc\<lparr>cancel_flag := False\<rparr>"] assms
  by (simp add: rotate_def move_def split_beta)

theorem motions_return_witness:
  "\<exists>st m. fst (rotate (\<lambda>cs. 0) 1 1 0 0 [\<lparr>t_cancel = False, t_now = 2000000000, t_x = 0, t_y = 0, t_yaw = 0\<rparr>] Go2RemoteControl_new)
     = Some (st, m) \<and> st \<noteq> ERROR"
proof -
  define t0 where "t0 = \<lparr>t_cancel = False, t_now = 0, t_x = 0, t_y = 0, t_yaw = 0\<rparr>"
  define t where "t = \<lparr>t_cancel = False, t_now = 2000000000, t_x = 0, t_y = 0, t_yaw = 0\<rparr>"
  have "rnd64 1000000000 = 1000000000" "rnd64 2000000000 = 2000000000"
    using f64.rnd_rep [OF rep64_of_int [of 1000000000]] f64.rnd_rep [OF rep64_of_int [of 2000000000]] by simp_all
  then have "\<not> before 2000000000 (end_time 0 1)" by (simp add: before_def end_time_def)
  then have "\<exists>t \<in> set [t]. \<not> before (t_now t) (end_time (t_now t0) 1)" by (simp add: t_def t0_def)
  from motions_return [OF this, THEN conjunct1, of "\<lambda>cs. 0" 1 Go2RemoteControl_new] obtain st m where
    "fst (rotate (\<lambda>cs. 0) 1 1 (t_yaw t0) (t_now t0) [t] Go2RemoteControl_new) = Some (st, m)" "st = ERROR \<longrightarrow> t_cancel t"
    by auto
  then show ?thesis unfolding t_def t0_def by (intro exI [of _ st] exI [of _ m]) simp
qed

end
