(* ===== verification/Joystick.thy ===== *)
theory Joystick
  imports Gamepad
begin

text \<open>
  The joystick of the DDS wrapper (\<open>dds_wrapper/common/unitree_joystick.hpp\<close>), which reads the remote data of
  a state message and writes remote data for a simulated one, and its users: the state
  subscriptions of the G1 and the Go2 with their joystick timeout, the controller publisher, the
  arm publisher, and the generic subscription.
\<close>

section \<open>Buttons and axes\<close>

record jbutton =
  jb_pressed :: bool
  jb_on_pressed :: bool
  jb_on_released :: bool
  jb_data :: int

definition jbutton_init :: jbutton where
  "jbutton_init = \<lparr>jb_pressed = False, jb_on_pressed = False, jb_on_released = False, jb_data = 0\<rparr>"

definition jbutton_update :: "int \<Rightarrow> jbutton \<Rightarrow> jbutton" where
  "jbutton_update data b =
     (let p = (data \<noteq> 0) in \<lparr>jb_pressed = p, jb_on_pressed = (p \<and> jb_data b = 0),
        jb_on_released = (\<not> p \<and> jb_data b \<noteq> 0), jb_data = data\<rparr>)"

record axis =
  ax_pressed :: bool
  ax_on_pressed :: bool
  ax_on_released :: bool
  ax_data :: real

definition axis_init :: axis where
  "axis_init = \<lparr>ax_pressed = False, ax_on_pressed = False, ax_on_released = False, ax_data = 0\<rparr>"

text \<open>The new value is computed in double precision and stored as a float.\<close>

definition axis_value :: "real \<Rightarrow> real \<Rightarrow> real" where
  "axis_value data old =
     (let data_deadzone = (if \<bar>data\<bar> < dead_zone then 0 else data)
      in rnd64 (rnd64 (old * rnd64 (1 - smooth)) + rnd64 (data_deadzone * smooth)))"

definition axis_update :: "real \<Rightarrow> axis \<Rightarrow> axis" where
  "axis_update data a =
     (let new_data = axis_value data (ax_data a); p = (new_data > 1 / 2)
      in \<lparr>ax_pressed = p, ax_on_pressed = (p \<and> ax_data a < 1 / 2),
          ax_on_released = (\<not> p \<and> ax_data a > 1 / 2), ax_data = rnd32 new_data\<rparr>)"

section \<open>Joystick\<close>

text \<open>The finite content of the remote data: the button word and the stick positions.\<close>

record remote =
  r_btn :: u16
  r_lx :: real
  r_ly :: real
  r_rx :: real
  r_ry :: real

definition remote_of :: "xRockerBtnData \<Rightarrow> remote option" where
  "remote_of d = (case (x_lx d, x_ly d, x_rx d, x_ry d) of
     (Some lx, Some ly, Some rx, Some ry) \<Rightarrow> Some \<lparr>r_btn = x_btn d, r_lx = lx, r_ly = ly, r_rx = rx, r_ry = ry\<rparr>
   | _ \<Rightarrow> None)"

record UnitreeJoystick =
  j_back :: jbutton
  j_start :: jbutton
  j_LS :: jbutton
  j_RS :: jbutton
  j_LB :: jbutton
  j_RB :: jbutton
  j_A :: jbutton
  j_B :: jbutton
  j_X :: jbutton
  j_Y :: jbutton
  j_up :: jbutton
  j_down :: jbutton
  j_left :: jbutton
  j_right :: jbutton
  j_F1 :: jbutton
  j_F2 :: jbutton
  j_lx :: axis
  j_ly :: axis
  j_rx :: axis
  j_ry :: axis
  j_LT :: axis
  j_RT :: axis

definition UnitreeJoystick_new :: UnitreeJoystick where
  "UnitreeJoystick_new = \<lparr>j_back = jbutton_init, j_start = jbutton_init, j_LS = jbutton_init, j_RS = jbutton_init,
     j_LB = jbutton_init, j_RB = jbutton_init, j_A = jbutton_init, j_B = jbutton_init, j_X = jbutton_init, j_Y = jbutton_init,
     j_up = jbutton_init, j_down = jbutton_init, j_left = jbutton_init, j_right = jbutton_init, j_F1 = jbutton_init,
     j_F2 = jbutton_init, j_lx = axis_init, j_ly = axis_init, j_rx = axis_init, j_ry = axis_init, j_LT = axis_init, j_RT = axis_init\<rparr>"

text \<open>The bit fields of \<open>BtnUnion\<close>, lowest bit first: R1 L1 Start Select R2 L2 f1 f2 A B X Y up right down left.\<close>

definition js_extract :: "remote \<Rightarrow> UnitreeJoystick \<Rightarrow> UnitreeJoystick" where
  "js_extract key j =
     (let b = (\<lambda>n. of_bool (bit (r_btn key) n) :: int); f = (\<lambda>n. of_bool (bit (r_btn key) n) :: real)
      in j\<lparr>j_back := jbutton_update (b 3) (j_back j), j_start := jbutton_update (b 2) (j_start j),
           j_LB := jbutton_update (b 1) (j_LB j), j_RB := jbutton_update (b 0) (j_RB j),
           j_F1 := jbutton_update (b 6) (j_F1 j), j_F2 := jbutton_update (b 7) (j_F2 j),
           j_A := jbutton_update (b 8) (j_A j), j_B := jbutton_update (b 9) (j_B j),
           j_X := jbutton_update (b 10) (j_X j), j_Y := jbutton_update (b 11) (j_Y j),
           j_up := jbutton_update (b 12) (j_up j), j_down := jbutton_update (b 14) (j_down j),
           j_left := jbutton_update (b 15) (j_left j), j_right := jbutton_update (b 13) (j_right j),
           j_LT := axis_update (f 5) (j_LT j), j_RT := axis_update (f 4) (j_RT j),
           j_lx := axis_update (r_lx key) (j_lx j), j_ly := axis_update (r_ly key) (j_ly j),
           j_rx := axis_update (r_rx key) (j_rx j), j_ry := axis_update (r_ry key) (j_ry j)\<rparr>)"

text \<open>
  What \<open>js_combine\<close> writes; the header, the analogue L2 value and the rest of the buffer stay uninitialised. A
  bit field keeps the lowest bit of what is assigned to it.
\<close>

definition js_bits :: "UnitreeJoystick \<Rightarrow> bool list" where
  "js_bits j =
     [odd (jb_data (j_RB j)), odd (jb_data (j_LB j)), odd (jb_data (j_start j)), odd (jb_data (j_back j)),
      ax_data (j_RT j) > 1 / 2, ax_data (j_LT j) > 1 / 2, odd (jb_data (j_F1 j)), odd (jb_data (j_F2 j)),
      odd (jb_data (j_A j)), odd (jb_data (j_B j)), odd (jb_data (j_X j)), odd (jb_data (j_Y j)),
      odd (jb_data (j_up j)), odd (jb_data (j_right j)), odd (jb_data (j_down j)), odd (jb_data (j_left j))]"

definition js_combine :: "UnitreeJoystick \<Rightarrow> remote" where
  "js_combine j = \<lparr>r_btn = horner_sum of_bool 2 (js_bits j),
     r_lx = ax_data (j_lx j), r_ly = ax_data (j_ly j), r_rx = ax_data (j_rx j), r_ry = ax_data (j_ry j)\<rparr>"

section \<open>Subscriptions\<close>

text \<open>Clock readings in nanoseconds. The handler stores the time and the message.\<close>

record 'm subscription =
  last_update_time :: int
  timeout_ms :: u32
  sub_msg :: 'm

definition subscription_new :: "int \<Rightarrow> 'm \<Rightarrow> 'm subscription" where
  "subscription_new now m = \<lparr>last_update_time = now - 1000000000, timeout_ms = 1000, sub_msg = m\<rparr>"

definition on_message :: "('m \<Rightarrow> 'm) \<Rightarrow> ('m \<Rightarrow> 'm) \<Rightarrow> int \<Rightarrow> 'm \<Rightarrow> 'm subscription \<Rightarrow> 'm subscription" where
  "on_message pre post now m s =
     (let s = s\<lparr>last_update_time := now\<rparr>; s = s\<lparr>sub_msg := pre (sub_msg s)\<rparr>; s = s\<lparr>sub_msg := m\<rparr>
      in s\<lparr>sub_msg := post (sub_msg s)\<rparr>)"

definition set_timeout_ms :: "u32 \<Rightarrow> 'm subscription \<Rightarrow> 'm subscription" where
  "set_timeout_ms t s = s\<lparr>timeout_ms := t\<rparr>"

definition isTimeout :: "int \<Rightarrow> 'm subscription \<Rightarrow> bool" where
  "isTimeout now s \<longleftrightarrow> now - last_update_time s > uint (timeout_ms s) * 1000000"

text \<open>The state subscription: \<open>remote\<close> are the 40 bytes of the remote data in the last message.\<close>

record LowState_sub =
  js :: UnitreeJoystick
  isJoystickTimeout :: bool
  last_joystick_time :: int

definition LowState_sub_new :: LowState_sub where
  "LowState_sub_new = \<lparr>js = UnitreeJoystick_new, isJoystickTimeout = False, last_joystick_time = 0\<rparr>"

definition LowState_update :: "int \<Rightarrow> u8 list \<Rightarrow> LowState_sub \<Rightarrow> LowState_sub option" where
  "LowState_update now wireless_remote s =
     (let s = (if list_all (\<lambda>i. i = 0) wireless_remote then
                 (if now - last_joystick_time s > 3000 * 1000000 then s\<lparr>isJoystickTimeout := True\<rparr> else s)
               else s\<lparr>last_joystick_time := now, isJoystickTimeout := False\<rparr>)
      in case remote_of (RF_RX wireless_remote) of
           None \<Rightarrow> None
         | Some key \<Rightarrow> Some (s\<lparr>js := js_extract key (js s)\<rparr>))"

section \<open>Publishers\<close>

text \<open>The controller message of the Go2, filled from a joystick if there is one.\<close>

definition WirelessController_pre :: "UnitreeJoystick option \<Rightarrow> remote \<Rightarrow> remote" where
  "WirelessController_pre joystick m = (case joystick of None \<Rightarrow> m
     | Some j \<Rightarrow> \<lparr>r_btn = r_btn (js_combine j), r_lx = ax_data (j_lx j), r_ly = ax_data (j_ly j),
                 r_rx = ax_data (j_rx j), r_ry = ax_data (j_ry j)\<rparr>)"

text \<open>The weight of the arm interface is the position of motor 29.\<close>

definition set_weight :: "real \<Rightarrow> real list \<Rightarrow> real list" where
  "set_weight coe q = q[29 := (if coe < 0 then 0 else if 1 < coe then 1 else coe)]"

definition weight :: "real list \<Rightarrow> real" where
  "weight q = q ! 29"

lemma weight_clamped: "29 < length q \<Longrightarrow> 0 \<le> weight (set_weight c q) \<and> weight (set_weight c q) \<le> 1"
  by (simp add: weight_def set_weight_def)

definition check_mode_machine :: "u8 \<Rightarrow> u8 \<Rightarrow> bool" where
  "check_mode_machine m_sub m_pub \<longleftrightarrow> \<not> (m_sub \<noteq> 0 \<and> m_sub \<noteq> m_pub)"

section \<open>Forwarding\<close>

lemma length_js_bits: "length (js_bits j) = 16"
  by (simp add: js_bits_def)

lemma bit_js_combine: "bit (r_btn (js_combine j)) n \<longleftrightarrow> n < 16 \<and> js_bits j ! n"
  by (simp add: js_combine_def bit_horner_sum_bit_word_iff length_js_bits)

lemma js_extract_data:
  "jb_data (j_RB (js_extract k j)) = of_bool (bit (r_btn k) 0)" "jb_data (j_LB (js_extract k j)) = of_bool (bit (r_btn k) 1)"
  "jb_data (j_start (js_extract k j)) = of_bool (bit (r_btn k) 2)" "jb_data (j_back (js_extract k j)) = of_bool (bit (r_btn k) 3)"
  "jb_data (j_F1 (js_extract k j)) = of_bool (bit (r_btn k) 6)" "jb_data (j_F2 (js_extract k j)) = of_bool (bit (r_btn k) 7)"
  "jb_data (j_A (js_extract k j)) = of_bool (bit (r_btn k) 8)" "jb_data (j_B (js_extract k j)) = of_bool (bit (r_btn k) 9)"
  "jb_data (j_X (js_extract k j)) = of_bool (bit (r_btn k) 10)" "jb_data (j_Y (js_extract k j)) = of_bool (bit (r_btn k) 11)"
  "jb_data (j_up (js_extract k j)) = of_bool (bit (r_btn k) 12)" "jb_data (j_right (js_extract k j)) = of_bool (bit (r_btn k) 13)"
  "jb_data (j_down (js_extract k j)) = of_bool (bit (r_btn k) 14)" "jb_data (j_left (js_extract k j)) = of_bool (bit (r_btn k) 15)"
  "j_LT (js_extract k j) = axis_update (of_bool (bit (r_btn k) 5)) (j_LT j)"
  "j_RT (js_extract k j) = axis_update (of_bool (bit (r_btn k) 4)) (j_RT j)"
  by (simp_all add: js_extract_def jbutton_update_def Let_def)

lemma less16_cases: "n < 16 \<Longrightarrow> n \<in> {0, 1, 2, 3, 4, 5, 6, 7, 8, 9, 10, 11, 12, 13, 14, 15 :: nat}"
  unfolding insert_iff empty_iff by presburger

lemma forwarded_bit:
  assumes "n < 16" and "n \<noteq> 4" and "n \<noteq> 5"
  shows "bit (r_btn (js_combine (js_extract k j))) n = bit (r_btn k) n"
  using less16_cases [OF assms(1)] assms(2,3)
  by (elim insertE emptyE) (simp_all add: bit_js_combine js_bits_def js_extract_data)

text \<open>The triggers pass through the smoothing filter, in each of whose steps a held trigger gains 3 percent of what is missing.\<close>

lemma dead_zone_le1: "\<not> 1 < dead_zone"
  by code_simp

lemma filter_step:
  assumes "0 \<le> v" and "v \<le> 101 / 100"
  shows "97 / 100 * v + 299 / 10000 \<le> rnd32 (axis_value 1 v) \<and> rnd32 (axis_value 1 v) \<le> 97 / 100 * v + 301 / 10000"
proof -
  define a where "a = rnd64 (1 - smooth)"
  have s: "29999 / 1000000 \<le> smooth" "smooth \<le> 30001 / 1000000" by (simp_all add: smooth_eval)
  have a: "\<bar>a - (1 - smooth)\<bar> \<le> 1 / 9007199254740992"
    unfolding a_def using s by (intro rnd64_error) simp
  then have a2: "969998 / 1000000 \<le> a" "a \<le> 970002 / 1000000" using s by linarith+
  have va: "969998 / 1000000 * v \<le> v * a" "v * a \<le> 970002 / 1000000 * v"
    using mult_left_mono [OF a2(1) assms(1)] mult_left_mono [OF a2(2) assms(1)] by (simp_all add: mult.commute)
  have "\<bar>rnd64 (v * a) - v * a\<bar> \<le> 1 / 9007199254740992"
    using va assms by (intro rnd64_error) linarith
  moreover have "\<bar>rnd64 smooth - smooth\<bar> \<le> 1 / 9007199254740992"
    using s by (intro rnd64_error) simp
  ultimately have sum: "969998 / 1000000 * v + 29998 / 1000000 \<le> rnd64 (v * a) + rnd64 smooth"
      "rnd64 (v * a) + rnd64 smooth \<le> 970002 / 1000000 * v + 30002 / 1000000"
    using s va by linarith+
  define x where "x = rnd64 (rnd64 (v * a) + rnd64 smooth)"
  have x: "\<bar>x - (rnd64 (v * a) + rnd64 smooth)\<bar> \<le> 1 / 9007199254740992"
    unfolding x_def using sum assms by (intro rnd64_error) linarith
  have "\<bar>rnd32 x - x\<bar> \<le> 1 / 16777216"
    using x sum assms by (intro rnd32_error) linarith
  moreover have "axis_value 1 v = x"
    by (simp add: axis_value_def x_def a_def dead_zone_le1)
  ultimately show ?thesis using x sum assms by (simp only:) linarith
qed

lemma filter_bounds:
  "299 / 300 - 299 / 300 * (97 / 100) ^ n \<le> ax_data ((axis_update 1 ^^ n) axis_init) \<and>
   ax_data ((axis_update 1 ^^ n) axis_init) \<le> 301 / 300 - 301 / 300 * (97 / 100) ^ n"
proof (induction n)
  case (Suc n)
  define v where "v = ax_data ((axis_update 1 ^^ n) axis_init)"
  define p where "p = (97 / 100 :: real) ^ n"
  have p: "0 \<le> p" "p \<le> 1" by (simp_all add: p_def power_le_one)
  have v: "299 / 300 - 299 / 300 * p \<le> v" "v \<le> 301 / 300 - 301 / 300 * p"
    using Suc by (simp_all only: v_def p_def)
  have "0 \<le> v" "v \<le> 101 / 100" using v p by linarith+
  from filter_step [OF this] have "97 / 100 * v + 299 / 10000 \<le> rnd32 (axis_value 1 v)"
      "rnd32 (axis_value 1 v) \<le> 97 / 100 * v + 301 / 10000" by auto
  moreover have "ax_data ((axis_update 1 ^^ Suc n) axis_init) = rnd32 (axis_value 1 v)"
    by (simp add: axis_update_def v_def Let_def)
  ultimately show ?case using v unfolding power_Suc p_def [symmetric] by (simp only:) linarith
qed (simp add: axis_init_def)

lemma trigger_lag: "1 / 2 < ax_data ((axis_update 1 ^^ n) axis_init) \<longleftrightarrow> 23 \<le> n"
proof
  assume "23 \<le> n"
  then have "(97 / 100 :: real) ^ n \<le> (97 / 100) ^ 23" by (intro power_decreasing) simp_all
  also have "\<dots> < 4965 / 10000" by (simp add: power_divide)
  finally show "1 / 2 < ax_data ((axis_update 1 ^^ n) axis_init)" using filter_bounds [of n, THEN conjunct1] by linarith
next
  assume "1 / 2 < ax_data ((axis_update 1 ^^ n) axis_init)"
  then have "(97 / 100 :: real) ^ n < 503 / 1000" using filter_bounds [of n, THEN conjunct2] by linarith
  also have "(503 / 1000 :: real) < (97 / 100) ^ 22" by (simp add: power_divide)
  finally have "\<not> n \<le> 22" using power_decreasing [of n 22 "97 / 100 :: real"] by fastforce
  then show "23 \<le> n" by simp
qed

lemma held_trigger:
  assumes "bit (r_btn k) 5"
  shows "j_LT ((js_extract k ^^ n) j) = (axis_update 1 ^^ n) (j_LT j)"
  using assms by (induction n) (simp_all add: js_extract_data)

section \<open>What forwarding guarantees\<close>

text \<open>C37: A joystick that has extracted a remote and combines it again forwards every button bit except those of the
  two triggers as they are, whatever it has seen before. A held L2 trigger is forwarded only from the
  twenty-third message on, because it passes through the smoothing filter of the axes.\<close>

theorem joystick_forwarding:
  "(\<forall>n. n < 16 \<and> n \<noteq> 4 \<and> n \<noteq> 5 \<longrightarrow> bit (r_btn (js_combine (js_extract k (fold js_extract ks UnitreeJoystick_new)))) n = bit (r_btn k) n) \<and>
   (bit (r_btn k) 5 \<longrightarrow> (\<forall>n. bit (r_btn (js_combine ((js_extract k ^^ n) UnitreeJoystick_new))) 5 \<longleftrightarrow> 23 \<le> n))"
proof (intro conjI allI impI)
  fix n :: nat
  assume "bit (r_btn k) 5"
  then have "j_LT ((js_extract k ^^ n) UnitreeJoystick_new) = (axis_update 1 ^^ n) axis_init"
    using held_trigger [of k n UnitreeJoystick_new] by (simp add: UnitreeJoystick_new_def)
  then have "1 / 2 < ax_data (j_LT ((js_extract k ^^ n) UnitreeJoystick_new)) \<longleftrightarrow> 23 \<le> n"
    by (simp only: trigger_lag)
  then show "bit (r_btn (js_combine ((js_extract k ^^ n) UnitreeJoystick_new))) 5 \<longleftrightarrow> 23 \<le> n"
    by (simp add: bit_js_combine js_bits_def)
qed (simp add: forwarded_bit)

theorem joystick_forwarding_witness:
  "\<not> bit (r_btn (js_combine ((js_extract \<lparr>r_btn = 32, r_lx = 0, r_ly = 0, r_rx = 0, r_ry = 0\<rparr> ^^ 10) UnitreeJoystick_new))) 5"
proof -
  have "bit (r_btn \<lparr>r_btn = 32, r_lx = 0, r_ly = 0, r_rx = 0, r_ry = 0\<rparr>) 5" by simp
  with joystick_forwarding [of "\<lparr>r_btn = 32, r_lx = 0, r_ly = 0, r_rx = 0, r_ry = 0\<rparr>" "[]"] show ?thesis by auto
qed

end
