(* ===== verification/Go2Stand.thy ===== *)
theory Go2Stand
  imports Floats LowCmd
begin

text \<open>
  The stand-up example of the Go2 (\<open>example/go2/go2_stand_example.cpp\<close>): the low-level command that is
  sent every two milliseconds takes the twelve leg joints from where they are to a crouch, up, through a
  pause and down again. Float operations are rounded one by one; the padding of the message
  is a parameter, and what the motion switcher answers is an argument.
\<close>

section \<open>State\<close>

text \<open>The target positions, as written and as stored.\<close>

definition literals_1 :: "real list" where
  "literals_1 = [0, 136/100, - (265/100), 0, 136/100, - (265/100),
     - (2/10), 136/100, - (265/100), 2/10, 136/100, - (265/100)]"

definition targetPos_1 :: "real list" where
  "targetPos_1 = map rnd32 literals_1"

definition literals_2 :: "real list" where
  "literals_2 = [0, 67/100, - (13/10), 0, 67/100, - (13/10), 0, 67/100, - (13/10), 0, 67/100, - (13/10)]"

definition targetPos_2 :: "real list" where
  "targetPos_2 = map rnd32 literals_2"

definition literals_3 :: "real list" where
  "literals_3 = [- (35/100), 136/100, - (265/100), 35/100, 136/100, - (265/100),
     - (5/10), 136/100, - (265/100), 5/10, 136/100, - (265/100)]"

definition targetPos_3 :: "real list" where
  "targetPos_3 = map rnd32 literals_3"

text \<open>The array \<open>_startPos\<close> is uninitialised, here empty, until the first active call fills it.\<close>

record stand =
  motiontime :: int
  startPos :: "real list"
  percent_1 :: real
  percent_2 :: real
  percent_3 :: real
  percent_4 :: real
  firstRun :: bool
  done_flag :: bool
  low_cmd :: LowCmd_dds

text \<open>The constants and the initial command are repeated in this example from the robot interface.\<close>

definition stand_PosStopF :: real where
  "stand_PosStopF = rnd32 2146000000"

definition stand_VelStopF :: real where
  "stand_VelStopF = rnd32 16000"

definition stand_InitLowCmd :: "LowCmd_dds \<Rightarrow> LowCmd_dds" where
  "stand_InitLowCmd c = c\<lparr>lc_head := [0xFE, 0xEF], lc_level_flag := 0xFF, lc_gpio := 0,
     lc_motor_cmd := map (\<lambda>m. m\<lparr>mc_mode := 1, mc_q := rnd32 stand_PosStopF, mc_kp := 0, mc_dq := rnd32 stand_VelStopF,
       mc_kd := 0, mc_tau := 0\<rparr>) (lc_motor_cmd c)\<rparr>"

definition stand_init :: stand where
  "stand_init = \<lparr>motiontime = 0, startPos = [], percent_1 = 0, percent_2 = 0, percent_3 = 0, percent_4 = 0,
     firstRun = True, done_flag = False, low_cmd = stand_InitLowCmd LowCmd_default\<rparr>"

section \<open>Releasing the motion service\<close>

definition queryServiceName :: "string \<Rightarrow> string \<Rightarrow> string" where
  "queryServiceName form name =
     (if form = ''0'' then
        (if name = ''normal'' then ''sport_mode''
         else if name = ''ai'' then ''ai_sport''
         else if name = ''advanced'' then ''advanced_sport'' else '''')
      else
        (if name = ''ai-w'' then ''wheeled_sport(go2W)''
         else if name = ''normal-w'' then ''wheeled_sport(b2W)'' else ''''))"

text \<open>The answer of the motion switcher: the return code, the form and the name. The code is only printed.\<close>

definition queryMotionStatus :: "int \<times> string \<times> string \<Rightarrow> int" where
  "queryMotionStatus answer = (case answer of (ret, robotForm, motionName) \<Rightarrow> if motionName = [] then 0 else 1)"

text \<open>The loop of \<open>Init\<close> over the answers to come: the number of releases it asks for; \<open>None\<close> while it goes on.\<close>

fun release_loop :: "(int \<times> string \<times> string) list \<Rightarrow> nat option" where
  "release_loop [] = None"
| "release_loop (a # as) = (if queryMotionStatus a \<noteq> 0 then map_option Suc (release_loop as) else Some 0)"

section \<open>The recurrent call\<close>

text \<open>\<open>p += (float)1 / d; p = p > 1 ? 1 : p\<close>\<close>

definition advance :: "real \<Rightarrow> real \<Rightarrow> real" where
  "advance d p = (let p = rnd32 (p + rnd32 (1 / d)) in if p > 1 then 1 else p)"

text \<open>\<open>(1 - p) * a + p * b\<close>\<close>

definition lerp :: "real \<Rightarrow> real \<Rightarrow> real \<Rightarrow> real" where
  "lerp p a b = rnd32 (rnd32 (rnd32 (1 - p) * a) + rnd32 (p * b))"

definition drive_motors :: "real list \<Rightarrow> MotorCmd_dds list \<Rightarrow> MotorCmd_dds list" where
  "drive_motors q ms = map (\<lambda>j. if j < 12 then
       (ms ! j)\<lparr>mc_q := q ! j, mc_dq := 0, mc_kp := 60, mc_kd := 5, mc_tau := 0\<rparr> else ms ! j) [0..<length ms]"

definition drive :: "real list \<Rightarrow> stand \<Rightarrow> stand" where
  "drive q s = s\<lparr>low_cmd := (low_cmd s)\<lparr>lc_motor_cmd := drive_motors q (lc_motor_cmd (low_cmd s))\<rparr>\<rparr>"

definition phase_1 :: "stand \<Rightarrow> stand" where
  "phase_1 s =
     (let s = s\<lparr>percent_1 := advance 500 (percent_1 s)\<rparr>
      in if percent_1 s < 1 then drive (map2 (lerp (percent_1 s)) (startPos s) targetPos_1) s else s)"

definition phase_2 :: "stand \<Rightarrow> stand" where
  "phase_2 s =
     (if percent_1 s = 1 \<and> percent_2 s < 1 then
        let s = s\<lparr>percent_2 := advance 500 (percent_2 s)\<rparr>
        in drive (map2 (lerp (percent_2 s)) targetPos_1 targetPos_2) s
      else s)"

definition phase_3 :: "stand \<Rightarrow> stand" where
  "phase_3 s =
     (if percent_1 s = 1 \<and> percent_2 s = 1 \<and> percent_3 s < 1 then
        let s = s\<lparr>percent_3 := advance 1000 (percent_3 s)\<rparr> in drive targetPos_2 s
      else s)"

definition phase_4 :: "stand \<Rightarrow> stand" where
  "phase_4 s =
     (if percent_1 s = 1 \<and> percent_2 s = 1 \<and> percent_3 s = 1 \<and> percent_4 s \<le> 1 then
        let s = s\<lparr>percent_4 := advance 900 (percent_4 s)\<rparr>
        in drive (map2 (lerp (percent_4 s)) targetPos_2 targetPos_3) s
      else s)"

text \<open>
  One call, with the joint positions of the last state message: the new state and the command it
  writes, if any. \<open>None\<close> is undefined behaviour: the counter overflows, or the checksum reads
  outside of the message.
\<close>

definition LowCmdWrite :: "u8 list \<Rightarrow> real list \<Rightarrow> stand \<Rightarrow> (stand \<times> LowCmd_dds option) option" where
  "LowCmdWrite pad q s =
     (let s = (if percent_4 s = 1 \<and> \<not> done_flag s then s\<lparr>done_flag := True\<rparr> else s)
      in if motiontime s \<ge> 2147483647 then None
      else
        let s = s\<lparr>motiontime := motiontime s + 1\<rparr>
        in if motiontime s \<ge> 500 then
             let s = (if firstRun s then s\<lparr>startPos := take 12 q, firstRun := False\<rparr> else s);
                 s = phase_4 (phase_3 (phase_2 (phase_1 s)))
             in case LowCmd_crc pad (low_cmd s) of
                  None \<Rightarrow> None
                | Some crc \<Rightarrow> let s = s\<lparr>low_cmd := (low_cmd s)\<lparr>lc_crc := crc\<rparr>\<rparr> in Some (s, Some (low_cmd s))
           else Some (s, None))"

text \<open>The calls for a sequence of joint positions, with the commands written so far.\<close>

fun calls :: "u8 list \<Rightarrow> real list list \<Rightarrow> stand \<times> LowCmd_dds list \<Rightarrow> (stand \<times> LowCmd_dds list) option" where
  "calls pad [] sc = Some sc"
| "calls pad (q # qs) (s, cs) = (case LowCmdWrite pad q s of
     None \<Rightarrow> None
   | Some (s, out) \<Rightarrow> calls pad qs (s, cs @ (case out of None \<Rightarrow> [] | Some c \<Rightarrow> [c])))"

section \<open>Interpolation\<close>

lemma advance_bounds:
  assumes "100 \<le> d" "d \<le> 1000" "0 \<le> p" "p \<le> 1"
  shows "p \<le> advance d p" "advance d p \<le> 1" "advance d p \<le> p + 1 / d + 1 / 8000000"
    and "advance d p = 1 \<or> p + 1 / d - 1 / 8000000 \<le> advance d p"
proof -
  have d: "1 / 1000 \<le> 1 / d" "1 / d \<le> 1 / 100" using assms(1,2) by (simp_all add: field_simps)
  let ?i = "rnd32 (1 / d)"
  have i: "\<bar>?i - 1 / d\<bar> \<le> 1 / 16777216" by (rule rnd32_error) (use d in linarith)
  have r: "\<bar>rnd32 (p + ?i) - (p + ?i)\<bar> \<le> 1 / 16777216" by (rule rnd32_error) (use d i assms in linarith)
  have "advance d p = min 1 (rnd32 (p + ?i))" by (auto simp: advance_def Let_def)
  with r i d(1) assms(3,4) show "p \<le> advance d p" "advance d p \<le> 1" "advance d p \<le> p + 1 / d + 1 / 8000000"
    "advance d p = 1 \<or> p + 1 / d - 1 / 8000000 \<le> advance d p"
    by linarith+
qed

lemma lerp_error:
  assumes p: "0 \<le> p" "p \<le> 1" and ab: "\<bar>a\<bar> \<le> 4" "\<bar>b\<bar> \<le> 4"
  shows "\<bar>lerp p a b - (a + p * (b - a))\<bar> \<le> 1 / 1000000"
proof -
  define u where "u = rnd32 (1 - p)"
  define v where "v = (1 - p) * a"
  define w where "w = p * b"
  define z where "z = u * a"
  define x where "x = rnd32 z"
  define y where "y = rnd32 w"
  have u: "\<bar>u - (1 - p)\<bar> \<le> 1 / 16777216" unfolding u_def by (rule rnd32_error) (use p in linarith)
  have "\<bar>(u - (1 - p)) * a\<bar> \<le> 1 / 16777216 * 4" unfolding abs_mult by (intro mult_mono u ab) simp_all
  then have ua: "\<bar>z - v\<bar> \<le> 4 / 16777216" by (simp add: z_def v_def left_diff_distrib)
  have "\<bar>v\<bar> \<le> (1 - p) * 4" unfolding v_def abs_mult using p ab by (intro mult_mono) simp_all
  then have v: "\<bar>v\<bar> \<le> 4 - 4 * p" by simp
  have "\<bar>w\<bar> \<le> p * 4" unfolding w_def abs_mult using p ab by (intro mult_mono) simp_all
  then have w: "\<bar>w\<bar> \<le> 4 * p" by simp
  have "\<bar>z\<bar> < 8" using ua v p by linarith
  then have x: "\<bar>x - z\<bar> \<le> 1 / 4194304" unfolding x_def by (rule rnd32_error8)
  have "\<bar>w\<bar> < 8" using w p by linarith
  then have y: "\<bar>y - w\<bar> \<le> 1 / 4194304" unfolding y_def by (rule rnd32_error8)
  have "\<bar>x + y\<bar> < 8" using v w ua x y by linarith
  then have "\<bar>rnd32 (x + y) - (x + y)\<bar> \<le> 1 / 4194304" by (rule rnd32_error8)
  moreover have "a + p * (b - a) = v + w" by (simp add: v_def w_def algebra_simps)
  moreover have "lerp p a b = rnd32 (x + y)" by (simp add: lerp_def x_def y_def z_def u_def w_def)
  ultimately show ?thesis using x y ua by linarith
qed

lemma lerp_1: "rep32 b \<Longrightarrow> lerp 1 a b = b"
  by (simp add: lerp_def f32.rnd_rep)

lemma below_12: "j < 12 \<Longrightarrow> j \<in> {0, 1, 2, 3, 4, 5, 6, 7, 8, 9, 10, 11 :: nat}"
  unfolding insert_iff empty_iff by presburger

lemmas literals = literals_1_def literals_2_def literals_3_def

lemma length_targets [simp]: "length targetPos_1 = 12" "length targetPos_2 = 12" "length targetPos_3 = 12"
  by (simp_all add: targetPos_1_def targetPos_2_def targetPos_3_def literals)

lemma literal_bounds:
  assumes "j < 12"
  shows "\<bar>literals_1 ! j\<bar> \<le> 265 / 100" and "\<bar>literals_2 ! j\<bar> \<le> 265 / 100" and "\<bar>literals_3 ! j\<bar> \<le> 265 / 100"
    and "\<bar>literals_2 ! j - literals_1 ! j\<bar> \<le> 135 / 100" and "\<bar>literals_3 ! j - literals_2 ! j\<bar> \<le> 135 / 100"
  using below_12 [OF assms] by (auto simp: literals)

lemma rounded_nth: "length xs = 12 \<Longrightarrow> j < 12 \<Longrightarrow> \<bar>xs ! j\<bar> < 8 \<Longrightarrow> \<bar>map rnd32 xs ! j - xs ! j\<bar> \<le> 1 / 4194304"
  using rnd32_error8 [of "xs ! j"] by simp

lemma target_bounds:
  assumes "j < 12"
  shows "\<bar>targetPos_1 ! j\<bar> \<le> 266 / 100" and "\<bar>targetPos_2 ! j\<bar> \<le> 266 / 100" and "\<bar>targetPos_3 ! j\<bar> \<le> 266 / 100"
    and "\<bar>targetPos_2 ! j - targetPos_1 ! j\<bar> \<le> 136 / 100" and "\<bar>targetPos_3 ! j - targetPos_2 ! j\<bar> \<le> 136 / 100"
proof -
  note l = literal_bounds [OF assms]
  have r1: "\<bar>targetPos_1 ! j - literals_1 ! j\<bar> \<le> 1 / 4194304"
    unfolding targetPos_1_def by (rule rounded_nth) (use l assms in \<open>simp_all add: literals_1_def\<close>)
  have r2: "\<bar>targetPos_2 ! j - literals_2 ! j\<bar> \<le> 1 / 4194304"
    unfolding targetPos_2_def by (rule rounded_nth) (use l assms in \<open>simp_all add: literals_2_def\<close>)
  have r3: "\<bar>targetPos_3 ! j - literals_3 ! j\<bar> \<le> 1 / 4194304"
    unfolding targetPos_3_def by (rule rounded_nth) (use l assms in \<open>simp_all add: literals_3_def\<close>)
  show "\<bar>targetPos_1 ! j\<bar> \<le> 266 / 100" using l(1) r1 by linarith
  show "\<bar>targetPos_2 ! j\<bar> \<le> 266 / 100" using l(2) r2 by linarith
  show "\<bar>targetPos_3 ! j\<bar> \<le> 266 / 100" using l(3) r3 by linarith
  show "\<bar>targetPos_2 ! j - targetPos_1 ! j\<bar> \<le> 136 / 100" using l(4) r1 r2 by linarith
  show "\<bar>targetPos_3 ! j - targetPos_2 ! j\<bar> \<le> 136 / 100" using l(5) r2 r3 by linarith
qed

lemma rep32_target_3: "j < 12 \<Longrightarrow> rep32 (targetPos_3 ! j)"
  unfolding targetPos_3_def by (subst nth_map) (simp_all add: literals_3_def f32.rep_rnd)

section \<open>What a call does to the percentages and the pose\<close>

type_synonym percents = "real \<times> real \<times> real \<times> real"

definition percents_of :: "stand \<Rightarrow> percents" where
  "percents_of s = (percent_1 s, percent_2 s, percent_3 s, percent_4 s)"

fun next_percents :: "percents \<Rightarrow> percents" where
  "next_percents (p1, p2, p3, p4) =
     (let p1 = advance 500 p1; p2 = (if p1 = 1 \<and> p2 < 1 then advance 500 p2 else p2);
          p3 = (if p1 = 1 \<and> p2 = 1 \<and> p3 < 1 then advance 1000 p3 else p3);
          p4 = (if p1 = 1 \<and> p2 = 1 \<and> p3 = 1 \<and> p4 \<le> 1 then advance 900 p4 else p4)
      in (p1, p2, p3, p4))"

text \<open>The positions that go with the percentages, and the exact path that they follow.\<close>

fun pose :: "real list \<Rightarrow> percents \<Rightarrow> nat \<Rightarrow> real" where
  "pose start (p1, p2, p3, p4) j =
     (if p1 < 1 then lerp p1 (start ! j) (targetPos_1 ! j)
      else if p2 < 1 then lerp p2 (targetPos_1 ! j) (targetPos_2 ! j)
      else if p3 < 1 then targetPos_2 ! j else lerp p4 (targetPos_2 ! j) (targetPos_3 ! j))"

fun path :: "real list \<Rightarrow> percents \<Rightarrow> nat \<Rightarrow> real" where
  "path start (p1, p2, p3, p4) j =
     start ! j + p1 * (targetPos_1 ! j - start ! j) + p2 * (targetPos_2 ! j - targetPos_1 ! j) +
     p4 * (targetPos_3 ! j - targetPos_2 ! j)"

text \<open>A phase starts when the one before is complete.\<close>

fun in_order :: "percents \<Rightarrow> bool" where
  "in_order (p1, p2, p3, p4) \<longleftrightarrow> (0 \<le> p1 \<and> p1 \<le> 1) \<and> (0 \<le> p2 \<and> p2 \<le> 1) \<and> (0 \<le> p3 \<and> p3 \<le> 1) \<and> (0 \<le> p4 \<and> p4 \<le> 1) \<and>
     (p1 < 1 \<longrightarrow> p2 = 0) \<and> (p2 < 1 \<longrightarrow> p3 = 0) \<and> (p3 < 1 \<longrightarrow> p4 = 0)"

lemma advance_range: "100 \<le> d \<Longrightarrow> d \<le> 1000 \<Longrightarrow> 0 \<le> p \<Longrightarrow> p \<le> 1 \<Longrightarrow> 0 \<le> advance d p \<and> advance d p \<le> 1"
  using advance_bounds(1,2) [of d p] by simp

lemma advance_1: "100 \<le> d \<Longrightarrow> d \<le> 1000 \<Longrightarrow> advance d 1 = 1"
  using advance_bounds(1,2) [of d 1] by simp

lemma next_in_order: "in_order ps \<Longrightarrow> in_order (next_percents ps)"
proof (induction ps rule: next_percents.induct)
  case (1 p1 p2 p3 p4)
  then show ?case
    using advance_range [of 500 p1] advance_range [of 500 p2] advance_range [of 1000 p3] advance_range [of 900 p4]
    by (cases "p1 < 1"; cases "p2 < 1"; cases "p3 < 1") (auto simp: Let_def advance_1)
qed

lemma pose_path:
  assumes "in_order ps" and "j < 12" and "\<bar>start ! j\<bar> \<le> 4"
  shows "\<bar>pose start ps j - path start ps j\<bar> \<le> 1 / 1000000"
proof -
  obtain p1 p2 p3 p4 where ps: "ps = (p1, p2, p3, p4)" by (cases ps)
  note t = target_bounds(1,2,3) [OF assms(2)]
  have e1: "\<bar>lerp p1 (start ! j) (targetPos_1 ! j) - (start ! j + p1 * (targetPos_1 ! j - start ! j))\<bar> \<le> 1 / 1000000"
    by (rule lerp_error) (use assms t in \<open>auto simp: ps\<close>)
  have e2: "\<bar>lerp p2 (targetPos_1 ! j) (targetPos_2 ! j) - (targetPos_1 ! j + p2 * (targetPos_2 ! j - targetPos_1 ! j))\<bar> \<le> 1 / 1000000"
    by (rule lerp_error) (use assms t in \<open>auto simp: ps\<close>)
  have e4: "\<bar>lerp p4 (targetPos_2 ! j) (targetPos_3 ! j) - (targetPos_2 ! j + p4 * (targetPos_3 ! j - targetPos_2 ! j))\<bar> \<le> 1 / 1000000"
    by (rule lerp_error) (use assms t in \<open>auto simp: ps\<close>)
  consider "p1 < 1" "p2 = 0" "p4 = 0" | "p1 = 1" "p2 < 1" "p4 = 0" | "p1 = 1" "p2 = 1" "p3 < 1" "p4 = 0"
    | "p1 = 1" "p2 = 1" "p3 = 1" using assms(1) by (cases "p1 = 1"; cases "p2 = 1"; cases "p3 = 1") (simp_all add: ps)
  then show ?thesis
  proof cases
    case 1
    then show ?thesis using e1 by (simp add: ps)
  next
    case 2
    then show ?thesis using e2 by (simp add: ps)
  next
    case 3
    then show ?thesis by (simp add: ps)
  next
    case 4
    then show ?thesis using e4 by (simp add: ps)
  qed
qed

lemma abs_mult_le: "\<bar>d\<bar> \<le> a \<Longrightarrow> \<bar>x\<bar> \<le> b \<Longrightarrow> \<bar>d * x\<bar> \<le> a * b" for d x a b :: real
  unfolding abs_mult by (rule mult_mono) auto

lemma path_step:
  assumes "in_order ps" and "j < 12" and "\<bar>start ! j\<bar> \<le> 4"
  shows "\<bar>path start (next_percents ps) j - path start ps j\<bar> \<le> 19 / 1000"
proof -
  obtain p1 p2 p3 p4 where ps: "ps = (p1, p2, p3, p4)" by (cases ps)
  obtain q1 q2 q3 q4 where qs: "next_percents ps = (q1, q2, q3, q4)" by (cases "next_percents ps")
  note t = target_bounds [OF assms(2)]
  have "\<bar>q1 - p1\<bar> \<le> 1 / 499" "\<bar>q2 - p2\<bar> \<le> 1 / 499" "\<bar>q4 - p4\<bar> \<le> 1 / 499"
    using assms(1) qs advance_bounds [of 500 p1] advance_bounds [of 500 p2] advance_bounds [of 900 p4]
    by (auto simp: ps Let_def split: if_splits)
  note dq = this
  have d1: "\<bar>targetPos_1 ! j - start ! j\<bar> \<le> 666 / 100" using t(1) assms(3) by linarith
  note b = abs_mult_le [OF dq(1) d1] abs_mult_le [OF dq(2) t(4)] abs_mult_le [OF dq(3) t(5)]
  have "path start (next_percents ps) j - path start ps j = (q1 - p1) * (targetPos_1 ! j - start ! j) +
    (q2 - p2) * (targetPos_2 ! j - targetPos_1 ! j) + (q4 - p4) * (targetPos_3 ! j - targetPos_2 ! j)"
    unfolding qs unfolding ps by (simp add: algebra_simps)
  then show ?thesis using b by linarith
qed

section \<open>The phases follow the path\<close>

lemma drive_drive [simp]: "drive q (drive q' s) = drive q s"
  by (simp add: drive_def drive_motors_def)

lemma drive_fields [simp]:
  "percent_1 (drive q s) = percent_1 s" "percent_2 (drive q s) = percent_2 s" "percent_3 (drive q s) = percent_3 s"
  "percent_4 (drive q s) = percent_4 s" "startPos (drive q s) = startPos s"
  "(drive q s)\<lparr>percent_2 := p\<rparr> = drive q (s\<lparr>percent_2 := p\<rparr>)" "(drive q s)\<lparr>percent_3 := p\<rparr> = drive q (s\<lparr>percent_3 := p\<rparr>)"
  "(drive q s)\<lparr>percent_4 := p\<rparr> = drive q (s\<lparr>percent_4 := p\<rparr>)"
  by (simp_all add: drive_def)

lemma map2_nth12: "length a = 12 \<Longrightarrow> length b = 12 \<Longrightarrow> map2 f a b = map (\<lambda>j. f (a ! j) (b ! j)) [0..<12]"
  by (rule nth_equalityI) simp_all

lemma targetPos_2_nth: "targetPos_2 = map (\<lambda>j. targetPos_2 ! j) [0..<12]"
  by (rule nth_equalityI) simp_all

fun with_percents :: "percents \<Rightarrow> stand \<Rightarrow> stand" where
  "with_percents (p1, p2, p3, p4) s = s\<lparr>percent_1 := p1, percent_2 := p2, percent_3 := p3, percent_4 := p4\<rparr>"

lemma pose_eq: "pose start (p1, p2, p3, p4) = (\<lambda>j. if p1 < 1 then lerp p1 (start ! j) (targetPos_1 ! j)
      else if p2 < 1 then lerp p2 (targetPos_1 ! j) (targetPos_2 ! j)
      else if p3 < 1 then targetPos_2 ! j else lerp p4 (targetPos_2 ! j) (targetPos_3 ! j))"
  by (rule ext) simp

lemma phases_pose:
  assumes "in_order (percents_of s)" and "length (startPos s) = 12"
  defines "ps \<equiv> next_percents (percents_of s)"
  shows "phase_4 (phase_3 (phase_2 (phase_1 s))) = drive (map (pose (startPos s) ps) [0..<12]) (with_percents ps s)"
proof -
  obtain m st p1 p2 p3 p4 f d c where s: "s = \<lparr>motiontime = m, startPos = st, percent_1 = p1, percent_2 = p2,
    percent_3 = p3, percent_4 = p4, firstRun = f, done_flag = d, low_cmd = c\<rparr>" by (cases s)
  have inv: "in_order (p1, p2, p3, p4)" using assms(1) by (simp add: percents_of_def s)
  obtain q1 q2 q3 q4 where q: "ps = (q1, q2, q3, q4)" by (cases ps)
  have nx: "next_percents (p1, p2, p3, p4) = (q1, q2, q3, q4)" using q by (simp add: ps_def percents_of_def s)
  have ord: "in_order (q1, q2, q3, q4)" using next_in_order [OF inv] nx by simp
  have len: "length st = 12" using assms(2) by (simp add: s)
  note simps = phase_1_def phase_2_def phase_3_def phase_4_def Let_def map2_nth12 pose_eq s q len
  consider "q1 < 1" | "q1 = 1" "q2 < 1" | "q1 = 1" "q2 = 1" "q3 < 1" | "q1 = 1" "q2 = 1" "q3 = 1"
    using ord by (cases "q1 = 1"; cases "q2 = 1"; cases "q3 = 1") simp_all
  then show ?thesis
  proof cases
    case 1
    then have "p2 = 0" "p3 = 0" "p4 = 0" "q1 = advance 500 p1" "q2 = 0" "q3 = 0" "q4 = 0"
      using nx ord inv by (auto simp: Let_def)
    then show ?thesis using 1 by (simp add: simps)
  next
    case 2
    then show ?thesis using nx ord inv by (auto simp: simps split: if_splits)
  next
    case 3
    then show ?thesis using nx ord inv by (auto simp: simps targetPos_2_nth [symmetric] split: if_splits)
  next
    case 4
    then show ?thesis using nx ord inv by (auto simp: simps split: if_splits)
  qed
qed

section \<open>Progress\<close>

text \<open>A lower bound of the percentages after \<open>k\<close> active calls.\<close>

fun progress :: "nat \<Rightarrow> percents \<Rightarrow> bool" where
  "progress k (p1, p2, p3, p4) \<longleftrightarrow>
     (p1 = 1 \<or> real k * (1 / 500 - 1 / 8000000) \<le> p1) \<and>
     (p1 = 1 \<longrightarrow> p2 = 1 \<or> (real k - 500) * (1 / 500 - 1 / 8000000) \<le> p2) \<and>
     (p2 = 1 \<longrightarrow> p3 = 1 \<or> (real k - 1000) * (1 / 1000 - 1 / 8000000) \<le> p3) \<and>
     (p3 = 1 \<longrightarrow> p4 = 1 \<or> (real k - 2000) * (1 / 900 - 1 / 8000000) \<le> p4)"

lemma early:
  "real k * (1 / 500 - 1 / 8000000) < 1 \<Longrightarrow> real k \<le> 500"
  "(real k - 500) * (1 / 500 - 1 / 8000000) < 1 \<Longrightarrow> real k \<le> 1000"
  "(real k - 1000) * (1 / 1000 - 1 / 8000000) < 1 \<Longrightarrow> real k \<le> 2000"
proof -
  have *: "real k \<le> real n" if "real k < real n + 1" for n
  proof -
    have "real k < real (Suc n)" using that by simp
    then show ?thesis by (simp only: of_nat_less_iff of_nat_le_iff less_Suc_eq_le)
  qed
  show "real k * (1 / 500 - 1 / 8000000) < 1 \<Longrightarrow> real k \<le> 500" using * [of 500] by simp
  show "(real k - 500) * (1 / 500 - 1 / 8000000) < 1 \<Longrightarrow> real k \<le> 1000" using * [of 1000] by simp
  show "(real k - 1000) * (1 / 1000 - 1 / 8000000) < 1 \<Longrightarrow> real k \<le> 2000" using * [of 2000] by simp
qed

lemma advance_progress:
  assumes "100 \<le> d" "d \<le> 1000" "0 \<le> p" "p \<le> 1" and "p = 1 \<or> (x - 1) * (1 / d - 1 / 8000000) \<le> p"
  shows "advance d p = 1 \<or> x * (1 / d - 1 / 8000000) \<le> advance d p"
proof -
  have "x * c = (x - 1) * c + c" for c by (simp add: left_diff_distrib)
  from this [of "1 / d - 1 / 8000000"] show ?thesis using assms(5) advance_bounds(4) [OF assms(1-4)] advance_1 [OF assms(1,2)] by auto
qed

lemma progress_next:
  assumes "progress k ps" and "in_order ps"
  shows "progress (Suc k) (next_percents ps)"
proof -
  obtain p1 p2 p3 p4 where ps: "ps = (p1, p2, p3, p4)" by (cases ps)
  obtain q1 q2 q3 q4 where qs: "next_percents ps = (q1, q2, q3, q4)" by (cases "next_percents ps")
  have r: "0 \<le> p1" "p1 \<le> 1" "0 \<le> p2" "p2 \<le> 1" "0 \<le> p3" "p3 \<le> 1" "0 \<le> p4" "p4 \<le> 1"
    and o: "p1 < 1 \<longrightarrow> p2 = 0" "p2 < 1 \<longrightarrow> p3 = 0" "p3 < 1 \<longrightarrow> p4 = 0" using assms(2) by (simp_all add: ps)
  have o': "q1 < 1 \<longrightarrow> q2 = 0" "q2 < 1 \<longrightarrow> q3 = 0" "q3 < 1 \<longrightarrow> q4 = 0" "q1 \<le> 1" "q2 \<le> 1" "q3 \<le> 1"
    using next_in_order [OF assms(2)] by (simp_all add: qs)
  have q: "q1 = advance 500 p1" "q2 = (if q1 = 1 \<and> p2 < 1 then advance 500 p2 else p2)"
    "q3 = (if q1 = 1 \<and> q2 = 1 \<and> p3 < 1 then advance 1000 p3 else p3)"
    "q4 = (if q1 = 1 \<and> q2 = 1 \<and> q3 = 1 \<and> p4 \<le> 1 then advance 900 p4 else p4)"
    using qs by (auto simp: ps Let_def)
  have g: "p1 = 1 \<or> real k * (1 / 500 - 1 / 8000000) \<le> p1"
    "p1 = 1 \<longrightarrow> p2 = 1 \<or> (real k - 500) * (1 / 500 - 1 / 8000000) \<le> p2"
    "p2 = 1 \<longrightarrow> p3 = 1 \<or> (real k - 1000) * (1 / 1000 - 1 / 8000000) \<le> p3"
    "p3 = 1 \<longrightarrow> p4 = 1 \<or> (real k - 2000) * (1 / 900 - 1 / 8000000) \<le> p4" using assms(1) by (simp_all add: ps)
  have k1: "p1 = 1 \<or> real k \<le> 500" using g(1) r early(1) by fastforce
  then have k2: "p2 = 1 \<or> real k \<le> 1000" using g(2) r early(2) [of k] by fastforce
  then have k3: "p3 = 1 \<or> real k \<le> 2000" using g(3) r early(3) [of k] by fastforce
  have 1: "q1 = 1 \<or> real (Suc k) * (1 / 500 - 1 / 8000000) \<le> q1"
    unfolding q(1) by (rule advance_progress) (use r g(1) in simp_all)
  have 2: "q2 = 1 \<or> (real (Suc k) - 500) * (1 / 500 - 1 / 8000000) \<le> q2" if "q1 = 1"
  proof (cases "p2 < 1")
    case True
    have "(real k - 500) * (1 / 500 - 1 / 8000000) \<le> p2" using k1 g(2) True r(3) by auto
    then show ?thesis using advance_progress [of 500 p2 "real (Suc k) - 500"] r q(2) that True by simp
  qed (use r q in auto)
  have 3: "q3 = 1 \<or> (real (Suc k) - 1000) * (1 / 1000 - 1 / 8000000) \<le> q3" if "q2 = 1"
  proof (cases "p3 < 1")
    case True
    have "(real k - 1000) * (1 / 1000 - 1 / 8000000) \<le> p3" using k2 g(3) True r(5) by auto
    then show ?thesis using advance_progress [of 1000 p3 "real (Suc k) - 1000"] r q(3) o' that True by simp
  qed (use r q in auto)
  have 4: "q4 = 1 \<or> (real (Suc k) - 2000) * (1 / 900 - 1 / 8000000) \<le> q4" if "q3 = 1"
  proof (cases "p4 < 1")
    case True
    have "(real k - 2000) * (1 / 900 - 1 / 8000000) \<le> p4" using k3 g(4) True r(7) by auto
    then show ?thesis using advance_progress [of 900 p4 "real (Suc k) - 2000"] r q(4) o' that True by simp
  qed (use r q advance_1 [of 900] in auto)
  from 1 2 3 4 show ?thesis by (simp add: qs)
qed

lemma progress_done: "progress k (p1, p2, p3, p4) \<Longrightarrow> in_order (p1, p2, p3, p4) \<Longrightarrow> 2901 \<le> k \<Longrightarrow> p4 = 1 \<and> p3 = 1 \<and> p2 = 1 \<and> p1 = 1"
  by auto

section \<open>Calls\<close>

definition joint_ok :: "real \<Rightarrow> MotorCmd_dds \<Rightarrow> bool" where
  "joint_ok q m \<longleftrightarrow> mc_q m = q \<and> mc_dq m = 0 \<and> mc_kp m = 60 \<and> mc_kd m = 5 \<and> mc_tau m = 0"

lemma wf_drive: "wf_LowCmd (low_cmd s) \<Longrightarrow> wf_LowCmd (low_cmd (drive q s))"
  by (simp add: wf_LowCmd_def drive_def drive_motors_def list_all_length wf_MotorCmd_def)

lemma joint_drive: "wf_LowCmd (low_cmd s) \<Longrightarrow> j < 12 \<Longrightarrow> joint_ok (q ! j) (lc_motor_cmd (low_cmd (drive q s)) ! j)"
  by (simp add: wf_LowCmd_def drive_def drive_motors_def joint_ok_def)

lemma with_percents_fields [simp]:
  "percents_of (with_percents ps s) = ps" "low_cmd (with_percents ps s) = low_cmd s" "startPos (with_percents ps s) = startPos s"
  "motiontime (with_percents ps s) = motiontime s" "firstRun (with_percents ps s) = firstRun s" "done_flag (with_percents ps s) = done_flag s"
  by (cases ps; simp add: percents_of_def)+

lemma percents_of_drive [simp]: "percents_of (drive q s) = percents_of s" "motiontime (drive q s) = motiontime s"
  "firstRun (drive q s) = firstRun s" "done_flag (drive q s) = done_flag s"
  by (simp_all add: percents_of_def drive_def)

lemma percents_of_cmd [simp]: "percents_of (s\<lparr>low_cmd := c\<rparr>) = percents_of s"
  by (simp add: percents_of_def)

lemma active_call:
  assumes "499 \<le> motiontime s" and "motiontime s < 2147483647" and "in_order (percents_of s)" and "wf_LowCmd (low_cmd s)"
    and "3 \<le> length pad" and "start = (if firstRun s then take 12 q else startPos s)" and "length start = 12"
  obtains s' where "LowCmdWrite pad q s = Some (s', Some (low_cmd s'))" and "percents_of s' = next_percents (percents_of s)"
    and "startPos s' = start" and "\<not> firstRun s'" and "motiontime s' = motiontime s + 1" and "wf_LowCmd (low_cmd s')"
    and "LowCmd_crc pad (low_cmd s') = Some (lc_crc (low_cmd s'))" and "done_flag s' \<longleftrightarrow> done_flag s \<or> percent_4 s = 1"
    and "\<And>j. j < 12 \<Longrightarrow> joint_ok (pose start (next_percents (percents_of s)) j) (lc_motor_cmd (low_cmd s') ! j)"
proof -
  define s1 where "s1 = s\<lparr>done_flag := done_flag s \<or> percent_4 s = 1, motiontime := motiontime s + 1, startPos := start, firstRun := False\<rparr>"
  let ?ps = "next_percents (percents_of s)"
  define s2 where "s2 = drive (map (pose start ?ps) [0..<12]) (with_percents ?ps s1)"
  have ps1: "percents_of s1 = percents_of s" by (simp add: s1_def percents_of_def)
  have s2: "phase_4 (phase_3 (phase_2 (phase_1 s1))) = s2"
    using phases_pose [of s1] assms(3,7) by (simp add: ps1 s2_def) (simp add: s1_def)
  have wf: "wf_LowCmd (low_cmd s2)" using wf_drive assms(4) by (simp add: s2_def s1_def)
  note crc = LowCmd_crc_eq [OF assms(5) wf]
  let ?crc = "crc32_words (words_of (image_prefix pad (low_cmd s2)))"
  define s3 where "s3 = s2\<lparr>low_cmd := (low_cmd s2)\<lparr>lc_crc := ?crc\<rparr>\<rparr>"
  have "(if percent_4 s = 1 \<and> \<not> done_flag s then s\<lparr>done_flag := True\<rparr> else s) = s\<lparr>done_flag := done_flag s \<or> percent_4 s = 1\<rparr>"
    by (cases s) auto
  moreover have "(if firstRun s then s\<lparr>done_flag := d, motiontime := m, startPos := take 12 q, firstRun := False\<rparr> else s\<lparr>done_flag := d, motiontime := m\<rparr>)
    = s\<lparr>done_flag := d, motiontime := m, startPos := start, firstRun := False\<rparr>" for d m
    using assms(6) by (cases s) auto
  ultimately have "LowCmdWrite pad q s = Some (s3, Some (low_cmd s3))"
    using assms(1,2) by (simp add: LowCmdWrite_def s1_def [symmetric] s2 crc s3_def Let_def)
  moreover have "LowCmd_crc pad (low_cmd s3) = Some (lc_crc (low_cmd s3))"
    using LowCmd_crc_eq [OF assms(5), of "low_cmd s3"] wf by (simp add: s3_def)
  moreover have "joint_ok (pose start ?ps j) (lc_motor_cmd (low_cmd s3) ! j)" if "j < 12" for j
    using joint_drive [of "with_percents ?ps s1" j "map (pose start ?ps) [0..<12]"] that assms(4)
    by (simp add: s3_def s2_def) (simp add: s1_def)
  moreover have "percents_of s3 = ?ps" "startPos s3 = start" "\<not> firstRun s3" "motiontime s3 = motiontime s + 1"
    "wf_LowCmd (low_cmd s3)" "done_flag s3 \<longleftrightarrow> done_flag s \<or> percent_4 s = 1"
    using wf by (simp_all add: s3_def s2_def s1_def)
  ultimately show ?thesis by - (rule that [of s3]; blast)
qed

lemma idle_call:
  assumes "motiontime s < 499" and "percents_of s = (0, 0, 0, 0)"
  shows "LowCmdWrite pad q s = Some (s\<lparr>motiontime := motiontime s + 1\<rparr>, None)"
  using assms by (simp add: LowCmdWrite_def percents_of_def)

lemma calls_snoc: "calls pad (qs @ [q]) sc = (case calls pad qs sc of None \<Rightarrow> None | Some (s, cs) \<Rightarrow>
   (case LowCmdWrite pad q s of None \<Rightarrow> None | Some (s, out) \<Rightarrow> Some (s, cs @ (case out of None \<Rightarrow> [] | Some c \<Rightarrow> [c]))))"
  by (induction pad qs sc rule: calls.induct) (auto split: option.splits)

text \<open>What the state messages hold: 20 joints, the legs within 4 rad.\<close>

definition measured :: "real list \<Rightarrow> bool" where
  "measured q \<longleftrightarrow> length q = 20 \<and> (\<forall>j<12. \<bar>q ! j\<bar> \<le> 4)"

definition joint_q :: "LowCmd_dds \<Rightarrow> nat \<Rightarrow> real" where
  "joint_q c j = mc_q (lc_motor_cmd c ! j)"

text \<open>The command \<open>i\<close>, and where it starts from.\<close>

definition command_ok :: "u8 list \<Rightarrow> real list list \<Rightarrow> LowCmd_dds list \<Rightarrow> nat \<Rightarrow> bool" where
  "command_ok pad qs cs i \<longleftrightarrow> LowCmd_crc pad (cs ! i) = Some (lc_crc (cs ! i)) \<and>
     (\<forall>j<12. joint_ok (joint_q (cs ! i) j) (lc_motor_cmd (cs ! i) ! j) \<and>
        \<bar>joint_q (cs ! i) j - (if i = 0 then qs ! 499 ! j else joint_q (cs ! (i - 1)) j)\<bar> \<le> 1 / 50)"

definition calls_inv :: "u8 list \<Rightarrow> real list list \<Rightarrow> stand \<Rightarrow> LowCmd_dds list \<Rightarrow> bool" where
  "calls_inv pad qs s cs \<longleftrightarrow> motiontime s = int (length qs) \<and> length cs = length qs - 499 \<and> (firstRun s \<longleftrightarrow> length qs < 500) \<and>
     wf_LowCmd (low_cmd s) \<and> in_order (percents_of s) \<and> progress (length qs - 499) (percents_of s) \<and>
     (length qs < 500 \<longrightarrow> percents_of s = (0, 0, 0, 0)) \<and> (3401 \<le> length qs \<longrightarrow> done_flag s) \<and>
     (500 \<le> length qs \<longrightarrow> startPos s = take 12 (qs ! 499) \<and> low_cmd s = last cs \<and>
        (\<forall>j<12. joint_q (low_cmd s) j = pose (startPos s) (percents_of s) j)) \<and>
     (\<forall>i<length cs. command_ok pad qs cs i)"

lemma command_ok_append: "i < length cs \<Longrightarrow> 500 \<le> length qs \<Longrightarrow> command_ok pad (qs @ qs') (cs @ cs') i = command_ok pad qs cs i"
  by (auto simp: command_ok_def nth_append)

lemma pose_moves:
  assumes "in_order ps" and "j < 12" and "\<bar>start ! j\<bar> \<le> 4"
    and "x = pose start ps j \<or> ps = (0, 0, 0, 0) \<and> x = start ! j"
  shows "\<bar>pose start (next_percents ps) j - x\<bar> \<le> 1 / 50"
proof -
  have "\<bar>x - path start ps j\<bar> \<le> 1 / 1000000" using pose_path [OF assms(1-3)] assms(4) by auto
  then show ?thesis
    using pose_path [OF next_in_order [OF assms(1)] assms(2,3)] path_step [OF assms(1-3)] by linarith
qed

lemma calls_active:
  assumes inv: "calls_inv pad qs s cs" and q: "measured q" "\<forall>q\<in>set qs. measured q" and "3 \<le> length pad"
    and len: "499 \<le> length qs" "length qs < 2147483647"
  shows "\<exists>s'. LowCmdWrite pad q s = Some (s', Some (low_cmd s')) \<and> calls_inv pad (qs @ [q]) s' (cs @ [low_cmd s'])"
proof -
  define start where "start = take 12 ((qs @ [q]) ! 499)"
  have m: "measured ((qs @ [q]) ! 499)" using q len by (auto simp: nth_append)
  have st: "start = (if firstRun s then take 12 q else startPos s)"
    using inv len by (auto simp: calls_inv_def start_def nth_append)
  have lst: "length start = 12" using m by (simp add: start_def measured_def)
  obtain s' where s': "LowCmdWrite pad q s = Some (s', Some (low_cmd s'))" "percents_of s' = next_percents (percents_of s)"
    "startPos s' = start" "\<not> firstRun s'" "motiontime s' = motiontime s + 1" "wf_LowCmd (low_cmd s')"
    "LowCmd_crc pad (low_cmd s') = Some (lc_crc (low_cmd s'))" "done_flag s' \<longleftrightarrow> done_flag s \<or> percent_4 s = 1"
    "\<And>j. j < 12 \<Longrightarrow> joint_ok (pose start (next_percents (percents_of s)) j) (lc_motor_cmd (low_cmd s') ! j)"
    by (rule active_call [OF _ _ _ _ assms(4) st lst]) (use inv len in \<open>auto simp: calls_inv_def\<close>)
  have ord: "in_order (percents_of s)" and prog: "progress (length qs - 499) (percents_of s)"
    and lcs: "length cs = length qs - 499" using inv by (auto simp: calls_inv_def)
  have jq: "joint_q (low_cmd s') j = pose start (percents_of s') j" if "j < 12" for j
    using s'(9) [OF that] by (simp add: joint_q_def joint_ok_def s'(2))
  have "\<bar>joint_q (low_cmd s') j - (if length cs = 0 then (qs @ [q]) ! 499 ! j else joint_q (last cs) j)\<bar> \<le> 1 / 50" if j: "j < 12" for j
    unfolding jq [OF j] s'(2)
  proof (rule pose_moves [OF ord j])
    show "\<bar>start ! j\<bar> \<le> 4" using m j by (simp add: start_def measured_def)
    show "(if length cs = 0 then (qs @ [q]) ! 499 ! j else joint_q (last cs) j) = pose start (percents_of s) j \<or>
      percents_of s = (0, 0, 0, 0) \<and> (if length cs = 0 then (qs @ [q]) ! 499 ! j else joint_q (last cs) j) = start ! j"
    proof (cases "length qs = 499")
      case True
      then show ?thesis using inv j lcs by (simp add: calls_inv_def start_def)
    next
      case False
      then have "500 \<le> length qs" "\<not> firstRun s" using len inv by (auto simp: calls_inv_def)
      then have "joint_q (last cs) j = pose start (percents_of s) j" using inv j st by (auto simp: calls_inv_def)
      then show ?thesis using lcs \<open>500 \<le> length qs\<close> by auto
    qed
  qed
  then have new: "command_ok pad (qs @ [q]) (cs @ [low_cmd s']) (length cs)"
    using s'(7,9) jq by (auto simp: command_ok_def s'(2) nth_append last_conv_nth)
  have old: "command_ok pad (qs @ [q]) (cs @ [low_cmd s']) i" if "i < length cs" for i
    using that inv lcs by (subst command_ok_append) (auto simp: calls_inv_def)
  have all: "\<forall>i<length (cs @ [low_cmd s']). command_ok pad (qs @ [q]) (cs @ [low_cmd s']) i"
    using new old by (auto simp: less_Suc_eq)
  have "percent_4 s = 1" if "3400 \<le> length qs"
    using progress_done [of "length qs - 499"] prog ord that by (simp add: percents_of_def)
  then have dn: "3401 \<le> length (qs @ [q]) \<longrightarrow> done_flag s'" using s'(8) by simp
  have e: "length (qs @ [q]) - 499 = Suc (length qs - 499)" using len by simp
  have "calls_inv pad (qs @ [q]) s' (cs @ [low_cmd s'])"
    unfolding calls_inv_def e
    using all dn s'(3-6) jq next_in_order [OF ord] progress_next [OF prog ord] lcs inv len
    by (simp add: s'(2) start_def [symmetric]) (simp add: calls_inv_def start_def)
  with s'(1) show ?thesis by blast
qed

lemma calls_invariant:
  assumes "\<forall>q\<in>set qs. measured q" and "3 \<le> length pad" and "length qs < 2147483648"
  shows "\<exists>s cs. calls pad qs (stand_init, []) = Some (s, cs) \<and> calls_inv pad qs s cs"
  using assms
proof (induction qs rule: rev_induct)
  case Nil
  have "wf_LowCmd (low_cmd stand_init)"
    by (simp add: stand_init_def stand_InitLowCmd_def LowCmd_default_def MotorCmd_default_def wf_LowCmd_def wf_MotorCmd_def list_all_iff)
  then show ?case by (simp add: calls_inv_def) (simp add: stand_init_def percents_of_def)
next
  case (snoc q qs)
  then obtain s cs where IH: "calls pad qs (stand_init, []) = Some (s, cs)" "calls_inv pad qs s cs" by auto
  show ?case
  proof (cases "499 \<le> length qs")
    case True
    with calls_active [OF IH(2), of q] snoc.prems IH(1) show ?thesis by (auto simp: calls_snoc)
  next
    case False
    then have "LowCmdWrite pad q s = Some (s\<lparr>motiontime := motiontime s + 1\<rparr>, None)"
      using IH(2) by (intro idle_call) (auto simp: calls_inv_def)
    moreover have "calls_inv pad (qs @ [q]) (s\<lparr>motiontime := motiontime s + 1\<rparr>) cs"
      using IH(2) False by (simp add: calls_inv_def percents_of_def)
    ultimately show ?thesis using IH(1) by (simp add: calls_snoc)
  qed
qed

section \<open>What the example guarantees\<close>

text \<open>C7: Whatever joint positions within 4 rad the state messages report, the first 499 calls send
  nothing, and from the next one on each call sends a command with a valid checksum, the
  configured gains, no velocity and no torque, in which no leg joint is more than 0.02 rad away from the
  command before, and in the first command from the measured position. The joints never jump, also
  where one phase goes over into the next, and although every operation is rounded.\<close>

theorem stand_commands_smooth:
  assumes "\<forall>q\<in>set qs. measured q" and "3 \<le> length pad" and "length qs < 2147483648"
  shows "\<exists>s cs. calls pad qs (stand_init, []) = Some (s, cs) \<and> length cs = length qs - 499 \<and>
    (\<forall>i<length cs. LowCmd_crc pad (cs ! i) = Some (lc_crc (cs ! i)) \<and>
      (\<forall>j<12. mc_kp (lc_motor_cmd (cs ! i) ! j) = 60 \<and> mc_kd (lc_motor_cmd (cs ! i) ! j) = 5 \<and>
        mc_dq (lc_motor_cmd (cs ! i) ! j) = 0 \<and> mc_tau (lc_motor_cmd (cs ! i) ! j) = 0 \<and>
        \<bar>joint_q (cs ! i) j - (if i = 0 then qs ! 499 ! j else joint_q (cs ! (i - 1)) j)\<bar> \<le> 1 / 50))"
proof -
  obtain s cs where "calls pad qs (stand_init, []) = Some (s, cs)" "calls_inv pad qs s cs"
    using calls_invariant [OF assms] by blast
  then have "length cs = length qs - 499" "\<forall>i<length cs. command_ok pad qs cs i" by (simp_all add: calls_inv_def)
  with \<open>calls pad qs (stand_init, []) = Some (s, cs)\<close> show ?thesis unfolding command_ok_def joint_ok_def by blast
qed

text \<open>A robot that reports all joints at zero.\<close>

definition resting :: "nat \<Rightarrow> real list list" where
  "resting n = replicate n (replicate 20 0)"

lemma resting: "\<forall>q\<in>set (resting n). measured q" "length (resting n) = n" "i < n \<Longrightarrow> j < 20 \<Longrightarrow> resting n ! i ! j = 0"
  by (simp_all add: resting_def measured_def)

theorem stand_commands_smooth_witness:
  "\<exists>s c. calls [0, 0, 0] (resting 500) (stand_init, []) = Some (s, [c]) \<and>
     mc_kp (lc_motor_cmd c ! 1) = 60 \<and> \<bar>joint_q c 1\<bar> \<le> 1 / 50"
proof -
  have pre: "3 \<le> length [0, 0, 0 :: u8]" "length (resting 500) < 2147483648" by (simp_all add: resting(2))
  obtain s cs where run: "calls [0, 0, 0] (resting 500) (stand_init, []) = Some (s, cs)" and len: "length cs = length (resting 500) - 499"
    and ok: "\<forall>i<length cs. \<forall>j<12. mc_kp (lc_motor_cmd (cs ! i) ! j) = 60 \<and>
      \<bar>joint_q (cs ! i) j - (if i = 0 then resting 500 ! 499 ! j else joint_q (cs ! (i - 1)) j)\<bar> \<le> 1 / 50"
    using stand_commands_smooth [OF resting(1) pre] by blast
  obtain c where "cs = [c]" using len by (cases cs) (simp_all add: resting(2))
  then show ?thesis using run ok [rule_format, of 0 1] resting(3) [of 499 500 1] by simp
qed

text \<open>C30: After 3401 calls the example has announced that it is done, and from then on the commanded pose is
  exactly the final one.\<close>

theorem stand_finishes:
  assumes "\<forall>q\<in>set qs. measured q" and "3 \<le> length pad" and "3401 \<le> length qs" and "length qs < 2147483648"
  shows "\<exists>s cs. calls pad qs (stand_init, []) = Some (s, cs) \<and> done_flag s \<and> cs \<noteq> [] \<and>
    (\<forall>j<12. joint_q (last cs) j = targetPos_3 ! j)"
proof -
  obtain s cs where c: "calls pad qs (stand_init, []) = Some (s, cs)" and inv: "calls_inv pad qs s cs"
    using calls_invariant [OF assms(1,2,4)] by blast
  obtain p1 p2 p3 p4 where p: "percents_of s = (p1, p2, p3, p4)" by (cases "percents_of s")
  have "progress (length qs - 499) (percents_of s)" and "in_order (percents_of s)"
    using inv unfolding calls_inv_def by blast+
  moreover have "2901 \<le> length qs - 499" using assms(3) by linarith
  ultimately have "p4 = 1 \<and> p3 = 1 \<and> p2 = 1 \<and> p1 = 1" unfolding p by (rule progress_done)
  then have last: "pose (startPos s) (percents_of s) j = targetPos_3 ! j" if "j < 12" for j
    using that by (simp add: p lerp_1 rep32_target_3)
  have "500 \<le> length qs" using assms(3) by linarith
  then have len: "length cs = length qs - 499" and dn: "done_flag s" and lc: "low_cmd s = last cs"
    and q: "\<forall>j<12. joint_q (low_cmd s) j = pose (startPos s) (percents_of s) j"
    using inv assms(3) \<open>500 \<le> length qs\<close> unfolding calls_inv_def by blast+
  have "cs \<noteq> []" using len assms(3) by (cases cs) simp_all
  moreover have "\<forall>j<12. joint_q (last cs) j = targetPos_3 ! j" using q last unfolding lc by metis
  ultimately show ?thesis using c dn by blast
qed

theorem stand_finishes_witness:
  "\<exists>s cs. calls [0, 0, 0] (resting 4000) (stand_init, []) = Some (s, cs) \<and> done_flag s"
proof -
  have "3 \<le> length [0, 0, 0 :: u8]" "3401 \<le> length (resting 4000)" "length (resting 4000) < 2147483648"
    by (simp_all add: resting(2))
  from stand_finishes [OF resting(1) this] show ?thesis by blast
qed

end
