(* ===== verification/CrowJson.thy ===== *)
theory CrowJson
  imports Prelude "HOL-Library.List_Lexorder" "HOL-Library.Multiset"
begin

text \<open>
  The JSON reader of the web framework that the services are built on (\<open>crow/json.h\<close>).
  The reader works on a buffer that ends with a NUL; the input that is left is a list, and running off
  its end is the result \<open>Outside\<close>, so that memory safety is a theorem. What the parser writes
  into the buffer lies behind its position and is modelled by the values it returns: the text of a
  string with the flag that it holds escapes.
\<close>

section \<open>Parser results\<close>

datatype 'a parse = Outside | NoFuel | Bad | Good 'a string

fun bind_parse :: "'a parse \<Rightarrow> ('a \<Rightarrow> string \<Rightarrow> 'b parse) \<Rightarrow> 'b parse" where
  "bind_parse (Good v s) f = f v s"
| "bind_parse Outside f = Outside"
| "bind_parse NoFuel f = NoFuel"
| "bind_parse Bad f = Bad"

abbreviation NUL :: char where
  "NUL \<equiv> CHR 0x00"

section \<open>Values\<close>

text \<open>A string is kept as read, with the flag that it holds escapes; keys are unescaped at once.\<close>

datatype rvalue = RNull | RFalse | RTrue | RNumber string | RString bool string
  | RList "rvalue list" | RObject "(string \<times> rvalue) list"

section \<open>Escapes\<close>

definition to_hex :: "nat \<Rightarrow> char" where
  "to_hex c = (let c = c mod 16 in if c < 10 then char_of (48 + c) else char_of (97 + c - 10))"

text \<open>A negative \<open>char\<close> is one of the upper half.\<close>

definition escape_char :: "char \<Rightarrow> string" where
  "escape_char c =
     (if c = CHR 0x22 then [CHR 0x5C, CHR 0x22]
      else if c = CHR 0x5C then [CHR 0x5C, CHR 0x5C]
      else if c = CHR 0x0A then [CHR 0x5C, CHR ''n'']
      else if c = CHR 0x08 then [CHR 0x5C, CHR ''b'']
      else if c = CHR 0x0C then [CHR 0x5C, CHR ''f'']
      else if c = CHR 0x0D then [CHR 0x5C, CHR ''r'']
      else if c = CHR 0x09 then [CHR 0x5C, CHR ''t'']
      else if (of_char c :: nat) < 32 then
        [CHR 0x5C, CHR ''u'', CHR ''0'', CHR ''0'', to_hex (of_char c div 16), to_hex (of_char c mod 16)]
      else [c])"

definition escape :: "string \<Rightarrow> string" where
  "escape str = concat (map escape_char str)"

definition from_hex :: "char \<Rightarrow> nat" where
  "from_hex c = (if 97 \<le> (of_char c :: nat) then of_char c - 97 + 10
     else if 65 \<le> (of_char c :: nat) then of_char c - 65 + 10 else of_char c - 48)"

definition utf8 :: "nat \<Rightarrow> string" where
  "utf8 code =
     (if code \<ge> 0x800 then [char_of (0xE0 OR drop_bit 12 code), char_of (0x80 OR (drop_bit 6 code AND 0x3F)), char_of (0x80 OR (code AND 0x3F))]
      else if code \<ge> 0x80 then [char_of (0xC0 OR drop_bit 6 code), char_of (0x80 OR (code AND 0x3F))]
      else [char_of code])"

text \<open>The one-character escapes: the letter and what it stands for.\<close>

definition simple_escapes :: "(char \<times> char) list" where
  "simple_escapes = [(CHR 0x22, CHR 0x22), (CHR 0x5C, CHR 0x5C), (CHR 0x2F, CHR 0x2F), (CHR ''b'', CHR 0x08),
     (CHR ''f'', CHR 0x0C), (CHR ''n'', CHR 0x0A), (CHR ''r'', CHR 0x0D), (CHR ''t'', CHR 0x09)]"

text \<open>\<open>None\<close> stands for reading behind the end of the string; an unknown escape is dropped.\<close>

fun unescape :: "string \<Rightarrow> string option" where
  "unescape [] = Some []"
| "unescape (c # s) =
     (if c \<noteq> CHR 0x5C then map_option (Cons c) (unescape s)
      else case s of
        [] \<Rightarrow> None
      | d # s' \<Rightarrow>
          if d = CHR ''u'' then
            (case s' of
               h1 # h2 # h3 # h4 # s'' \<Rightarrow>
                 map_option ((@) (utf8 (from_hex h1 * 4096 + from_hex h2 * 256 + from_hex h3 * 16 + from_hex h4))) (unescape s'')
             | _ \<Rightarrow> None)
          else (case map_of simple_escapes d of
                  Some x \<Rightarrow> map_option (Cons x) (unescape s') | None \<Rightarrow> unescape s'))"

section \<open>Reader\<close>

fun consume :: "char \<Rightarrow> string \<Rightarrow> unit parse" where
  "consume c [] = Outside"
| "consume c (d # s) = (if d \<noteq> c then Bad else Good () s)"

definition is_ws :: "char \<Rightarrow> bool" where
  "is_ws c \<longleftrightarrow> c \<in> {CHR '' '', CHR 0x09, CHR 0x0D, CHR 0x0A}"

lemma is_ws_NUL [simp]: "\<not> is_ws NUL"
  by (simp add: is_ws_def)

fun ws_skip :: "string \<Rightarrow> unit parse" where
  "ws_skip [] = Outside"
| "ws_skip (c # s) = (if is_ws c then ws_skip s else Good () (c # s))"

definition is_hex :: "char \<Rightarrow> bool" where
  "is_hex c \<longleftrightarrow> (let n = of_char c :: nat in 48 \<le> n \<and> n \<le> 57 \<or> 97 \<le> n \<and> n \<le> 102 \<or> 65 \<le> n \<and> n \<le> 70)"

text \<open>The four hexadecimal digits of an escape, tested one after the other.\<close>

fun hex_digits :: "nat \<Rightarrow> string \<Rightarrow> string parse" where
  "hex_digits 0 s = Good [] s"
| "hex_digits (Suc k) [] = Outside"
| "hex_digits (Suc k) (c # s) = (if is_hex c then bind_parse (hex_digits k s) (\<lambda>ds. Good (c # ds)) else Bad)"

lemma hex_digits_length: "hex_digits k s = Good ds r \<Longrightarrow> length r \<le> length s"
proof (induction k s arbitrary: ds r rule: hex_digits.induct)
  case (3 k c s)
  then show ?case by (cases "hex_digits k s") (auto split: if_splits)
qed auto

function scan_string :: "string \<Rightarrow> bool \<Rightarrow> string \<Rightarrow> (bool \<times> string) parse" where
  "scan_string acc has_escaping s =
     (case s of
        [] \<Rightarrow> Outside
      | c # s \<Rightarrow>
          if c \<noteq> CHR 0x22 \<and> c \<noteq> CHR 0x5C \<and> c \<noteq> NUL then scan_string (acc @ [c]) has_escaping s
          else if c = CHR 0x22 then Good (has_escaping, acc) s
          else if c = CHR 0x5C then
            (case s of
               [] \<Rightarrow> Outside
             | d # s \<Rightarrow>
                 if d = CHR ''u'' then
                   (case hex_digits 4 s of
                      Good ds s \<Rightarrow> scan_string (acc @ [c, d] @ ds) True s
                    | Outside \<Rightarrow> Outside | NoFuel \<Rightarrow> NoFuel | Bad \<Rightarrow> Bad)
                 else if d \<in> fst ` set simple_escapes then scan_string (acc @ [c, d]) True s
                 else Bad)
          else Bad)"
  by pat_completeness auto
termination
  by (relation "measure (\<lambda>(acc, e, s). length s)") (auto dest: hex_digits_length)

declare scan_string.simps [simp del]

definition decode_string :: "string \<Rightarrow> (bool \<times> string) parse" where
  "decode_string s = bind_parse (consume (CHR 0x22) s) (\<lambda>_. scan_string [] False)"

text \<open>
  The states of a number are numbered as in the source: 0 to 7 for \<open>Minus\<close>, \<open>AfterMinus\<close>, \<open>ZeroFirst\<close>,
  \<open>Digits\<close>, \<open>DigitsAfterPoints\<close>, \<open>E\<close>, \<open>DigitsAfterE\<close>, \<open>Invalid\<close>.
\<close>

definition is_digit :: "char \<Rightarrow> bool" where
  "is_digit c \<longleftrightarrow> (let n = of_char c :: nat in 48 \<le> n \<and> n \<le> 57)"

function number_loop :: "nat \<Rightarrow> string \<Rightarrow> string \<Rightarrow> string parse" where
  "number_loop state acc s =
     (if state = 7 then Bad
      else case s of
        [] \<Rightarrow> Outside
      | c # r \<Rightarrow>
          if c = CHR ''0'' then number_loop ([2, 2, 7, 3, 4, 6, 6] ! state) (acc @ [c]) r
          else if is_digit c then
            (case dropWhile is_digit r of
               [] \<Rightarrow> Outside
             | d # r' \<Rightarrow> number_loop ([3, 3, 7, 3, 4, 6, 6] ! state) (acc @ c # takeWhile is_digit r) (d # r'))
          else if c = CHR ''.'' then number_loop ([7, 7, 4, 4, 7, 7, 7] ! state) (acc @ [c]) r
          else if c = CHR ''-'' then number_loop ([1, 7, 7, 7, 7, 6, 7] ! state) (acc @ [c]) r
          else if c = CHR ''+'' then number_loop ([7, 7, 7, 7, 7, 6, 7] ! state) (acc @ [c]) r
          else if c = CHR ''e'' \<or> c = CHR ''E'' then number_loop ([7, 7, 7, 5, 5, 7, 7] ! state) (acc @ [c]) r
          else if state \<in> {2, 3, 4, 6} then Good acc s
          else Bad)"
  by pat_completeness auto
termination
proof (relation "measure (\<lambda>(state, acc, s). length s)", goal_cases)
  case (3 state acc s c r d r')
  then have "length (d # r') \<le> length r" by (metis length_dropWhile_le)
  then show ?case using 3 by simp
qed auto

declare number_loop.simps [simp del]

definition decode_number :: "string \<Rightarrow> rvalue parse" where
  "decode_number s = bind_parse (number_loop 0 [] s) (\<lambda>t. Good (RNumber t))"

fun literal :: "string \<Rightarrow> rvalue \<Rightarrow> string \<Rightarrow> rvalue parse" where
  "literal [] v s = Good v s"
| "literal (x # xs) v [] = Outside"
| "literal (x # xs) v (c # s) = (if c = x then literal xs v s else Bad)"

definition key_of :: "bool \<times> string \<Rightarrow> string option" where
  "key_of t = (case t of (has_escaping, raw) \<Rightarrow> if has_escaping then unescape raw else Some raw)"

definition max_depth :: nat where
  "max_depth = 10000"

text \<open>The first argument bounds the recursion; \<open>load\<close> chooses it so that it never runs out.\<close>

function (sequential) decode_value :: "nat \<Rightarrow> nat \<Rightarrow> string \<Rightarrow> rvalue parse"
  and decode_list :: "nat \<Rightarrow> nat \<Rightarrow> string \<Rightarrow> rvalue parse"
  and list_loop :: "nat \<Rightarrow> nat \<Rightarrow> rvalue list \<Rightarrow> string \<Rightarrow> rvalue parse"
  and decode_object :: "nat \<Rightarrow> nat \<Rightarrow> string \<Rightarrow> rvalue parse"
  and object_loop :: "nat \<Rightarrow> nat \<Rightarrow> (string \<times> rvalue) list \<Rightarrow> string \<Rightarrow> rvalue parse"
where
  "decode_value 0 depth s = NoFuel"
| "decode_value (Suc n) depth s =
     (case s of
        [] \<Rightarrow> Outside
      | c # r \<Rightarrow>
          if c = CHR ''['' then decode_list n (depth + 1) s
          else if c = CHR ''{'' then decode_object n (depth + 1) s
          else if c = CHR 0x22 then bind_parse (decode_string s) (\<lambda>(e, raw). Good (RString e raw))
          else if c = CHR ''t'' then literal ''rue'' RTrue r
          else if c = CHR ''f'' then literal ''alse'' RFalse r
          else if c = CHR ''n'' then literal ''ull'' RNull r
          else decode_number s)"
| "decode_list 0 depth s = NoFuel"
| "decode_list (Suc n) depth s =
     bind_parse (consume (CHR ''['') s) (\<lambda>_ s.
       if depth > max_depth then Bad
       else bind_parse (ws_skip s) (\<lambda>_ s.
         if hd s = CHR '']'' then Good (RList []) (tl s) else list_loop n depth [] s))"
| "list_loop 0 depth l s = NoFuel"
| "list_loop (Suc n) depth l s =
     bind_parse (decode_value n (depth + 1) s) (\<lambda>v s.
       bind_parse (ws_skip s) (\<lambda>_ s.
         if hd s = CHR '']'' then Good (RList (l @ [v])) (tl s)
         else bind_parse (consume (CHR '','') s) (\<lambda>_ s.
           bind_parse (ws_skip s) (\<lambda>_ s. list_loop n depth (l @ [v]) s))))"
| "decode_object 0 depth s = NoFuel"
| "decode_object (Suc n) depth s =
     bind_parse (consume (CHR ''{'') s) (\<lambda>_ s.
       if depth > max_depth then Bad
       else bind_parse (ws_skip s) (\<lambda>_ s.
         if hd s = CHR ''}'' then Good (RObject []) (tl s) else object_loop n depth [] s))"
| "object_loop 0 depth l s = NoFuel"
| "object_loop (Suc n) depth l s =
     bind_parse (decode_string s) (\<lambda>t s.
       bind_parse (ws_skip s) (\<lambda>_ s.
         bind_parse (consume (CHR '':'') s) (\<lambda>_ s.
           case key_of t of None \<Rightarrow> Outside | Some key \<Rightarrow>
             bind_parse (ws_skip s) (\<lambda>_ s.
               bind_parse (decode_value n (depth + 1) s) (\<lambda>v s.
                 bind_parse (ws_skip s) (\<lambda>_ s.
                   if hd s = CHR ''}'' then Good (RObject (l @ [(key, v)])) (tl s)
                   else bind_parse (consume (CHR '','') s) (\<lambda>_ s.
                     bind_parse (ws_skip s) (\<lambda>_ s. object_loop n depth (l @ [(key, v)]) s))))))))"
  by pat_completeness auto
termination
  by (relation "measure (\<lambda>x. case x of Inl (Inl (n, _)) \<Rightarrow> n | Inl (Inr (n, _)) \<Rightarrow> n | Inr (Inl (n, _)) \<Rightarrow> n | Inr (Inr (Inl (n, _))) \<Rightarrow> n | Inr (Inr (Inr (n, _))) \<Rightarrow> n)") simp_all

text \<open>The copy of the text with a NUL behind it, and the whole parse. After an error the code still skips
  white space, from a position before the NUL.\<close>

definition load :: "string \<Rightarrow> rvalue parse" where
  "load str =
     bind_parse (ws_skip (str @ [NUL])) (\<lambda>_ s.
       bind_parse (decode_value (3 * length s + 1) 0 s) (\<lambda>ret s.
         bind_parse (ws_skip s) (\<lambda>_ s. if hd s \<noteq> NUL then Bad else Good ret s)))"

section \<open>Memory safety\<close>

text \<open>A parser that stays before the NUL of its input and reads at least \<open>k\<close> characters.\<close>

definition sound :: "nat \<Rightarrow> string \<Rightarrow> 'a parse \<Rightarrow> bool" where
  "sound k s res \<longleftrightarrow> (NUL \<in> set s \<longrightarrow> res \<noteq> Outside) \<and>
     (\<forall>v r. res = Good v r \<longrightarrow> (\<exists>p. k \<le> length p \<and> s = p @ r \<and> NUL \<notin> set p))"

lemma soundE:
  assumes "sound k s (Good v r)"
  obtains p where "k \<le> length p" and "s = p @ r" and "NUL \<notin> set p"
  using assms by (auto simp: sound_def)

lemma sound_NUL: "sound k s (Good v r) \<Longrightarrow> NUL \<in> set s \<Longrightarrow> NUL \<in> set r"
  by (auto simp: sound_def)

lemma sound_length: "sound k s (Good v r) \<Longrightarrow> length r + k \<le> length s"
  by (auto simp: sound_def)

lemma sound_mono: "sound k s res \<Longrightarrow> j \<le> k \<Longrightarrow> sound j s res"
  by (fastforce simp: sound_def)

lemma sound_results [simp]: "sound k s Bad" "sound k s NoFuel" "sound 0 s (Good v s)"
  by (simp_all add: sound_def)

lemma sound_tl [simp]: "s \<noteq> [] \<Longrightarrow> hd s \<noteq> NUL \<Longrightarrow> sound (Suc 0) s (Good v (tl s))"
  by (cases s) (auto simp: sound_def intro: exI [of _ "[hd s]"])

lemma sound_bind:
  assumes "sound k s m" and "\<And>v r. m = Good v r \<Longrightarrow> sound j r (f v r)"
  shows "sound (k + j) s (bind_parse m f)"
proof (cases m)
  case (Good v r)
  then obtain p where p: "k \<le> length p" "s = p @ r" "NUL \<notin> set p" using assms(1) by (auto elim: soundE)
  have "sound j r (f v r)" using assms(2) Good .
  then show ?thesis unfolding sound_def
  proof (elim conjE, intro conjI allI impI)
    assume "NUL \<in> set r \<longrightarrow> f v r \<noteq> Outside" "NUL \<in> set s"
    then show "bind_parse m f \<noteq> Outside" using Good p by simp
  next
    fix w t
    assume "\<forall>v' t. f v r = Good v' t \<longrightarrow> (\<exists>q. j \<le> length q \<and> r = q @ t \<and> NUL \<notin> set q)" "bind_parse m f = Good w t"
    then obtain q where "j \<le> length q" "r = q @ t" "NUL \<notin> set q" using Good by auto
    then show "\<exists>p. k + j \<le> length p \<and> s = p @ t \<and> NUL \<notin> set p" using p by (intro exI [of _ "p @ q"]) simp
  qed
qed (use assms(1) in \<open>auto simp: sound_def\<close>)

lemma sound_bind0: "sound 0 s m \<Longrightarrow> (\<And>v r. m = Good v r \<Longrightarrow> sound j r (f v r)) \<Longrightarrow> sound j s (bind_parse m f)"
  using sound_bind [of 0 s m j f] by simp

lemma sound_bind1: "sound (Suc 0) s m \<Longrightarrow> (\<And>v r. m = Good v r \<Longrightarrow> sound 0 r (f v r)) \<Longrightarrow> sound (Suc 0) s (bind_parse m f)"
  using sound_bind [of 1 s m 0 f] by simp

lemma sound_consume: "c \<noteq> NUL \<Longrightarrow> sound (Suc 0) s (consume c s)"
  by (cases s) (auto simp: sound_def intro: exI [of _ "[c]"])

lemma sound_Cons: "sound 0 r res \<Longrightarrow> c \<noteq> NUL \<Longrightarrow> sound (Suc 0) (c # r) res"
  unfolding sound_def by (auto intro: exI [of _ "c # _"])

lemma sound_ws_skip: "sound 0 s (ws_skip s)"
proof (induction s)
  case (Cons c s)
  have "c \<noteq> NUL" if "is_ws c" using that by auto
  then show ?case using sound_mono [OF sound_Cons [OF Cons]] by simp
qed (simp add: sound_def)

lemma ws_skip_Good: "ws_skip s = Good v r \<Longrightarrow> r \<noteq> []"
  by (induction s) (auto split: if_splits)

lemma hex_digits_Good: "hex_digits k s = Good ds r \<Longrightarrow> s = ds @ r \<and> length ds = k \<and> list_all is_hex ds"
proof (induction k s arbitrary: ds r rule: hex_digits.induct)
  case (3 k c s)
  then show ?case by (cases "hex_digits k s") (auto split: if_splits)
qed auto

lemma is_hex_NUL [simp]: "\<not> is_hex NUL"
  by (simp add: is_hex_def)

lemma hex_digits_Outside: "NUL \<in> set s \<Longrightarrow> hex_digits k s \<noteq> Outside"
proof (induction k s rule: hex_digits.induct)
  case (3 k c s)
  then show ?case by (cases "hex_digits k s") auto
qed auto

lemma hex_digits_NoFuel: "hex_digits k s \<noteq> NoFuel"
proof (induction k s rule: hex_digits.induct)
  case (3 k c s)
  then show ?case by (cases "hex_digits k s") auto
qed auto

lemma utf8_NE: "utf8 code \<noteq> []"
  by (simp add: utf8_def)

lemma unescape_append:
  assumes "unescape x = Some a"
  shows "unescape (x @ y) = map_option ((@) a) (unescape y)"
  using assms
proof (induction x arbitrary: a rule: unescape.induct)
  case 1
  then show ?case by (cases "unescape y") simp_all
next
  case (2 c s)
  show ?case
  proof (cases "c = CHR 0x5C")
    case False
    then obtain b where "unescape s = Some b" "a = c # b" using "2.prems" by auto
    then show ?thesis using "2.IH"(1) False by (cases "unescape y") auto
  next
    case True
    then obtain d s' where s: "s = d # s'" using "2.prems" by (cases s) auto
    show ?thesis
    proof (cases "d = CHR ''u''")
      case u: True
      obtain h1 h2 h3 h4 s'' where s': "s' = h1 # h2 # h3 # h4 # s''"
        using "2.prems" True u s by (auto split: list.splits)
      then show ?thesis using "2.prems" "2.IH"(2) [OF _ s u s'] True u s
        by (cases "unescape y"; cases "unescape s''") auto
    next
      case False
      then show ?thesis
        using "2.prems" "2.IH"(3,4) [OF _ s False] True s
        by (cases "map_of simple_escapes d"; cases "unescape y"; cases "unescape s'") auto
    qed
  qed
qed

lemma unescape_unit: "length ds = 4 \<Longrightarrow> unescape (CHR 0x5C # CHR ''u'' # ds) \<noteq> None"
  by (auto simp: numeral_eq_Suc length_Suc_conv)

lemma unescape_simple: "d \<in> fst ` set simple_escapes \<Longrightarrow> unescape [CHR 0x5C, d] \<noteq> None"
  by (auto simp: simple_escapes_def)

lemma unescape_append_NE: "unescape x \<noteq> None \<Longrightarrow> unescape y \<noteq> None \<Longrightarrow> unescape (x @ y) \<noteq> None"
  using unescape_append by fastforce

lemma scan_string_Good:
  assumes "scan_string acc e s = Good (e', raw) r"
  shows "\<exists>x. raw = acc @ x \<and> s = x @ CHR 0x22 # r \<and> NUL \<notin> set x \<and> unescape x \<noteq> None \<and> (e' \<longleftrightarrow> e \<or> CHR 0x5C \<in> set x)"
  using assms
proof (induction acc e s arbitrary: e' raw r rule: scan_string.induct)
  case (1 acc e s)
  obtain c s1 where s: "s = c # s1" using "1.prems" by (cases s) (auto simp: scan_string.simps)
  consider "c \<noteq> CHR 0x22 \<and> c \<noteq> CHR 0x5C \<and> c \<noteq> NUL" | "c = CHR 0x22" | "c = CHR 0x5C"
    using "1.prems" s by (simp add: scan_string.simps [of acc e] split: if_splits)
  then show ?case
  proof cases
    case 1
    then have "scan_string (acc @ [c]) e s1 = Good (e', raw) r" using "1.prems" s by (simp add: scan_string.simps [of acc e])
    then obtain x where "raw = acc @ [c] @ x" "s1 = x @ CHR 0x22 # r" "NUL \<notin> set x" "unescape x \<noteq> None" "e' \<longleftrightarrow> e \<or> CHR 0x5C \<in> set x"
      using "1.IH"(1) [OF s 1] by auto
    then show ?thesis using 1 s by (intro exI [of _ "c # x"]) auto
  next
    case 2
    then show ?thesis using "1.prems" s by (intro exI [of _ "[]"]) (auto simp: scan_string.simps [of acc e])
  next
    case 3
    then obtain d s2 where s1: "s1 = d # s2" using "1.prems" s by (cases s1) (auto simp: scan_string.simps [of acc e])
    note c = "1.prems" s s1 3
    show ?thesis
    proof (cases "d = CHR ''u''")
      case True
      then obtain ds s3 where h: "hex_digits 4 s2 = Good ds s3"
        using c by (cases "hex_digits 4 s2") (simp_all add: scan_string.simps [of acc e])
      note ds = hex_digits_Good [OF h]
      have "scan_string (acc @ [c, d] @ ds) True s3 = Good (e', raw) r" using c True h by (simp add: scan_string.simps [of acc e])
      then obtain x where x: "raw = acc @ ([c, d] @ ds) @ x" "s3 = x @ CHR 0x22 # r" "NUL \<notin> set x" "unescape x \<noteq> None" "e'"
        using "1.IH"(2) [OF s _ _ 3 s1 True h] 3 by auto
      have "unescape ((CHR 0x5C # CHR ''u'' # ds) @ x) \<noteq> None" using ds x by (intro unescape_append_NE unescape_unit) simp_all
      moreover have "NUL \<notin> set ds" using ds by (auto simp: list_all_iff)
      ultimately show ?thesis using x ds c True by (intro exI [of _ "([c, d] @ ds) @ x"]) auto
    next
      case False
      then have d: "d \<in> fst ` set simple_escapes" using c by (auto simp: scan_string.simps [of acc e] split: if_splits)
      then have "scan_string (acc @ [c, d]) True s2 = Good (e', raw) r" using c False by (simp add: scan_string.simps [of acc e])
      then obtain x where x: "raw = acc @ [c, d] @ x" "s2 = x @ CHR 0x22 # r" "NUL \<notin> set x" "unescape x \<noteq> None" "e'"
        using "1.IH"(3) [OF s _ _ 3 s1 False d] 3 by auto
      have "unescape ([CHR 0x5C, d] @ x) \<noteq> None" using d x by (intro unescape_append_NE unescape_simple)
      moreover have "d \<noteq> NUL" using d by (auto simp: simple_escapes_def)
      ultimately show ?thesis using x c by (intro exI [of _ "[c, d] @ x"]) auto
    qed
  qed
qed

lemma hex_digits_rest: "hex_digits k s = Good ds r \<Longrightarrow> NUL \<in> set s \<Longrightarrow> NUL \<in> set r"
  by (drule hex_digits_Good) (auto simp: list_all_iff)

lemma scan_string_Outside: "NUL \<in> set s \<Longrightarrow> scan_string acc e s \<noteq> Outside"
proof (induction acc e s rule: scan_string.induct)
  case (1 acc e s)
  obtain c s1 where s: "s = c # s1" using "1.prems" by (cases s) auto
  consider "c \<noteq> CHR 0x22 \<and> c \<noteq> CHR 0x5C \<and> c \<noteq> NUL" | "c = CHR 0x22 \<or> c = NUL" | "c = CHR 0x5C" by blast
  then show ?case
  proof cases
    case 1
    then show ?thesis using "1.IH"(1) [OF s 1] "1.prems" s by (auto simp: scan_string.simps [of acc e])
  next
    case 2
    then show ?thesis using s by (auto simp: scan_string.simps [of acc e])
  next
    case 3
    then obtain d s2 where s1: "s1 = d # s2" using "1.prems" s by (cases s1) auto
    have nul: "NUL \<in> set s2" if "d \<noteq> NUL" using "1.prems" s s1 3 that by auto
    show ?thesis
    proof (cases "d = CHR ''u''")
      case True
      have "NUL \<in> set s2" using nul True by simp
      then show ?thesis
        using "1.IH"(2) [OF s _ _ 3 s1 True] s s1 3 True hex_digits_Outside [of s2 4] hex_digits_rest [of 4 s2]
        by (cases "hex_digits 4 s2") (simp_all add: scan_string.simps [of acc e])
    next
      case False
      have "d \<noteq> NUL" if "d \<in> fst ` set simple_escapes" using that by (auto simp: simple_escapes_def)
      then show ?thesis using "1.IH"(3) [OF s _ _ 3 s1 False] s s1 3 False nul by (auto simp: scan_string.simps [of acc e])
    qed
  qed
qed

lemma scan_string_NoFuel: "scan_string acc e s \<noteq> NoFuel"
proof (induction acc e s rule: scan_string.induct)
  case (1 acc e s)
  show ?case
    using 1 hex_digits_NoFuel [of 4] by (subst scan_string.simps) (auto split: list.split parse.split)
qed

lemma sound_decode_string: "sound (Suc 0) s (decode_string s)"
  unfolding decode_string_def
proof (rule sound_bind1 [OF sound_consume])
  fix v r
  show "sound 0 r (scan_string [] False r)"
    using scan_string_Outside scan_string_Good [of "[]" False r]
    by (fastforce simp: sound_def intro: exI [of _ "_ @ [CHR 0x22]"])
qed simp

lemma decode_string_key: "decode_string s = Good t r \<Longrightarrow> key_of t \<noteq> None"
  by (cases s; cases t) (auto simp: decode_string_def key_of_def split: if_splits dest: scan_string_Good)

text \<open>The characters that a number can go on with.\<close>

definition numeric :: "char \<Rightarrow> bool" where
  "numeric c \<longleftrightarrow> is_digit c \<or> c \<in> {CHR ''.'', CHR ''-'', CHR ''+'', CHR ''e'', CHR ''E''}"

lemma is_digit_simps [simp]: "is_digit (CHR ''0'')" "\<not> is_digit NUL" "\<not> numeric NUL"
  by (simp_all add: is_digit_def numeric_def)

lemma number_loop_7 [simp]: "number_loop 7 acc s = Bad"
  by (subst number_loop.simps) simp

lemma number_loop_steps:
  assumes "state \<noteq> 7"
  shows "number_loop state acc (CHR ''0'' # r) = number_loop ([2, 2, 7, 3, 4, 6, 6] ! state) (acc @ [CHR ''0'']) r"
    and "number_loop state acc (CHR ''.'' # r) = number_loop ([7, 7, 4, 4, 7, 7, 7] ! state) (acc @ [CHR ''.'']) r"
    and "number_loop state acc (CHR ''-'' # r) = number_loop ([1, 7, 7, 7, 7, 6, 7] ! state) (acc @ [CHR ''-'']) r"
    and "number_loop state acc (CHR ''+'' # r) = number_loop ([7, 7, 7, 7, 7, 6, 7] ! state) (acc @ [CHR ''+'']) r"
    and "number_loop state acc (CHR ''e'' # r) = number_loop ([7, 7, 7, 5, 5, 7, 7] ! state) (acc @ [CHR ''e'']) r"
    and "number_loop state acc (CHR ''E'' # r) = number_loop ([7, 7, 7, 5, 5, 7, 7] ! state) (acc @ [CHR ''E'']) r"
  using assms by (subst number_loop.simps; simp add: is_digit_def)+

lemma number_loop_digit:
  assumes "state \<noteq> 7" and "is_digit c" and "c \<noteq> CHR ''0''" and "dropWhile is_digit r = d # r'"
  shows "number_loop state acc (c # r) = number_loop ([3, 3, 7, 3, 4, 6, 6] ! state) (acc @ c # takeWhile is_digit r) (d # r')"
  using assms by (subst number_loop.simps) simp

lemma number_loop_end:
  assumes "state \<noteq> 7" and "\<not> numeric c"
  shows "number_loop state acc (c # r) = (if state \<in> {2, 3, 4, 6} then Good acc (c # r) else Bad)"
proof -
  have "\<not> is_digit c" "c \<noteq> CHR ''.''" "c \<noteq> CHR ''-''" "c \<noteq> CHR ''+''" "\<not> (c = CHR ''e'' \<or> c = CHR ''E'')"
    using assms(2) unfolding numeric_def by blast+
  moreover from this(1) have "c \<noteq> CHR ''0''" by auto
  ultimately show ?thesis using assms(1) by (subst number_loop.simps) (simp only: list.case if_False simp_thms)
qed

lemma number_loop_short:
  assumes "state \<noteq> 7" and "s = [] \<or> (\<exists>c r. s = c # r \<and> is_digit c \<and> c \<noteq> CHR ''0'' \<and> dropWhile is_digit r = [])"
  shows "number_loop state acc s = Outside"
  using assms by (subst number_loop.simps) (auto simp del: dropWhile_eq_Nil_conv)

lemma number_loop_cases:
  obtains (bad) "number_loop state acc s = Bad"
  | (outside) "number_loop state acc s = Outside" "NUL \<notin> set s"
  | (stop) "number_loop state acc s = Good acc s" "state \<in> {2, 3, 4, 6}"
  | (step) state' y r where "s = y @ r" "y \<noteq> []" "NUL \<notin> set y" "number_loop state acc s = number_loop state' (acc @ y) r"
proof (cases "state = 7 \<or> s = []")
  case True
  then show ?thesis using bad outside number_loop_short [of state s acc] by (cases "state = 7") auto
next
  case False
  then obtain c r where s: "s = c # r" and st: "state \<noteq> 7" by (cases s) auto
  have one: ?thesis if "number_loop state acc s = number_loop state' (acc @ [c]) r" "c \<noteq> NUL" for state'
    using step [of "[c]" r state'] that s by simp
  consider "c = CHR ''0''" | "c \<noteq> CHR ''0''" "is_digit c" | "c = CHR ''.''" | "c = CHR ''-''" | "c = CHR ''+''"
    | "c = CHR ''e''" | "c = CHR ''E''" | "\<not> numeric c"
    unfolding numeric_def by blast
  then show ?thesis
  proof cases
    case 2
    have sp: "s = (c # takeWhile is_digit r) @ dropWhile is_digit r" by (simp add: s)
    have n: "NUL \<notin> set (c # takeWhile is_digit r)" using 2 by (auto dest: set_takeWhileD)
    show ?thesis
    proof (cases "dropWhile is_digit r")
      case Nil
      then have "NUL \<notin> set s" using n sp by (metis append_Nil2)
      moreover have "number_loop state acc s = Outside" using number_loop_short [OF st] 2 s Nil by blast
      ultimately show ?thesis by (intro outside)
    next
      case (Cons d r')
      from number_loop_digit [OF st 2(2,1) Cons] have "number_loop state acc s
        = number_loop ([3, 3, 7, 3, 4, 6, 6] ! state) (acc @ c # takeWhile is_digit r) (dropWhile is_digit r)"
        unfolding s Cons .
      from step [OF sp _ n this] show ?thesis by simp
    qed
  next
    case 8
    show ?thesis
    proof (cases "state \<in> {2, 3, 4, 6}")
      case True
      then show ?thesis using number_loop_end [OF st 8] by (intro stop) (simp_all add: s)
    next
      case False
      then show ?thesis using number_loop_end [OF st 8] by (intro bad) (simp add: s)
    qed
  next
    case 1
    then show ?thesis by (intro one [of "[2, 2, 7, 3, 4, 6, 6] ! state"]) (simp_all only: s number_loop_steps [OF st], simp)
  next
    case 3
    then show ?thesis by (intro one [of "[7, 7, 4, 4, 7, 7, 7] ! state"]) (simp_all only: s number_loop_steps [OF st], simp)
  next
    case 4
    then show ?thesis by (intro one [of "[1, 7, 7, 7, 7, 6, 7] ! state"]) (simp_all only: s number_loop_steps [OF st], simp)
  next
    case 5
    then show ?thesis by (intro one [of "[7, 7, 7, 7, 7, 6, 7] ! state"]) (simp_all only: s number_loop_steps [OF st], simp)
  next
    case 6
    then show ?thesis by (intro one [of "[7, 7, 7, 5, 5, 7, 7] ! state"]) (simp_all only: s number_loop_steps [OF st], simp)
  next
    case 7
    then show ?thesis by (intro one [of "[7, 7, 7, 5, 5, 7, 7] ! state"]) (simp_all only: s number_loop_steps [OF st], simp)
  qed
qed

lemma number_loop_Good:
  assumes "number_loop state acc s = Good t r"
  shows "\<exists>x. t = acc @ x \<and> s = x @ r \<and> NUL \<notin> set x \<and> (state \<notin> {2, 3, 4, 6} \<longrightarrow> x \<noteq> [])"
  using assms
proof (induction "length s" arbitrary: state acc s rule: less_induct)
  case less
  show ?case
  proof (cases rule: number_loop_cases [of state acc s])
    case (step state' y r')
    then obtain x where "t = acc @ y @ x" "r' = x @ r" "NUL \<notin> set x" using less.hyps [of r' state' "acc @ y"] less.prems by auto
    then show ?thesis using step by (intro exI [of _ "y @ x"]) auto
  qed (use less.prems in auto)
qed

lemma number_loop_results: "number_loop state acc s \<noteq> NoFuel" "NUL \<in> set s \<Longrightarrow> number_loop state acc s \<noteq> Outside"
proof -
  have "number_loop state acc s \<noteq> NoFuel \<and> (NUL \<in> set s \<longrightarrow> number_loop state acc s \<noteq> Outside)"
  proof (induction "length s" arbitrary: state acc s rule: less_induct)
    case less
    show ?case
    proof (cases rule: number_loop_cases [of state acc s])
      case (step state' y r')
      then show ?thesis using less.hyps [of r' state' "acc @ y"] by auto
    qed auto
  qed
  then show "number_loop state acc s \<noteq> NoFuel" "NUL \<in> set s \<Longrightarrow> number_loop state acc s \<noteq> Outside" by blast+
qed

lemma sound_decode_number: "sound (Suc 0) s (decode_number s)"
  unfolding decode_number_def
proof (rule sound_bind1)
  show "sound (Suc 0) s (number_loop 0 [] s)"
    unfolding sound_def
    using number_loop_results(2) number_loop_Good [of 0 "[]" s] by (auto simp: Suc_le_eq)
qed simp

lemma sound_literal: "NUL \<notin> set w \<Longrightarrow> sound 0 s (literal w v s)"
proof (induction w v s rule: literal.induct)
  case (3 x xs v c s)
  have "sound (Suc 0) (x # s) (Good () s)" using 3 by (auto simp: sound_def intro: exI [of _ "[x]"])
  then show ?case using 3 sound_bind [of 1 "x # s" "Good () s" 0 "\<lambda>_ s. literal xs v s"] by (auto intro: sound_mono)
qed (simp_all add: sound_def)

lemma sound_end: "ws_skip s = Good u r \<Longrightarrow> hd r \<noteq> NUL \<Longrightarrow> sound (Suc 0) r (Good v (tl r))"
  using ws_skip_Good by simp

lemma sound_0: "sound (Suc 0) s res \<Longrightarrow> sound 0 s res"
  by (rule sound_mono) simp_all

lemmas sound_intros = sound_bind1 [OF sound_consume] sound_bind0 [OF sound_ws_skip] sound_bind0 [OF sound_0 [OF sound_consume]]
  sound_0 sound_end

text \<open>The readers stay within the buffer, however much fuel they have.\<close>

lemma decode_sound:
  "sound (Suc 0) s (decode_value n depth s)"
  "sound (Suc 0) s (decode_list n depth s)"
  "sound (Suc 0) s (list_loop n depth l s)"
  "sound (Suc 0) s (decode_object n depth s)"
  "sound (Suc 0) s (object_loop n depth ms s)"
proof (induction n depth s and n depth s and n depth l s and n depth s and n depth ms s
    rule: decode_value_decode_list_list_loop_decode_object_object_loop.induct)
  case (2 n depth s)
  show ?case
  proof (cases s)
    case Nil
    then show ?thesis by (simp add: sound_def)
  next
    case (Cons c r)
    have "sound (Suc 0) s (bind_parse (decode_string s) (\<lambda>(e, raw). Good (RString e raw)))"
      by (rule sound_bind1 [OF sound_decode_string]) (auto split: prod.split)
    then show ?thesis using 2 Cons by (auto intro!: sound_Cons sound_literal sound_decode_number)
  qed
next
  case (4 n depth s)
  show ?case using 4 by (auto intro!: sound_intros)
next
  case (6 n depth l s)
  show ?case
    unfolding list_loop.simps by (rule sound_bind1 [OF 6(1)]) (use 6 in \<open>auto intro!: sound_intros\<close>)
next
  case (8 n depth s)
  show ?case using 8 by (auto intro!: sound_intros)
next
  case (10 n depth l s)
  show ?case
    unfolding object_loop.simps
  proof (rule sound_bind1 [OF sound_decode_string])
    fix t r
    assume "decode_string s = Good t r"
    then obtain key where "key_of t = Some key" using decode_string_key by fastforce
    then show "sound 0 r (bind_parse (ws_skip r) (\<lambda>_ s. bind_parse (consume (CHR '':'') s) (\<lambda>_ s.
        case key_of t of None \<Rightarrow> Outside | Some key \<Rightarrow> bind_parse (ws_skip s) (\<lambda>_ s.
          bind_parse (decode_value n (depth + 1) s) (\<lambda>v s. bind_parse (ws_skip s) (\<lambda>_ s.
            if hd s = CHR ''}'' then Good (RObject (l @ [(key, v)])) (tl s)
            else bind_parse (consume (CHR '','') s) (\<lambda>_ s. bind_parse (ws_skip s) (\<lambda>_ s. object_loop n depth (l @ [(key, v)]) s))))))))"
      using 10 by (cases t) (auto intro!: sound_intros sound_bind0 [of _ "decode_value _ _ _"])
  qed
qed simp_all

section \<open>Termination\<close>

lemma bind_NoFuel: "bind_parse m f = NoFuel \<longleftrightarrow> m = NoFuel \<or> (\<exists>v r. m = Good v r \<and> f v r = NoFuel)"
  by (cases m) simp_all

lemma plain_NoFuel [simp]: "ws_skip s \<noteq> NoFuel" "consume c s \<noteq> NoFuel" "decode_string s \<noteq> NoFuel" "decode_number s \<noteq> NoFuel"
  "literal w v s \<noteq> NoFuel"
proof -
  show "ws_skip s \<noteq> NoFuel" by (induction s) auto
  show c: "consume c s \<noteq> NoFuel" for c by (cases s) auto
  show "decode_string s \<noteq> NoFuel" using c scan_string_NoFuel by (simp add: decode_string_def bind_NoFuel)
  show "decode_number s \<noteq> NoFuel" using number_loop_results(1) by (simp add: decode_number_def bind_NoFuel)
  show "literal w v s \<noteq> NoFuel" by (induction w v s rule: literal.induct) auto
qed

lemma consumed:
  "ws_skip s = Good u r \<Longrightarrow> length r \<le> length s" "consume c s = Good u r \<Longrightarrow> length r < length s"
  "decode_string s = Good t r \<Longrightarrow> length r < length s" "decode_value n depth s = Good v r \<Longrightarrow> length r < length s"
proof -
  show "ws_skip s = Good u r \<Longrightarrow> length r \<le> length s" using sound_ws_skip [of s] sound_length [of 0 s] by simp
  show "consume c s = Good u r \<Longrightarrow> length r < length s" by (cases s) (auto split: if_splits)
  show "decode_string s = Good t r \<Longrightarrow> length r < length s" using sound_decode_string [of s] sound_length [of "Suc 0" s t r] by simp
  show "decode_value n depth s = Good v r \<Longrightarrow> length r < length s"
    using decode_sound(1) [of s n depth] sound_length [of "Suc 0" s v r] by simp
qed

text \<open>Three calls for each character are enough.\<close>

lemma bind_fuelI: "m \<noteq> NoFuel \<Longrightarrow> (\<And>v r. m = Good v r \<Longrightarrow> f v r \<noteq> NoFuel) \<Longrightarrow> bind_parse m f \<noteq> NoFuel"
  by (cases m) simp_all

lemma consumed_mark:
  assumes "ws_skip s1 = Good u1 s2" "consume c s2 = Good u2 s3" "ws_skip s3 = Good u3 s4"
  shows "length s4 < length s1"
  using consumed(1) [OF assms(1)] consumed(2) [OF assms(2)] consumed(1) [OF assms(3)] by linarith

lemma decode_fuel:
  "3 * length s + 1 \<le> n \<Longrightarrow> decode_value n depth s \<noteq> NoFuel"
  "s \<noteq> [] \<Longrightarrow> 3 * length s \<le> n \<Longrightarrow> decode_list n depth s \<noteq> NoFuel"
  "3 * length s + 2 \<le> n \<Longrightarrow> list_loop n depth l s \<noteq> NoFuel"
  "s \<noteq> [] \<Longrightarrow> 3 * length s \<le> n \<Longrightarrow> decode_object n depth s \<noteq> NoFuel"
  "3 * length s + 2 \<le> n \<Longrightarrow> object_loop n depth ms s \<noteq> NoFuel"
proof (induction n arbitrary: depth s l ms)
  case (Suc n)
  note IH = Suc.IH
  { case 1
    then show ?case using IH(2,4) [of s "depth + 1"] by (cases s) (auto simp: bind_NoFuel split: prod.splits)
  next
    case 2
    show ?case unfolding decode_list.simps
    proof (rule bind_fuelI, simp, split if_split, intro conjI impI bind_fuelI; (simp; fail)?)
      fix u r u' r'
      assume "consume (CHR ''['') s = Good u r" "ws_skip r = Good u' r'"
      then have "length r' < length s" using consumed(1) [of r u' r'] consumed(2) [of _ s u r] by fastforce
      then have "list_loop n depth [] r' \<noteq> NoFuel" using 2 by (intro IH(3)) linarith
      then show "(if hd r' = CHR '']'' then Good (RList []) (tl r') else list_loop n depth [] r') \<noteq> NoFuel" by simp
    qed
  next
    case 3
    show ?case unfolding list_loop.simps
    proof (rule bind_fuelI, rule IH(1))
      show "3 * length s + 1 \<le> n" using 3 by linarith
      fix v s1
      assume v: "decode_value n (depth + 1) s = Good v s1"
      have "list_loop n depth (l @ [v]) s4 \<noteq> NoFuel"
        if "ws_skip s1 = Good u1 s2" "consume (CHR '','') s2 = Good u2 s3" "ws_skip s3 = Good u3 s4" for u1 s2 u2 s3 u3 s4
        using 3 consumed(4) [OF v] consumed_mark [OF that] by (intro IH(3)) linarith
      then show "bind_parse (ws_skip s1) (\<lambda>_ s. if hd s = CHR '']'' then Good (RList (l @ [v])) (tl s)
          else bind_parse (consume (CHR '','') s) (\<lambda>_ s. bind_parse (ws_skip s) (\<lambda>_ s. list_loop n depth (l @ [v]) s))) \<noteq> NoFuel"
        by (auto simp: bind_NoFuel split: if_splits)
    qed
  next
    case 5
    show ?case unfolding object_loop.simps
    proof (rule bind_fuelI, simp)
      fix t s1
      assume t: "decode_string s = Good t s1"
      have dv: "decode_value n (depth + 1) s4 \<noteq> NoFuel"
        if "ws_skip s1 = Good u1 s2" "consume (CHR '':'') s2 = Good u2 s3" "ws_skip s3 = Good u3 s4" for u1 s2 u2 s3 u3 s4
        using 5 consumed(3) [OF t] consumed_mark [OF that] by (intro IH(1)) linarith
      have "object_loop n depth ms' s8 \<noteq> NoFuel"
        if "ws_skip s1 = Good u1 s2" "consume (CHR '':'') s2 = Good u2 s3" "ws_skip s3 = Good u3 s4"
          "decode_value n (depth + 1) s4 = Good v s5" "ws_skip s5 = Good u5 s6" "consume (CHR '','') s6 = Good u6 s7" "ws_skip s7 = Good u7 s8"
        for u1 s2 u2 s3 u3 s4 v s5 u5 s6 u6 s7 u7 s8 ms'
        using 5 consumed(3) [OF t] consumed_mark [OF that(1-3)] consumed(4) [OF that(4)] consumed_mark [OF that(5-7)]
        by (intro IH(5)) linarith
      with dv show "bind_parse (ws_skip s1) (\<lambda>_ s. bind_parse (consume (CHR '':'') s) (\<lambda>_ s.
          case key_of t of None \<Rightarrow> Outside | Some key \<Rightarrow> bind_parse (ws_skip s) (\<lambda>_ s.
            bind_parse (decode_value n (depth + 1) s) (\<lambda>v s. bind_parse (ws_skip s) (\<lambda>_ s.
              if hd s = CHR ''}'' then Good (RObject (ms @ [(key, v)])) (tl s)
              else bind_parse (consume (CHR '','') s) (\<lambda>_ s. bind_parse (ws_skip s) (\<lambda>_ s. object_loop n depth (ms @ [(key, v)]) s))))))) \<noteq> NoFuel"
        by (cases "key_of t") (auto simp: bind_NoFuel split: if_splits)
    qed
  next
    case 4
    show ?case unfolding decode_object.simps
    proof (rule bind_fuelI, simp, split if_split, intro conjI impI bind_fuelI; (simp; fail)?)
      fix u r u' r'
      assume "consume (CHR ''{'') s = Good u r" "ws_skip r = Good u' r'"
      then have "length r' < length s" using consumed(1) [of r u' r'] consumed(2) [of _ s u r] by fastforce
      then have "object_loop n depth [] r' \<noteq> NoFuel" using 4 by (intro IH(5)) linarith
      then show "(if hd r' = CHR ''}'' then Good (RObject []) (tl r') else object_loop n depth [] r') \<noteq> NoFuel" by simp
    qed
  }
qed simp_all

section \<open>What the reader guarantees\<close>

lemma ws_skip_split: "ws_skip s = Good u r \<Longrightarrow> \<exists>w. s = w @ r \<and> list_all is_ws w"
proof (induction s)
  case (Cons c s)
  show ?case
  proof (cases "is_ws c")
    case True
    with Cons obtain w where "s = w @ r" "list_all is_ws w" by auto
    then show ?thesis using True by (intro exI [of _ "c # w"]) simp
  next
    case False
    then show ?thesis using Cons.prems by simp
  qed
qed simp

lemma ws_skip_NUL:
  assumes "NUL \<in> set s"
  obtains r where "ws_skip s = Good () r" and "NUL \<in> set r"
proof (cases "ws_skip s")
  case (Good v r)
  then show ?thesis using sound_ws_skip [of s] sound_NUL [of 0 s v r] assms that by auto
next
  case Bad
  have "ws_skip t \<noteq> Bad" for t by (induction t) auto
  then show ?thesis using Bad by blast
qed (use assms sound_ws_skip [of s] in \<open>auto simp: sound_def\<close>)

text \<open>C10: For every text, of any length and with any bytes in it, the reader ends, never reads outside of the
  buffer with the NUL behind the text, and either rejects the text or returns a value. When it accepts, what follows
  the value up to the first NUL is white space.\<close>

theorem load_total_and_safe:
  "load str = Bad \<or> (\<exists>v r p w. load str = Good v (NUL # r) \<and> str @ [NUL] = p @ w @ NUL # r \<and> p \<noteq> [] \<and>
     NUL \<notin> set p \<and> list_all is_ws w)"
proof -
  obtain s1 where s1: "ws_skip (str @ [NUL]) = Good () s1" "NUL \<in> set s1" by (rule ws_skip_NUL [of "str @ [NUL]"]) simp
  define m where "m = decode_value (3 * length s1 + 1) 0 s1"
  have fuel: "m \<noteq> NoFuel" unfolding m_def by (rule decode_fuel(1)) simp
  have m: "sound (Suc 0) s1 m" unfolding m_def by (rule decode_sound(1))
  have load: "load str = bind_parse m (\<lambda>ret s. bind_parse (ws_skip s) (\<lambda>_ s. if hd s \<noteq> NUL then Bad else Good ret s))"
    unfolding load_def m_def s1(1) bind_parse.simps ..
  show ?thesis
  proof (cases m)
    case (Good v s2)
    then obtain p where p: "Suc 0 \<le> length p" "s1 = p @ s2" "NUL \<notin> set p" using m by (auto elim: soundE)
    then have "NUL \<in> set s2" using s1(2) by auto
    then obtain s3 where s3: "ws_skip s2 = Good () s3" by (rule ws_skip_NUL)
    obtain w0 w where w: "str @ [NUL] = w0 @ s1" "s2 = w @ s3" "list_all is_ws w0" "list_all is_ws w"
      using ws_skip_split [OF s1(1)] ws_skip_split [OF s3] by auto
    have "load str = (if hd s3 \<noteq> NUL then Bad else Good v s3)" unfolding load Good by (simp add: s3)
    moreover have "s3 = NUL # tl s3" if "hd s3 = NUL" using ws_skip_Good [OF s3] that by (cases s3) auto
    moreover have "NUL \<notin> set (w0 @ p)" "w0 @ p \<noteq> []" using w(3) p by (auto simp: list_all_iff)
    moreover have "str @ [NUL] = (w0 @ p) @ w @ s3" using w p(2) by simp
    ultimately show ?thesis using w(4) by (cases "hd s3 = NUL") (metis, simp)
  next
    case Outside
    then show ?thesis using m s1(2) by (simp add: sound_def)
  next
    case Bad
    then show ?thesis by (simp add: load)
  qed (use fuel in simp)
qed

text \<open>The text behind an embedded NUL is not looked at.\<close>

lemma load_stops_at_NUL: "load (''{}'' @ [NUL] @ ''x'') = Good (RObject []) (NUL # ''x'' @ [NUL])"
  by code_simp

end
