(* ===== verification/CrowDump.thy ===== *)
theory CrowDump
  imports CrowJson
begin

text \<open>
  Access to the values that the JSON reader of \<open>crow/json.h\<close> returns, and the writer of the same file. An
  exception is \<open>None\<close>. The number formats of \<open>snprintf\<close> and the extraction of a double from a stream are library functions and
  arguments of the model, as is \<open>std::sort\<close>, which may order members with equal keys either way.
\<close>

section \<open>Access\<close>

datatype num_type = Signed_integer | Unsigned_integer | Floating_point | Num_Null | Double_precision_floating_point

definition determine_num_type :: "rvalue \<Rightarrow> num_type" where
  "determine_num_type v = (case v of
     RNumber t \<Rightarrow>
       let has_minus = CHR ''-'' \<in> set t; has_e = CHR ''e'' \<in> set t \<or> CHR ''E'' \<in> set t; has_dec_sep = CHR ''.'' \<in> set t
       in if has_dec_sep \<or> has_e then Floating_point else if has_minus then Signed_integer else Unsigned_integer
   | _ \<Rightarrow> Num_Null)"

text \<open>The value of a text of decimal digits.\<close>

definition decimal :: "string \<Rightarrow> nat" where
  "decimal s = foldl (\<lambda>n c. 10 * n + (of_char c - 48)) 0 s"

text \<open>Extraction of a 64-bit integer from a stream: what does not fit is the nearest limit.\<close>

definition lexical_cast_int64 :: "string \<Rightarrow> int" where
  "lexical_cast_int64 s =
     (let s = dropWhile (\<lambda>c. of_char c \<in> {9, 10, 11, 12, 13, 32 :: nat}) s;
          neg = (s \<noteq> [] \<and> hd s = CHR ''-'');
          s = (if s \<noteq> [] \<and> hd s \<in> {CHR ''-'', CHR ''+''} then tl s else s);
          n = int (decimal (takeWhile is_digit s))
      in max (- (2 ^ 63)) (min (2 ^ 63 - 1) (if neg then - n else n)))"

text \<open>For an unsigned integer, a minus sign negates modulo the range.\<close>

definition lexical_cast_uint64 :: "string \<Rightarrow> int" where
  "lexical_cast_uint64 s =
     (let s = dropWhile (\<lambda>c. of_char c \<in> {9, 10, 11, 12, 13, 32 :: nat}) s;
          neg = (s \<noteq> [] \<and> hd s = CHR ''-'');
          s = (if s \<noteq> [] \<and> hd s \<in> {CHR ''-'', CHR ''+''} then tl s else s);
          n = int (decimal (takeWhile is_digit s))
      in if n \<ge> 2 ^ 64 then 2 ^ 64 - 1 else if neg then (- n) mod 2 ^ 64 else n)"

definition r_i :: "rvalue \<Rightarrow> int option" where
  "r_i v = (case v of RNumber t \<Rightarrow> Some (lexical_cast_int64 t) | RString e t \<Rightarrow> Some (lexical_cast_int64 t) | _ \<Rightarrow> None)"

definition r_u :: "rvalue \<Rightarrow> int option" where
  "r_u v = (case v of RNumber t \<Rightarrow> Some (lexical_cast_uint64 t) | RString e t \<Rightarrow> Some (lexical_cast_uint64 t) | _ \<Rightarrow> None)"

definition r_d :: "(string \<Rightarrow> real) \<Rightarrow> rvalue \<Rightarrow> real option" where
  "r_d num v = (case v of RNumber t \<Rightarrow> Some (num t) | _ \<Rightarrow> None)"

definition r_b :: "rvalue \<Rightarrow> bool option" where
  "r_b v = (case v of RTrue \<Rightarrow> Some True | RFalse \<Rightarrow> Some False | _ \<Rightarrow> None)"

definition r_s :: "rvalue \<Rightarrow> string option" where
  "r_s v = (case v of RString e t \<Rightarrow> key_of (e, t) | _ \<Rightarrow> None)"

definition r_keys :: "rvalue \<Rightarrow> string list option" where
  "r_keys v = (case v of RObject ms \<Rightarrow> Some (map fst ms) | _ \<Rightarrow> None)"

definition r_size :: "rvalue \<Rightarrow> nat option" where
  "r_size v = (case v of RString e t \<Rightarrow> map_option length (key_of (e, t)) | RList l \<Rightarrow> Some (length l)
     | RObject ms \<Rightarrow> Some (length ms) | _ \<Rightarrow> None)"

definition r_at :: "rvalue \<Rightarrow> int \<Rightarrow> rvalue option" where
  "r_at v index = (case v of RList l \<Rightarrow> if index \<ge> int (length l) \<or> index < 0 then None else Some (l ! nat index) | _ \<Rightarrow> None)"

text \<open>Keys are compared character by character, and \<open>char\<close> is signed.\<close>

definition signed_char :: "char \<Rightarrow> int" where
  "signed_char c = (let n = of_char c in if n < 128 then n else n - 256)"

definition order_key :: "string \<Rightarrow> int list" where
  "order_key k = map signed_char k"

text \<open>The members are sorted, then the first one that is not less is the candidate.\<close>

definition r_get :: "((string \<times> rvalue) list \<Rightarrow> (string \<times> rvalue) list) \<Rightarrow> rvalue \<Rightarrow> string \<Rightarrow> rvalue option" where
  "r_get srt v str = (case v of
     RObject ms \<Rightarrow> (case dropWhile (\<lambda>m. order_key (fst m) < order_key str) (srt ms) of
        [] \<Rightarrow> None | (k, x) # _ \<Rightarrow> if k = str then Some x else None)
   | _ \<Rightarrow> None)"

section \<open>Writer\<close>

text \<open>A number that is not finite is \<open>None\<close>; the flag tells a double from a float.\<close>

datatype wvalue = WNull | WFalse | WTrue | WSigned "64 word" | WUnsigned "64 word" | WFloat bool "real option"
  | WString string | WList "wvalue list" | WObject "(string \<times> wvalue) list" | WFunction

datatype f_state = F_start | F_decp | F_zero

fun trailing_zero :: "f_state \<Rightarrow> nat \<Rightarrow> nat option \<Rightarrow> string \<Rightarrow> nat option" where
  "trailing_zero st p pos [] = pos"
| "trailing_zero F_start p pos (ch # s) =
     (if ch = CHR ''.'' then
        (case s of fch # s' \<Rightarrow> if fch = CHR ''0'' then trailing_zero F_decp (p + 2) pos s' else trailing_zero F_decp (p + 1) pos s
         | [] \<Rightarrow> pos)
      else trailing_zero F_start (p + 1) pos s)"
| "trailing_zero F_decp p pos (ch # s) =
     (if ch = CHR ''0'' then trailing_zero F_zero (p + 1) (Some p) s else trailing_zero F_decp (p + 1) pos s)"
| "trailing_zero F_zero p pos (ch # s) =
     (if ch \<noteq> CHR ''0'' then trailing_zero F_decp (p + 1) None s else trailing_zero F_zero (p + 1) pos s)"

text \<open>The buffer holds 127 characters.\<close>

definition dump_float :: "(bool \<Rightarrow> real \<Rightarrow> string) \<Rightarrow> bool \<Rightarrow> real option \<Rightarrow> string" where
  "dump_float snprintf double x = (case x of
     None \<Rightarrow> ''null''
   | Some d \<Rightarrow>
       let outbuf = take 127 (snprintf double d)
       in (case trailing_zero F_start 0 None outbuf of None \<Rightarrow> outbuf | Some p \<Rightarrow> take p outbuf))"

definition dump_string :: "string \<Rightarrow> string" where
  "dump_string str = CHR 0x22 # escape str @ [CHR 0x22]"

definition dump_indentation_part :: "int \<Rightarrow> char \<Rightarrow> nat \<Rightarrow> string" where
  "dump_indentation_part indent separator indent_level =
     (if indent \<ge> 0 then CHR 0x0A # replicate (indent_level * nat indent) separator else [])"

text \<open>The loop over the elements, with its flag for the first one.\<close>

fun dump_elements :: "string \<Rightarrow> bool \<Rightarrow> string list \<Rightarrow> string" where
  "dump_elements newline first [] = []"
| "dump_elements newline first (x # xs) = (if first then [] else CHR '','' # newline) @ x @ dump_elements newline False xs"

fun dump_internal :: "(bool \<Rightarrow> real \<Rightarrow> string) \<Rightarrow> int \<Rightarrow> char \<Rightarrow> nat \<Rightarrow> wvalue \<Rightarrow> string" where
  "dump_internal pf indent separator level WNull = ''null''"
| "dump_internal pf indent separator level WFalse = ''false''"
| "dump_internal pf indent separator level WTrue = ''true''"
| "dump_internal pf indent separator level (WSigned si) = to_string (sint si)"
| "dump_internal pf indent separator level (WUnsigned ui) = to_string (uint ui)"
| "dump_internal pf indent separator level (WFloat double d) = dump_float pf double d"
| "dump_internal pf indent separator level (WString s) = dump_string s"
| "dump_internal pf indent separator level (WList l) =
     CHR ''['' # dump_indentation_part indent separator (level + 1) @
     dump_elements (dump_indentation_part indent separator (level + 1)) True
       (map (dump_internal pf indent separator (level + 1)) l) @
     dump_indentation_part indent separator level @ [CHR '']'']"
| "dump_internal pf indent separator level (WObject ms) =
     CHR ''{'' # dump_indentation_part indent separator (level + 1) @
     dump_elements (dump_indentation_part indent separator (level + 1)) True
       (map (\<lambda>(k, v). dump_string k @ CHR '':'' # (if indent \<ge> 0 then '' '' else []) @
          dump_internal pf indent separator (level + 1) v) ms) @
     dump_indentation_part indent separator level @ [CHR ''}'']"
| "dump_internal pf indent separator level WFunction = ''custom function''"

definition dump :: "(bool \<Rightarrow> real \<Rightarrow> string) \<Rightarrow> int \<Rightarrow> char \<Rightarrow> wvalue \<Rightarrow> string" where
  "dump pf indent separator v = dump_internal pf indent separator 0 v"

section \<open>Escaped strings\<close>

lemma hex_round: "n < 16 \<Longrightarrow> from_hex (to_hex n) = n \<and> is_hex (to_hex n)"
  by (cases "n < 10") (simp_all add: to_hex_def from_hex_def is_hex_def Let_def)

lemma escape_char_cases:
  obtains (plain) "escape_char c = [c]" "c \<noteq> CHR 0x22" "c \<noteq> CHR 0x5C" "c \<noteq> NUL"
  | (simple) d where "escape_char c = [CHR 0x5C, d]" "(d, c) \<in> set simple_escapes"
  | (hex) "escape_char c = [CHR 0x5C, CHR ''u'', CHR ''0'', CHR ''0'', to_hex (of_char c div 16), to_hex (of_char c mod 16)]"
    "(of_char c :: nat) < 32"
proof -
  consider "c = CHR 0x22" | "c = CHR 0x5C" | "c = CHR 0x0A" | "c = CHR 0x08" | "c = CHR 0x0C" | "c = CHR 0x0D" | "c = CHR 0x09"
    | "c \<noteq> CHR 0x22" "c \<noteq> CHR 0x5C" "c \<noteq> CHR 0x0A" "c \<noteq> CHR 0x08" "c \<noteq> CHR 0x0C" "c \<noteq> CHR 0x0D" "c \<noteq> CHR 0x09"
    by blast
  then show ?thesis
  proof cases
    case 8
    show ?thesis
    proof (cases "(of_char c :: nat) < 32")
      case True
      show ?thesis by (rule hex) (use 8 True in \<open>simp_all add: escape_char_def\<close>)
    next
      case False
      then have "c \<noteq> NUL" by auto
      show ?thesis by (rule plain) (use 8 False \<open>c \<noteq> NUL\<close> in \<open>simp_all add: escape_char_def\<close>)
    qed
  qed (rule simple; simp add: escape_char_def simple_escapes_def)+
qed

lemma unescape_hex: "n < 32 \<Longrightarrow> unescape [CHR 0x5C, CHR ''u'', CHR ''0'', CHR ''0'', to_hex (n div 16), to_hex (n mod 16)] = Some [char_of n]"
  using hex_round [of "n div 16"] hex_round [of "n mod 16"] by (simp add: from_hex_def [of "CHR ''0''"] utf8_def)

lemma unescape_escape_char: "unescape (escape_char c) = Some [c]"
proof (cases c rule: escape_char_cases)
  case (simple d)
  then show ?thesis by (auto simp: simple_escapes_def)
next
  case hex
  then show ?thesis using unescape_hex [of "of_char c"] by simp
qed simp

lemma unescape_escape: "unescape (escape str) = Some str"
  by (induction str) (simp_all add: escape_def unescape_append [OF unescape_escape_char])

text \<open>Whether the writer escapes anything.\<close>

definition escapes :: "string \<Rightarrow> bool" where
  "escapes str \<longleftrightarrow> (\<exists>c\<in>set str. escape_char c \<noteq> [c])"

lemma not_escapes: "\<not> escapes str \<Longrightarrow> escape str = str"
  by (induction str) (simp_all add: escape_def escapes_def)

lemma escaped_key: "key_of (escapes str, escape str) = Some str"
  by (cases "escapes str") (simp_all add: key_of_def unescape_escape not_escapes)

lemma scan_escape_char:
  "scan_string acc e (escape_char c @ s) = scan_string (acc @ escape_char c) (e \<or> escape_char c \<noteq> [c]) s"
proof (cases c rule: escape_char_cases)
  case plain
  then show ?thesis by (subst scan_string.simps) simp
next
  case (simple d)
  then have "d \<in> fst ` set simple_escapes" by force
  moreover from simple(2) have "d \<noteq> CHR ''u''" by (auto simp: simple_escapes_def)
  ultimately show ?thesis using simple(1) by (subst scan_string.simps) simp
next
  case hex
  let ?h = "[CHR ''0'', CHR ''0'', to_hex (of_char c div 16), to_hex (of_char c mod 16)]"
  have "is_hex (CHR ''0'')" by (simp add: is_hex_def)
  then have "hex_digits (Suc (Suc (Suc (Suc 0)))) (?h @ s) = Good ?h s"
    using hex_round [of "of_char c div 16"] hex_round [of "of_char c mod 16"] hex(2) by simp
  moreover have "4 = Suc (Suc (Suc (Suc 0)))" by simp
  ultimately have "hex_digits 4 (?h @ s) = Good ?h s" by (simp only:)
  then show ?thesis using hex(1) by (subst scan_string.simps) simp
qed

lemma scan_escape: "scan_string acc e (escape str @ CHR 0x22 # r) = Good (e \<or> escapes str, acc @ escape str) r"
proof (induction str arbitrary: acc e)
  case Nil
  then show ?case by (subst scan_string.simps) (simp add: escape_def escapes_def)
next
  case (Cons c str)
  have "scan_string acc e (escape (c # str) @ CHR 0x22 # r)
      = scan_string (acc @ escape_char c) (e \<or> escape_char c \<noteq> [c]) (escape str @ CHR 0x22 # r)"
    by (simp add: escape_def scan_escape_char)
  then show ?case by (simp add: Cons) (auto simp: escape_def escapes_def)
qed

lemma decode_dump_string: "decode_string (dump_string str @ r) = Good (escapes str, escape str) r"
  by (simp add: decode_string_def dump_string_def scan_escape)

section \<open>Numbers\<close>

lemma digit_0_code: "of_char (CHR ''0'') = (48 :: nat)"
  by simp

lemma digit_0: "char_of (48 :: nat) = CHR ''0''"
  by (metis char_of_char digit_0_code)

lemma is_digit_char_of: "n < 10 \<Longrightarrow> is_digit (char_of (48 + n))" for n :: nat
  by (simp add: is_digit_def)

lemma digit_code: "n < 10 \<Longrightarrow> of_char (char_of (48 + n)) = 48 + n" for n :: nat
  by simp

lemma list_all_digits: "list_all is_digit (digits n)"
proof (induction n rule: digits.induct)
  case (1 n)
  then show ?case by (subst digits.simps) (simp add: is_digit_char_of)
qed

lemma hd_digits: "n \<noteq> 0 \<Longrightarrow> digits n \<noteq> [] \<and> hd (digits n) \<noteq> CHR ''0''"
proof (induction n rule: digits.induct)
  case (1 n)
  show ?case
  proof (cases "n < 10")
    case True
    have "char_of (48 + n) \<noteq> CHR ''0''" using digit_code [OF True] 1(2) by (metis add_cancel_right_right digit_0_code)
    then show ?thesis using True by (subst (1 2) digits.simps) simp
  next
    case False
    then show ?thesis using 1 by (subst (1 2) digits.simps) simp
  qed
qed

lemma digits_0: "digits 0 = ''0''"
  by (subst digits.simps) (simp add: digit_0)

lemma decimal_snoc: "decimal (s @ [c]) = 10 * decimal s + (of_char c - 48)"
  by (simp add: decimal_def)

lemma decimal_digits: "decimal (digits n) = n"
proof (induction n rule: digits.induct)
  case (1 n)
  show ?case
  proof (cases "n < 10")
    case True
    then show ?thesis by (subst digits.simps) (simp add: decimal_def)
  next
    case False
    then show ?thesis using 1 by (subst digits.simps) (simp add: decimal_snoc)
  qed
qed

lemma number_loop_digits:
  assumes "state \<noteq> 7" and "ds \<noteq> []" and "list_all is_digit ds" and "hd ds \<noteq> CHR ''0''" and "\<not> is_digit x"
  shows "number_loop state acc (ds @ x # r) = number_loop ([3, 3, 7, 3, 4, 6, 6] ! state) (acc @ ds) (x # r)"
proof -
  obtain c cs where ds: "ds = c # cs" using assms(2) by (cases ds) auto
  then have "takeWhile is_digit (cs @ x # r) = cs" "dropWhile is_digit (cs @ x # r) = x # r"
    using assms(3,5) by (simp_all add: takeWhile_append dropWhile_append list_all_iff)
  then show ?thesis using number_loop_digit [OF assms(1), of c "cs @ x # r" x r acc] assms(3,4) ds by simp
qed

text \<open>The integer part of a number, from the start or behind the sign.\<close>

lemma number_loop_integer:
  assumes "state \<in> {0, 1}" and "\<not> is_digit x"
  shows "\<exists>state'\<in>{2, 3}. number_loop state acc (digits n @ x # r) = number_loop state' (acc @ digits n) (x # r)"
proof (cases "n = 0")
  case True
  have "[2, 2, 7, 3, 4, 6, 6] ! state = (2 :: nat)" "state \<noteq> 7" using assms(1) by auto
  then show ?thesis using number_loop_steps(1) [of state acc "x # r"] True by (simp add: digits_0)
next
  case False
  have "[3, 3, 7, 3, 4, 6, 6] ! state = (3 :: nat)" "state \<noteq> 7" using assms(1) by auto
  then show ?thesis using number_loop_digits [OF _ _ list_all_digits, of state n x acc r] hd_digits [OF False] assms(2) by simp
qed

lemma number_loop_fraction:
  assumes "list_all is_digit fs" and "\<not> is_digit x"
  shows "number_loop 4 acc (fs @ x # r) = number_loop 4 (acc @ fs) (x # r)"
  using assms(1)
proof (induction fs arbitrary: acc)
  case (Cons f fs)
  show ?case
  proof (cases "f = CHR ''0''")
    case True
    then show ?thesis using number_loop_steps(1) [of 4 acc "fs @ x # r"] Cons by simp
  next
    case False
    then show ?thesis using number_loop_digits [of 4 "f # fs" x acc r] Cons.prems assms(2) by simp
  qed
qed simp

text \<open>A number as \<open>%f\<close> prints it: sign, integer part, point and fraction.\<close>

definition fixed_text :: "bool \<Rightarrow> nat \<Rightarrow> string \<Rightarrow> string" where
  "fixed_text neg n fs = (if neg then ''-'' else []) @ digits n @ CHR ''.'' # fs"

definition prints_fixed :: "string \<Rightarrow> bool" where
  "prints_fixed t \<longleftrightarrow> length t < 128 \<and> (\<exists>neg n fs. t = fixed_text neg n fs \<and> fs \<noteq> [] \<and> list_all is_digit fs)"

lemma trailing_zero_start:
  "CHR ''.'' \<notin> set xs \<Longrightarrow> trailing_zero F_start p pos (xs @ s) = trailing_zero F_start (p + length xs) pos s"
  by (induction xs arbitrary: p) auto

text \<open>Behind the point, the recorded position is where the zeros at the end begin.\<close>

lemma trailing_zero_zeros: "trailing_zero F_zero p pos (replicate k (CHR ''0'')) = pos"
  by (induction k arbitrary: p) simp_all

lemma trailing_zero_kept:
  "fs \<noteq> [] \<Longrightarrow> last fs \<noteq> CHR ''0'' \<Longrightarrow> trailing_zero F_decp p None (fs @ s) = trailing_zero F_decp (p + length fs) None s"
  "fs \<noteq> [] \<Longrightarrow> last fs \<noteq> CHR ''0'' \<Longrightarrow> trailing_zero F_zero p pos (fs @ s) = trailing_zero F_decp (p + length fs) None s"
proof (induction fs arbitrary: p pos)
  case (Cons f fs)
  { case 1
    then show ?case using Cons.IH [of "Suc p"] by (cases "fs = []") auto
  next
    case 2
    then show ?case using Cons.IH [of "Suc p"] by (cases "fs = []") auto
  }
qed simp_all

lemma trailing_zero_digits:
  assumes "fs = [] \<or> last fs \<noteq> CHR ''0''"
  shows "trailing_zero F_decp p None (fs @ replicate k (CHR ''0'')) = (if k = 0 then None else Some (p + length fs))"
proof -
  have "trailing_zero F_decp p None (fs @ replicate k (CHR ''0'')) = trailing_zero F_decp (p + length fs) None (replicate k (CHR ''0''))"
    using assms trailing_zero_kept(1) by (cases "fs = []") auto
  then show ?thesis by (cases k) (simp_all add: trailing_zero_zeros)
qed

lemma split_zeros: "\<exists>ys k. xs = ys @ replicate k (CHR ''0'') \<and> (ys = [] \<or> last ys \<noteq> CHR ''0'')"
proof (induction xs rule: rev_induct)
  case (snoc x xs)
  then obtain ys k where "xs = ys @ replicate k (CHR ''0'')" "ys = [] \<or> last ys \<noteq> CHR ''0''" by blast
  then show ?case
  proof (cases "x = CHR ''0''")
    case True
    then have "xs @ [x] = ys @ replicate (Suc k) (CHR ''0'')"
      using \<open>xs = _\<close> by (simp add: replicate_append_same flip: replicate_Suc)
    then show ?thesis using \<open>ys = [] \<or> _\<close> by blast
  next
    case False
    then show ?thesis by (intro exI [of _ "xs @ [x]"] exI [of _ 0]) simp
  qed
qed simp

lemma digits_no_point: "CHR ''.'' \<notin> set ((if neg then ''-'' else []) @ digits n)"
  using list_all_digits [of n] by (auto simp: list_all_iff is_digit_def)

lemma trim_fixed:
  assumes "fs \<noteq> []"
  shows "\<exists>gs k. fs = gs @ replicate k (CHR ''0'') \<and> gs \<noteq> [] \<and>
    (case trailing_zero F_start 0 None (fixed_text neg n fs) of None \<Rightarrow> fixed_text neg n fs | Some p \<Rightarrow> take p (fixed_text neg n fs))
      = fixed_text neg n gs"
proof -
  define pre where "pre = (if neg then ''-'' else []) @ digits n"
  obtain f fs' where fs: "fs = f # fs'" using assms by (cases fs) auto
  have form: "fixed_text neg n gs = pre @ CHR ''.'' # gs" for gs by (simp add: fixed_text_def pre_def)
  have scan: "trailing_zero F_start 0 None (fixed_text neg n fs) =
    (if f = CHR ''0'' then trailing_zero F_decp (length pre + 2) None fs' else trailing_zero F_decp (length pre + 1) None fs)"
    unfolding form using trailing_zero_start [of pre 0 None "CHR ''.'' # fs"] digits_no_point [of neg n] by (simp add: pre_def fs)
  show ?thesis
  proof (cases "f = CHR ''0''")
    case True
    obtain ys k where ys: "fs' = ys @ replicate k (CHR ''0'')" "ys = [] \<or> last ys \<noteq> CHR ''0''" using split_zeros by blast
    show ?thesis
      by (rule exI [of _ "f # ys"], rule exI [of _ k])
        (use True scan trailing_zero_digits [OF ys(2), of "length pre + 2" k] in \<open>simp add: fs ys(1) form\<close>)
  next
    case False
    obtain ys k where ys: "fs = ys @ replicate k (CHR ''0'')" "ys = [] \<or> last ys \<noteq> CHR ''0''" using split_zeros by blast
    have "ys \<noteq> []" using ys(1) fs False by (cases k) auto
    then show ?thesis
      by (intro exI [of _ ys] exI [of _ k])
        (use False scan trailing_zero_digits [OF ys(2), of "length pre + 1" k] in \<open>simp add: ys(1) form\<close>)
  qed
qed

lemma numeric_digit: "\<not> numeric x \<Longrightarrow> \<not> is_digit x"
  by (simp add: numeric_def)

lemma number_loop_signed:
  assumes "\<not> is_digit x"
  shows "\<exists>state\<in>{2, 3}. number_loop 0 [] (((if neg then ''-'' else []) @ digits n) @ x # r)
    = number_loop state ((if neg then ''-'' else []) @ digits n) (x # r)"
proof (cases neg)
  case True
  have "[1, 7, 7, 7, 7, 6, 7] ! 0 = (1 :: nat)" by simp
  then show ?thesis
    using number_loop_integer [of 1 x "''-''" n r] number_loop_steps(3) [of 0 "[]" "digits n @ x # r"] True assms by simp
next
  case False
  then show ?thesis using number_loop_integer [of 0 x "[]" n r] assms by simp
qed

text \<open>The texts of numbers: they are read as they are, up to the first character that cannot go on a number.\<close>

definition number_text :: "string \<Rightarrow> bool" where
  "number_text t \<longleftrightarrow> (\<exists>c t'. t = c # t' \<and> (c = CHR ''-'' \<or> is_digit c)) \<and>
     (\<forall>x r. \<not> numeric x \<longrightarrow> number_loop 0 [] (t @ x # r) = Good t (x # r))"

lemma signed_start: "\<exists>c t'. (if neg then ''-'' else []) @ digits n @ s = c # t' \<and> (c = CHR ''-'' \<or> is_digit c)"
  using list_all_digits [of n] hd_digits [of n] by (cases "digits n"; cases "n = 0") (auto simp: digits_0)

lemma number_text_signed: "number_text ((if neg then ''-'' else []) @ digits n)"
  unfolding number_text_def
proof (intro conjI allI impI)
  fix x r
  assume x: "\<not> numeric x"
  obtain state where st: "state \<in> {2, 3}" "number_loop 0 [] (((if neg then ''-'' else []) @ digits n) @ x # r)
    = number_loop state ((if neg then ''-'' else []) @ digits n) (x # r)"
    using number_loop_signed [OF numeric_digit [OF x]] by blast
  show "number_loop 0 [] (((if neg then ''-'' else []) @ digits n) @ x # r) = Good ((if neg then ''-'' else []) @ digits n) (x # r)"
    unfolding st(2) using number_loop_end [OF _ x] st(1) by auto
qed (use signed_start [of neg n "[]"] in simp)

lemma number_text_to_string: "number_text (to_string i)"
  using number_text_signed [of "i < 0" "nat \<bar>i\<bar>"] by (cases "i < 0") (simp_all add: to_string_def)

lemma number_text_fixed:
  assumes "list_all is_digit fs"
  shows "number_text (fixed_text neg n fs)"
  unfolding number_text_def
proof (intro conjI allI impI)
  fix x r
  assume x: "\<not> numeric x"
  let ?pre = "(if neg then ''-'' else []) @ digits n"
  have "\<not> is_digit (CHR ''.'')" by (simp add: is_digit_def)
  then obtain state where st: "state \<in> {2, 3}"
    "number_loop 0 [] (?pre @ CHR ''.'' # fs @ x # r) = number_loop state ?pre (CHR ''.'' # fs @ x # r)"
    using number_loop_signed by blast
  then have "number_loop state ?pre (CHR ''.'' # fs @ x # r) = number_loop 4 (?pre @ ''.'') (fs @ x # r)"
    using number_loop_steps(2) [of state ?pre "fs @ x # r"] by auto
  also have "\<dots> = number_loop 4 (?pre @ ''.'' @ fs) (x # r)"
    using number_loop_fraction [OF assms numeric_digit [OF x], of "?pre @ ''.''" r] by simp
  also have "\<dots> = Good (?pre @ ''.'' @ fs) (x # r)" using number_loop_end [OF _ x, of 4] by simp
  finally show "number_loop 0 [] (fixed_text neg n fs @ x # r) = Good (fixed_text neg n fs) (x # r)"
    using st(2) by (simp add: fixed_text_def)
qed (use signed_start [of neg n "CHR ''.'' # fs"] in \<open>simp add: fixed_text_def\<close>)

text \<open>A float printed by \<open>%f\<close> is written with the same value: only zeros at the end of the fraction are missing.\<close>

lemma decimal_zeros: "decimal (gs @ replicate k (CHR ''0'')) = 10 ^ k * decimal gs"
proof (induction k)
  case (Suc k)
  have "gs @ replicate (Suc k) (CHR ''0'') = (gs @ replicate k (CHR ''0'')) @ [CHR ''0'']" by (simp add: replicate_append_same)
  then show ?case by (simp only: decimal_snoc Suc.IH digit_0_code) simp
qed simp

lemma dump_float_value:
  assumes "pf double d = fixed_text neg n fs" and "fs \<noteq> []" and "length (pf double d) < 128"
  shows "\<exists>gs. dump_float pf double (Some d) = fixed_text neg n gs \<and> gs \<noteq> [] \<and>
    real (decimal gs) / 10 ^ length gs = real (decimal fs) / 10 ^ length fs"
proof -
  obtain gs k where gs: "fs = gs @ replicate k (CHR ''0'')" "gs \<noteq> []"
    "(case trailing_zero F_start 0 None (fixed_text neg n fs) of None \<Rightarrow> fixed_text neg n fs | Some p \<Rightarrow> take p (fixed_text neg n fs))
      = fixed_text neg n gs"
    using trim_fixed [OF assms(2)] by blast
  have "take 127 (pf double d) = fixed_text neg n fs" using assms by simp
  then have "dump_float pf double (Some d) = fixed_text neg n gs" by (simp add: dump_float_def gs(3) Let_def)
  moreover have "real (decimal gs) / 10 ^ length gs = real (decimal fs) / 10 ^ length fs"
    by (simp add: gs(1) decimal_zeros power_add)
  ultimately show ?thesis using gs(2) by blast
qed

lemma dump_float_fixed:
  assumes "prints_fixed (pf double d)"
  shows "number_text (dump_float pf double (Some d))"
proof -
  obtain neg n fs where t: "length (pf double d) < 128" "pf double d = fixed_text neg n fs" "fs \<noteq> []" "list_all is_digit fs"
    using assms by (auto simp: prints_fixed_def)
  obtain gs k where gs: "fs = gs @ replicate k (CHR ''0'')"
    "(case trailing_zero F_start 0 None (fixed_text neg n fs) of None \<Rightarrow> fixed_text neg n fs | Some p \<Rightarrow> take p (fixed_text neg n fs))
      = fixed_text neg n gs"
    using trim_fixed [OF t(3)] by blast
  have "take 127 (pf double d) = fixed_text neg n fs" using t(1,2) by simp
  then have "dump_float pf double (Some d) = fixed_text neg n gs" by (simp add: dump_float_def gs(2) Let_def)
  then show ?thesis using number_text_fixed [of gs neg n] t(4) gs(1) by simp
qed

section \<open>Reading back\<close>

text \<open>What the reader makes of a written value.\<close>

fun r_of :: "(bool \<Rightarrow> real \<Rightarrow> string) \<Rightarrow> wvalue \<Rightarrow> rvalue" where
  "r_of pf WNull = RNull"
| "r_of pf WFalse = RFalse"
| "r_of pf WTrue = RTrue"
| "r_of pf (WSigned si) = RNumber (to_string (sint si))"
| "r_of pf (WUnsigned ui) = RNumber (to_string (uint ui))"
| "r_of pf (WFloat double d) = (if d = None then RNull else RNumber (dump_float pf double d))"
| "r_of pf (WString s) = RString (escapes s) (escape s)"
| "r_of pf (WList l) = RList (map (r_of pf) l)"
| "r_of pf (WObject ms) = RObject (map (\<lambda>(k, v). (k, r_of pf v)) ms)"
| "r_of pf WFunction = RNull"

text \<open>No functions, and floats that print without exponent.\<close>

fun printable :: "(bool \<Rightarrow> real \<Rightarrow> string) \<Rightarrow> wvalue \<Rightarrow> bool" where
  "printable pf (WFloat double d) \<longleftrightarrow> (case d of None \<Rightarrow> True | Some x \<Rightarrow> prints_fixed (pf double x))"
| "printable pf (WList l) \<longleftrightarrow> (\<forall>v\<in>set l. printable pf v)"
| "printable pf (WObject ms) \<longleftrightarrow> (\<forall>(k, v)\<in>set ms. printable pf v)"
| "printable pf WFunction \<longleftrightarrow> False"
| "printable pf v \<longleftrightarrow> True"

fun nesting :: "wvalue \<Rightarrow> nat" where
  "nesting (WList l) = Suc (foldr max (map nesting l) 0)"
| "nesting (WObject ms) = Suc (foldr max (map (\<lambda>(k, v). nesting v) ms) 0)"
| "nesting v = 0"

lemma foldr_max_le: "x \<in> set xs \<Longrightarrow> x \<le> foldr max xs (0 :: nat)"
  by (induction xs) auto

lemma is_ws_numeric: "is_ws c \<Longrightarrow> \<not> numeric c"
  by (auto simp: is_ws_def numeric_def is_digit_def)

lemma ws_skip_ws: "list_all is_ws w \<Longrightarrow> ws_skip (w @ s) = ws_skip s"
  by (induction w) simp_all

lemma marks [simp]:
  "\<not> numeric (CHR '']'')" "\<not> numeric (CHR ''}'')" "\<not> numeric (CHR '','')" "\<not> is_ws (CHR '']'')" "\<not> is_ws (CHR ''}'')"
  "\<not> is_ws (CHR '','')" "\<not> is_ws (CHR '':'')" "is_ws (CHR '' '')" "is_ws (CHR 0x0A)"
  by (simp_all add: numeric_def is_digit_def is_ws_def)

lemma indentation_ws: "is_ws sep \<Longrightarrow> list_all is_ws (dump_indentation_part indent sep level)"
  by (auto simp: dump_indentation_part_def list_all_iff)

text \<open>What may follow an element: white space, a comma or the end.\<close>

lemma elements_start:
  assumes "list_all is_ws w" and "x \<in> {CHR '']'', CHR ''}''}"
  shows "\<exists>y ys. dump_elements nl False xs @ w @ x # r = y # ys \<and> \<not> numeric y"
proof (cases xs)
  case Nil
  show ?thesis using Nil assms by (cases w) (auto dest: is_ws_numeric)
qed simp

definition starts :: "string \<Rightarrow> bool" where
  "starts t \<longleftrightarrow> (\<exists>c t'. t = c # t' \<and> \<not> is_ws c \<and> c \<noteq> CHR '']'' \<and> c \<noteq> CHR ''}'')"

lemma ws_skip_starts: "starts t \<Longrightarrow> ws_skip (t @ s) = Good () (t @ s)"
  by (auto simp: starts_def)

lemma list_loop_elements:
  assumes "list_all is_ws nl" and "list_all is_ws w" and "\<forall>v\<in>set vs. starts (D v)"
    and "\<And>v m x r. v \<in> set vs \<Longrightarrow> \<not> numeric x \<Longrightarrow> 3 * length (D v @ x # r) + 1 \<le> m \<Longrightarrow>
      decode_value m (depth + 1) (D v @ x # r) = Good (R v) (x # r)"
    and "vs \<noteq> []" and "3 * length (dump_elements nl True (map D vs) @ w @ CHR '']'' # r) + 2 \<le> n"
  shows "list_loop n depth acc (dump_elements nl True (map D vs) @ w @ CHR '']'' # r) = Good (RList (acc @ map R vs)) r"
  using assms(3-6)
proof (induction vs arbitrary: acc n)
  case (Cons v vs)
  define rest where "rest = dump_elements nl False (map D vs) @ w @ CHR '']'' # r"
  obtain y ys where rest: "rest = y # ys" "\<not> numeric y" using elements_start [OF assms(2)] unfolding rest_def by blast
  obtain m where n: "n = Suc m" using Cons.prems by (cases n) auto
  have eq: "dump_elements nl True (map D (v # vs)) @ w @ CHR '']'' # r = D v @ rest" by (simp add: rest_def)
  have dv: "decode_value m (depth + 1) (D v @ rest) = Good (R v) rest"
  proof -
    have "3 * length (D v @ rest) + 1 \<le> m" using Cons.prems(4) n by (simp add: rest_def)
    then show ?thesis using Cons.prems(2) [of v y ys m] rest by simp
  qed
  show ?case
  proof (cases vs)
    case Nil
    have "ws_skip rest = Good () (CHR '']'' # r)" using ws_skip_ws [OF assms(2)] by (simp add: rest_def Nil)
    then show ?thesis unfolding eq n list_loop.simps dv by (simp add: Nil)
  next
    case (Cons b vs')
    have skip: "ws_skip rest = Good () rest" "rest = CHR '','' # nl @ dump_elements nl True (map D vs) @ w @ CHR '']'' # r"
      by (simp_all add: rest_def Cons)
    have "starts (D b)" using Cons.prems(1) Cons by simp
    then have skip2: "ws_skip (nl @ dump_elements nl True (map D vs) @ w @ CHR '']'' # r) = Good () (dump_elements nl True (map D vs) @ w @ CHR '']'' # r)"
      using ws_skip_ws [OF assms(1)] ws_skip_starts [of "D b"] by (simp add: Cons)
    have "list_loop m depth (acc @ [R v]) (dump_elements nl True (map D vs) @ w @ CHR '']'' # r) = Good (RList ((acc @ [R v]) @ map R vs)) r"
      by (rule Cons.IH) (use Cons.prems Cons n skip(2) in \<open>auto simp: rest_def\<close>)
    then show ?thesis unfolding eq n list_loop.simps dv using skip skip2 by simp
  qed
qed simp

lemma starts_dump_string: "starts (dump_string k @ t)"
  by (simp add: starts_def dump_string_def is_ws_def)

lemma object_loop_elements:
  fixes D :: "'a \<Rightarrow> string" and R :: "'a \<Rightarrow> rvalue" and sp :: string
  defines "E \<equiv> \<lambda>(k, v). dump_string k @ CHR '':'' # sp @ D v"
  assumes "list_all is_ws nl" and "list_all is_ws w" and "list_all is_ws sp" and "\<forall>(k, v)\<in>set ms. starts (D v)"
    and "\<And>k v m x r. (k, v) \<in> set ms \<Longrightarrow> \<not> numeric x \<Longrightarrow> 3 * length (D v @ x # r) + 1 \<le> m \<Longrightarrow>
      decode_value m (depth + 1) (D v @ x # r) = Good (R v) (x # r)"
    and "ms \<noteq> []" and "3 * length (dump_elements nl True (map E ms) @ w @ CHR ''}'' # r) + 2 \<le> n"
  shows "object_loop n depth acc (dump_elements nl True (map E ms) @ w @ CHR ''}'' # r)
    = Good (RObject (acc @ map (\<lambda>(k, v). (k, R v)) ms)) r"
  using assms(5-8)
proof (induction ms arbitrary: acc n)
  case (Cons kv ms)
  obtain k v where kv: "kv = (k, v)" by (cases kv)
  define rest where "rest = dump_elements nl False (map E ms) @ w @ CHR ''}'' # r"
  obtain y ys where rest: "rest = y # ys" "\<not> numeric y" using elements_start [OF assms(3)] unfolding rest_def by blast
  obtain m where n: "n = Suc m" using Cons.prems by (cases n) auto
  have eq: "dump_elements nl True (map E (kv # ms)) @ w @ CHR ''}'' # r = dump_string k @ CHR '':'' # sp @ D v @ rest"
    by (simp add: rest_def kv E_def)
  have dv: "decode_value m (depth + 1) (D v @ rest) = Good (R v) rest"
  proof -
    have "3 * length (D v @ rest) + 1 \<le> m" using Cons.prems(4) n by (simp add: rest_def kv E_def)
    then show ?thesis using Cons.prems(2) [of k v y ys m] rest kv by simp
  qed
  have "starts (D v)" using Cons.prems(1) kv by simp
  then have sp: "ws_skip (sp @ D v @ rest) = Good () (D v @ rest)"
    using ws_skip_ws [OF assms(4)] ws_skip_starts by simp
  show ?case
  proof (cases ms)
    case Nil
    have "ws_skip rest = Good () (CHR ''}'' # r)" using ws_skip_ws [OF assms(3)] by (simp add: rest_def Nil)
    then show ?thesis unfolding eq n object_loop.simps decode_dump_string using dv sp by (simp add: Nil escaped_key kv)
  next
    case (Cons b ms')
    have skip: "ws_skip rest = Good () rest" "rest = CHR '','' # nl @ dump_elements nl True (map E ms) @ w @ CHR ''}'' # r"
      by (simp_all add: rest_def Cons)
    have "starts (E b)" using starts_dump_string by (cases b) (simp add: E_def)
    then have skip2: "ws_skip (nl @ dump_elements nl True (map E ms) @ w @ CHR ''}'' # r) = Good () (dump_elements nl True (map E ms) @ w @ CHR ''}'' # r)"
      using ws_skip_ws [OF assms(2)] ws_skip_starts [of "E b"] by (simp add: Cons)
    have "object_loop m depth (acc @ [(k, R v)]) (dump_elements nl True (map E ms) @ w @ CHR ''}'' # r)
      = Good (RObject ((acc @ [(k, R v)]) @ map (\<lambda>(k, v). (k, R v)) ms)) r"
    proof (rule Cons.IH)
      show "3 * length (dump_elements nl True (map E ms) @ w @ CHR ''}'' # r) + 2 \<le> m"
        using Cons.prems(4) n skip(2) unfolding eq by simp
      show "decode_value m (depth + 1) (D v @ x # r) = Good (R v) (x # r)"
        if "(k, v) \<in> set ms" "\<not> numeric x" "3 * length (D v @ x # r) + 1 \<le> m" for k v m x r
        by (rule Cons.prems(2) [of k]) (use that in simp_all)
    qed (use Cons.prems(1) Cons in auto)
    then show ?thesis unfolding eq n object_loop.simps decode_dump_string using dv sp skip skip2 by (simp add: escaped_key kv)
  qed
qed simp

lemma number_text_starts: "number_text t \<Longrightarrow> starts t"
  by (auto simp: number_text_def starts_def is_ws_def is_digit_def)

lemma dump_starts: "printable pf v \<Longrightarrow> starts (dump_internal pf indent sep level v)"
proof (cases v)
  case (WFloat double d)
  assume "printable pf v"
  then show ?thesis using WFloat dump_float_fixed [of pf double] number_text_starts
    by (cases d) (auto simp: dump_float_def starts_def is_ws_def)
next
  case (WString s)
  then show ?thesis using starts_dump_string [of s "[]"] by simp
qed (auto simp: number_text_starts [OF number_text_to_string], auto simp: starts_def is_ws_def)

lemma decode_number_text:
  assumes "number_text t" and "\<not> numeric x"
  shows "decode_value (Suc n) depth (t @ x # r) = Good (RNumber t) (x # r)"
proof -
  obtain c t' where t: "t = c # t'" "c = CHR ''-'' \<or> is_digit c" using assms(1) by (auto simp: number_text_def)
  have "c \<notin> {CHR ''['', CHR ''{'', CHR 0x22, CHR ''t'', CHR ''f'', CHR ''n''}" using t(2) by (auto simp: is_digit_def)
  then have "decode_value (Suc n) depth (t @ x # r) = decode_number (t @ x # r)" by (simp add: t(1))
  then show ?thesis using assms by (simp add: decode_number_def number_text_def)
qed

lemma decode_literals:
  assumes "0 < n"
  shows "decode_value n depth (''null'' @ s) = Good RNull s" "decode_value n depth (''false'' @ s) = Good RFalse s"
    "decode_value n depth (''true'' @ s) = Good RTrue s"
  using assms by (cases n; simp)+

text \<open>Containers, given that their elements are read back.\<close>

lemma decode_value_list:
  assumes ws: "list_all is_ws nl" "list_all is_ws w" and st: "\<forall>v\<in>set l. starts (D v)"
    and dec: "\<And>v m x r. v \<in> set l \<Longrightarrow> \<not> numeric x \<Longrightarrow> 3 * length (D v @ x # r) + 1 \<le> m \<Longrightarrow>
      decode_value m (depth + 1 + 1) (D v @ x # r) = Good (f v) (x # r)"
    and depth: "\<not> depth + 1 > max_depth"
    and n: "3 * length (CHR ''['' # nl @ dump_elements nl True (map D l) @ w @ CHR '']'' # x # r) + 1 \<le> n"
  shows "decode_value n depth (CHR ''['' # nl @ dump_elements nl True (map D l) @ w @ CHR '']'' # x # r) = Good (RList (map f l)) (x # r)"
proof -
  obtain m where m: "n = Suc (Suc m)" using n by (cases n; cases "n - 1") auto
  show ?thesis
  proof (cases "l = []")
    case True
    then have "ws_skip (nl @ w @ CHR '']'' # x # r) = Good () (CHR '']'' # x # r)"
      using ws_skip_ws [OF ws(1)] ws_skip_ws [OF ws(2)] by simp
    then show ?thesis unfolding m using True depth by simp
  next
    case False
    have skip: "ws_skip (nl @ dump_elements nl True (map D l) @ w @ CHR '']'' # x # r) = Good () (dump_elements nl True (map D l) @ w @ CHR '']'' # x # r)"
      using st False ws_skip_ws [OF ws(1)] ws_skip_starts by (cases l) auto
    obtain c t where hd: "dump_elements nl True (map D l) @ w @ CHR '']'' # x # r = c # t" "c \<noteq> CHR '']''"
      using False st by (cases l) (auto simp: starts_def)
    have "list_loop m (depth + 1) [] (dump_elements nl True (map D l) @ w @ CHR '']'' # x # r) = Good (RList ([] @ map f l)) (x # r)"
      by (rule list_loop_elements [OF ws st dec False]) (use n m in simp_all)
    then show ?thesis unfolding m using skip hd depth by simp
  qed
qed

lemma decode_value_object:
  assumes ws: "list_all is_ws nl" "list_all is_ws w" "list_all is_ws sp" and st: "\<forall>(k, v)\<in>set ms. starts (D v)"
    and dec: "\<And>k v m x r. (k, v) \<in> set ms \<Longrightarrow> \<not> numeric x \<Longrightarrow> 3 * length (D v @ x # r) + 1 \<le> m \<Longrightarrow>
      decode_value m (depth + 1 + 1) (D v @ x # r) = Good (f v) (x # r)"
    and depth: "\<not> depth + 1 > max_depth"
  defines "E \<equiv> \<lambda>(k, v). dump_string k @ CHR '':'' # sp @ D v"
  assumes n: "3 * length (CHR ''{'' # nl @ dump_elements nl True (map E ms) @ w @ CHR ''}'' # x # r) + 1 \<le> n"
  shows "decode_value n depth (CHR ''{'' # nl @ dump_elements nl True (map E ms) @ w @ CHR ''}'' # x # r) =
    Good (RObject (map (\<lambda>(k, v). (k, f v)) ms)) (x # r)"
proof -
  obtain m where m: "n = Suc (Suc m)" using n by (cases n; cases "n - 1") auto
  show ?thesis
  proof (cases ms)
    case Nil
    then have "ws_skip (nl @ w @ CHR ''}'' # x # r) = Good () (CHR ''}'' # x # r)"
      using ws_skip_ws [OF ws(1)] ws_skip_ws [OF ws(2)] by simp
    then show ?thesis unfolding m using Nil depth by simp
  next
    case (Cons kv ms')
    then have False: "ms \<noteq> []" by simp
    have "starts (E kv)" using starts_dump_string by (cases kv) (simp add: E_def)
    then obtain c t where hd: "dump_elements nl True (map E ms) @ w @ CHR ''}'' # x # r = c # t" "c \<noteq> CHR ''}''" "\<not> is_ws c"
      by (auto simp: starts_def Cons)
    have skip: "ws_skip (nl @ c # t) = Good () (c # t)" using ws_skip_ws [OF ws(1)] hd(3) by simp
    have "object_loop m (depth + 1) [] (dump_elements nl True (map E ms) @ w @ CHR ''}'' # x # r)
      = Good (RObject ([] @ map (\<lambda>(k, v). (k, f v)) ms)) (x # r)"
      unfolding E_def by (rule object_loop_elements [OF ws st dec False]) (use n m in \<open>simp_all add: E_def\<close>)
    then show ?thesis unfolding m hd(1) using skip hd(2) depth by simp
  qed
qed

lemma decode_dump:
  assumes sep: "is_ws sep"
  shows "printable pf v \<Longrightarrow> \<not> numeric x \<Longrightarrow> depth + 2 * nesting v \<le> 10001 \<Longrightarrow>
    3 * length (dump_internal pf indent sep level v @ x # r) + 1 \<le> n \<Longrightarrow>
    decode_value n depth (dump_internal pf indent sep level v @ x # r) = Good (r_of pf v) (x # r)"
proof (induction v arbitrary: n depth level x r)
  case (WFloat double d)
  then obtain m where "n = Suc m" by (cases n) auto
  then show ?case using WFloat.prems dump_float_fixed [of pf double] decode_number_text
    by (cases d) (auto simp: dump_float_def)
next
  case (WSigned si)
  then obtain m where "n = Suc m" by (cases n) auto
  then show ?case using WSigned.prems decode_number_text [OF number_text_to_string] by simp
next
  case (WUnsigned ui)
  then obtain m where "n = Suc m" by (cases n) auto
  then show ?case using WUnsigned.prems decode_number_text [OF number_text_to_string] by simp
next
  case (WString s)
  then obtain m where "n = Suc m" by (cases n) auto
  moreover have "dump_string s @ x # r = CHR 0x22 # escape s @ CHR 0x22 # x # r" by (simp add: dump_string_def)
  ultimately show ?case using decode_dump_string [of s "x # r"] by simp
next
  case (WList l)
  note ws = indentation_ws [OF sep, of indent "level + 1"] indentation_ws [OF sep, of indent level]
  have "nesting v \<le> foldr max (map nesting l) 0" if "v \<in> set l" for v using that by (intro foldr_max_le) simp
  then show ?case
    using decode_value_list [OF ws, of l "dump_internal pf indent sep (level + 1)" depth "r_of pf" x r n] WList dump_starts
    by (fastforce simp: max_depth_def)
next
  case (WObject ms)
  note ws = indentation_ws [OF sep, of indent "level + 1"] indentation_ws [OF sep, of indent level]
  have sp: "list_all is_ws (if indent \<ge> 0 then '' '' else [])" by simp
  have "nesting v \<le> foldr max (map (\<lambda>(k, v). nesting v) ms) 0" if "(k, v) \<in> set ms" for k v
    using that by (intro foldr_max_le) force
  then show ?case
    using decode_value_object [OF ws sp, of ms "dump_internal pf indent sep (level + 1)" depth "r_of pf" x r n] WObject dump_starts
    by (fastforce simp: max_depth_def)
qed (simp_all add: decode_literals [simplified])

lemma load_dump:
  assumes "printable pf v" and "nesting v \<le> 5000" and "is_ws sep"
  shows "load (dump pf indent sep v) = Good (r_of pf v) [NUL]"
proof -
  let ?s = "dump pf indent sep v @ [NUL]"
  have "starts (dump pf indent sep v)" unfolding dump_def by (rule dump_starts [OF assms(1)])
  then have ws: "ws_skip ?s = Good () ?s" by (rule ws_skip_starts)
  have v: "decode_value (3 * length ?s + 1) 0 ?s = Good (r_of pf v) [NUL]"
    unfolding dump_def by (rule decode_dump [OF assms(3,1)]) (use assms(2) in simp_all)
  have "ws_skip [NUL] = Good () [NUL]" by (simp add: is_ws_def)
  then show ?thesis unfolding load_def ws bind_parse.simps v by simp
qed

text \<open>One list inside of another costs two levels.\<close>

lemma too_deep:
  "10000 < depth + 2 * k \<Longrightarrow> 3 * length (replicate k (CHR ''['') @ CHR ''['' # s) \<le> n \<Longrightarrow>
    decode_list n depth (replicate k (CHR ''['') @ CHR ''['' # s) = Bad"
proof (induction k arbitrary: depth n)
  case 0
  then show ?case by (cases n) (simp_all add: max_depth_def)
next
  case (Suc k)
  obtain m where n: "n = Suc (Suc (Suc m))" using Suc.prems(2) by (cases n; cases "n - 1"; cases "n - 2") auto
  let ?t = "replicate k (CHR ''['') @ CHR ''['' # s"
  obtain t' where t: "?t = CHR ''['' # t'" by (cases k) auto
  have bad: "decode_list m (depth + 2) ?t = Bad" by (rule Suc.IH) (use Suc.prems n in simp_all)
  have "decode_value (Suc m) (depth + 1) ?t = Bad" using bad unfolding t by simp
  moreover have "ws_skip ?t = Good () ?t" unfolding t by (simp add: is_ws_def)
  ultimately show ?case using t by (simp add: n)
qed

lemma load_too_deep: "load (replicate (5001 + k) (CHR ''['') @ s) = Bad"
proof -
  let ?s = "(replicate (5001 + k) (CHR ''['') @ s) @ [NUL]"
  have split: "?s = replicate (5000 + k) (CHR ''['') @ CHR ''['' # s @ [NUL]"
    using replicate_Suc [of "5000 + k" "CHR ''[''"] by (simp add: replicate_app_Cons_same)
  obtain t where t: "?s = CHR ''['' # t" using replicate_Suc [of "5000 + k" "CHR ''[''"] by simp
  have "ws_skip ?s = Good () ?s" unfolding t by (simp add: is_ws_def)
  moreover have bad: "decode_list (3 * length ?s) 1 ?s = Bad" unfolding split by (rule too_deep) simp_all
  have "decode_value (Suc n) 0 (CHR ''['' # t) = decode_list n 1 (CHR ''['' # t)" for n by simp
  then have "decode_value (Suc (3 * length ?s)) 0 ?s = Bad" using bad unfolding t by (simp only:)
  ultimately show ?thesis unfolding load_def by (simp only: bind_parse.simps Suc_eq_plus1)
qed

lemma takeWhile_digits: "takeWhile is_digit (digits n) = digits n"
  using list_all_digits [of n] by (simp add: list_all_iff takeWhile_eq_all_conv)

text \<open>A stream finds neither white space nor a sign before the digits.\<close>

lemma digits_extraction:
  "dropWhile (\<lambda>c. of_char c \<in> {9, 10, 11, 12, 13, 32 :: nat}) (digits n) = digits n"
  "\<not> (digits n \<noteq> [] \<and> hd (digits n) = CHR ''-'')"
  "\<not> (digits n \<noteq> [] \<and> hd (digits n) \<in> {CHR ''-'', CHR ''+''})"
proof -
  obtain c t where ct: "digits n = c # t" using signed_start [of False n "[]"] by auto
  have "is_digit c" using list_all_digits [of n] by (simp add: ct)
  then have nc: "c \<noteq> CHR ''-''" "c \<noteq> CHR ''+''" "of_char c \<notin> {9, 10, 11, 12, 13, 32 :: nat}" by (auto simp: is_digit_def)
  show "dropWhile (\<lambda>c. of_char c \<in> {9, 10, 11, 12, 13, 32 :: nat}) (digits n) = digits n" using nc(3) by (simp add: ct)
  show "\<not> (digits n \<noteq> [] \<and> hd (digits n) = CHR ''-'')"
    "\<not> (digits n \<noteq> [] \<and> hd (digits n) \<in> {CHR ''-'', CHR ''+''})" using nc(1,2) by (simp_all add: ct)
qed

lemma to_string_int64:
  assumes "- (2 ^ 63) \<le> i" and "i < 2 ^ 63"
  shows "lexical_cast_int64 (to_string i) = i"
proof (cases "i < 0")
  case True
  then have "lexical_cast_int64 (to_string i) = max (- (2 ^ 63)) (min (2 ^ 63 - 1) (- int (nat (- i))))"
    by (simp add: lexical_cast_int64_def to_string_def takeWhile_digits decimal_digits Let_def)
  then show ?thesis using True assms by simp
next
  case False
  then have i: "to_string i = digits (nat i)" by (simp add: to_string_def)
  have "lexical_cast_int64 (to_string i) = max (- (2 ^ 63)) (min (2 ^ 63 - 1) (int (nat i)))"
    unfolding lexical_cast_int64_def Let_def i by (simp only: digits_extraction if_False takeWhile_digits decimal_digits)
  then show ?thesis using False assms by simp
qed

lemma to_string_uint64:
  assumes "0 \<le> i" and "i < 2 ^ 64"
  shows "lexical_cast_uint64 (to_string i) = i"
proof -
  have i: "to_string i = digits (nat i)" using assms(1) by (simp add: to_string_def)
  have "lexical_cast_uint64 (to_string i) = (if int (nat i) \<ge> 2 ^ 64 then 2 ^ 64 - 1 else int (nat i))"
    unfolding lexical_cast_uint64_def Let_def i by (simp only: digits_extraction if_False takeWhile_digits decimal_digits)
  then show ?thesis using assms by simp
qed

section \<open>Lookup of a member\<close>

lemma signed_char_inj: "signed_char c = signed_char d \<Longrightarrow> c = d"
proof -
  assume "signed_char c = signed_char d"
  moreover have "of_char c < (256 :: int)" "of_char d < (256 :: int)" "0 \<le> (of_char c :: int)" "0 \<le> (of_char d :: int)"
    by (simp_all add: of_char_def)
  ultimately have "(of_char c :: int) = of_char d" by (simp add: signed_char_def Let_def split: if_splits)
  then show ?thesis by simp
qed

lemma order_key_inj: "order_key k = order_key k' \<longleftrightarrow> k = k'"
  unfolding order_key_def by (metis inj_def inj_map_eq_map signed_char_inj)

text \<open>What \<open>std::sort\<close> promises.\<close>

locale member_sort =
  fixes srt :: "(string \<times> rvalue) list \<Rightarrow> (string \<times> rvalue) list"
  assumes srt_mset: "mset (srt ms) = mset ms"
    and srt_sorted: "sorted (map (order_key \<circ> fst) (srt ms))"
begin

lemma set_srt: "set (srt ms) = set ms"
  using srt_mset by (metis set_mset_mset)

lemma get_found:
  assumes "r_get srt (RObject ms) k = Some v"
  shows "(k, v) \<in> set ms"
proof -
  obtain rest where "dropWhile (\<lambda>m. order_key (fst m) < order_key k) (srt ms) = (k, v) # rest"
    using assms by (auto simp: r_get_def split: list.splits if_splits)
  then have "(k, v) \<in> set (srt ms)" by (metis list.set_intros(1) set_dropWhileD)
  then show ?thesis by (simp add: set_srt)
qed

lemma get_present:
  assumes "(k, v) \<in> set ms"
  shows "\<exists>v'. r_get srt (RObject ms) k = Some v'"
proof -
  let ?less = "\<lambda>m. order_key (fst m) < order_key k"
  have mem: "(k, v) \<in> set (srt ms)" using assms by (simp add: set_srt)
  then obtain k' v' rest where dw: "dropWhile ?less (srt ms) = (k', v') # rest"
    by (cases "dropWhile ?less (srt ms)") (auto simp: dropWhile_eq_Nil_conv)
  have "\<not> ?less (k', v')" using hd_dropWhile [of ?less "srt ms"] dw by simp
  moreover have "(k, v) \<in> set (dropWhile ?less (srt ms))"
    using mem by (metis (no_types, lifting) Un_iff fst_conv less_irrefl set_append set_takeWhileD takeWhile_dropWhile_id)
  moreover have "sorted (map (order_key \<circ> fst) (dropWhile ?less (srt ms)))"
    using srt_sorted [of ms] by (simp add: dropWhile_eq_drop drop_map [symmetric] sorted_wrt_drop)
  ultimately have "order_key k' = order_key k" unfolding dw by fastforce
  then show ?thesis using dw by (simp add: r_get_def order_key_inj)
qed

lemma get_missing: "r_get srt (RObject ms) k = None \<longleftrightarrow> k \<notin> fst ` set ms"
  using get_found get_present by (cases "r_get srt (RObject ms) k") force+

lemma get_map_of:
  assumes "distinct (map fst ms)"
  shows "r_get srt (RObject ms) k = map_of ms k"
proof (cases "r_get srt (RObject ms) k")
  case None
  then have "map_of ms k = None" unfolding get_missing map_of_eq_None_iff .
  then show ?thesis using None by simp
next
  case (Some v)
  then show ?thesis using get_found assms by (simp add: map_of_is_SomeI)
qed

end

definition std_sort :: "(string \<times> rvalue) list \<Rightarrow> (string \<times> rvalue) list" where
  "std_sort = sort_key (order_key \<circ> fst)"

interpretation stable: member_sort std_sort
  by unfold_locales (simp_all add: std_sort_def)

section \<open>What the writer and the reader guarantee together\<close>


text \<open>A text as \<open>%f\<close> prints 1/2.\<close>

lemma half_text: "fixed_text False 0 ''500000'' = ''0.500000''"
  by (simp add: fixed_text_def digits_0)

lemma prints_half: "prints_fixed ''0.500000''"
  unfolding prints_fixed_def half_text [symmetric]
  by (rule conjI, simp add: half_text)
    (intro exI [of _ False] exI [of _ 0] exI [of _ "''500000''"], simp add: is_digit_def)


text \<open>The zeros at the end of an exponent are lost as well: this is what \<open>%.21g\<close> prints for the double 2 to the power of -33.\<close>

lemma dump_float_exponent:
  "dump_float (\<lambda>_ _. ''1.16415321826934814453e-10'') True (Some (1 / 2 ^ 33)) = ''1.16415321826934814453e-1''"
  by (simp add: dump_float_def)

end
