(* ===== verification/ControlHttp.thy ===== *)
theory ControlHttp
  imports Typego CrowDump
begin

text \<open>
  The control service as its clients see it: a request is a text that the JSON reader of \<open>crow/json.h\<close> parses
  and whose members the \<open>/control\<close> handler of \<open>example/go2/typego_control_interface.cpp\<close> looks up, and a reply is what the
  JSON writer makes of the status and the message of the command. The order in which \<open>std::unordered_map\<close> lists its members is an
  argument, as are the sort of the members and the conversions of floating-point numbers.
\<close>

section \<open>Requests and replies as texts\<close>

definition request_body :: "(string \<Rightarrow> real) \<Rightarrow> ((string \<times> rvalue) list \<Rightarrow> (string \<times> rvalue) list) \<Rightarrow> string \<Rightarrow> body option" where
  "request_body num srt req = (case load req of
     Good v r \<Rightarrow> Some \<lparr>b_s = \<lambda>k. Option.bind (r_get srt v k) r_s, b_d = \<lambda>k. Option.bind (r_get srt v k) (r_d num),
       b_b = \<lambda>k. Option.bind (r_get srt v k) r_b\<rparr>
   | _ \<Rightarrow> None)"

definition status_members :: "int \<Rightarrow> string \<Rightarrow> (string \<times> wvalue) list" where
  "status_members st m = [(''status'', WSigned (word_of_int st)), (''message'', WString m)]"

fun control_reply :: "(bool \<Rightarrow> real \<Rightarrow> string) \<Rightarrow> ((string \<times> wvalue) list \<Rightarrow> (string \<times> wvalue) list) \<Rightarrow> response \<Rightarrow> (int \<times> string) option" where
  "control_reply pf ord (Text c m) = Some (c, m)"
| "control_reply pf ord (Status c st m) = Some (c, dump pf (- 1) (CHR '' '') (WObject (ord (status_members st m))))"
| "control_reply pf ord Thrown = None"
| "control_reply pf ord Pending = None"

definition control_service :: "(string \<Rightarrow> real) \<Rightarrow> ((string \<times> rvalue) list \<Rightarrow> (string \<times> rvalue) list) \<Rightarrow> (bool \<Rightarrow> real \<Rightarrow> string) \<Rightarrow>
    ((string \<times> wvalue) list \<Rightarrow> (string \<times> wvalue) list) \<Rightarrow> (sport_call list \<Rightarrow> int) \<Rightarrow> (real \<Rightarrow> real) \<Rightarrow> (real \<Rightarrow> real) \<Rightarrow>
    tick \<Rightarrow> tick list \<Rightarrow> string \<Rightarrow> Go2RemoteControl \<Rightarrow> (int \<times> string) option \<times> Go2RemoteControl" where
  "control_service num srt pf ord code cosd sind t0 ticks req rc =
     (case control_route code cosd sind t0 ticks (request_body num srt req) rc of (r, rc) \<Rightarrow> (control_reply pf ord r, rc))"

section \<open>Lookup in what was written\<close>

lemma map_of_r_of: "map_of (map (\<lambda>(k, v). (k, r_of pf v)) ms) k = map_option (r_of pf) (map_of ms k)"
  by (induction ms) auto

lemma get_written:
  assumes "member_sort srt" and "distinct (map fst ms)"
  shows "r_get srt (r_of pf (WObject ms)) k = map_option (r_of pf) (map_of ms k)"
proof -
  have "map fst (map (\<lambda>(k, v). (k, r_of pf v)) ms) = map fst ms" by (induction ms) auto
  then have "distinct (map fst (map (\<lambda>(k, v). (k, r_of pf v)) ms))" using assms(2) by (simp only:)
  from member_sort.get_map_of [OF assms(1) this] show ?thesis unfolding r_of.simps map_of_r_of .
qed

text \<open>The members of a request as the handler reads them.\<close>

definition member_s :: "(string \<times> wvalue) list \<Rightarrow> string \<Rightarrow> string option" where
  "member_s ms k = (case map_of ms k of Some (WString s) \<Rightarrow> Some s | _ \<Rightarrow> None)"

definition member_b :: "(string \<times> wvalue) list \<Rightarrow> string \<Rightarrow> bool option" where
  "member_b ms k = (case map_of ms k of Some WTrue \<Rightarrow> Some True | Some WFalse \<Rightarrow> Some False | _ \<Rightarrow> None)"

definition member_d :: "(string \<Rightarrow> real) \<Rightarrow> (bool \<Rightarrow> real \<Rightarrow> string) \<Rightarrow> (string \<times> wvalue) list \<Rightarrow> string \<Rightarrow> real option" where
  "member_d num pf ms k = (case map_of ms k of Some (WFloat double (Some d)) \<Rightarrow> Some (num (dump_float pf double (Some d)))
     | Some (WSigned i) \<Rightarrow> Some (num (to_string (sint i))) | Some (WUnsigned i) \<Rightarrow> Some (num (to_string (uint i))) | _ \<Rightarrow> None)"

lemma accessors_r_of:
  "r_s (r_of pf v) = (case v of WString s \<Rightarrow> Some s | _ \<Rightarrow> None)"
  "r_b (r_of pf v) = (case v of WTrue \<Rightarrow> Some True | WFalse \<Rightarrow> Some False | _ \<Rightarrow> None)"
  "r_d num (r_of pf v) = (case v of WFloat double (Some d) \<Rightarrow> Some (num (dump_float pf double (Some d)))
     | WSigned i \<Rightarrow> Some (num (to_string (sint i))) | WUnsigned i \<Rightarrow> Some (num (to_string (uint i))) | _ \<Rightarrow> None)"
  by (cases v; simp add: r_s_def r_b_def r_d_def escaped_key split: option.splits)+

lemma members_written:
  assumes "member_sort srt" and "distinct (map fst ms)"
  shows "Option.bind (r_get srt (r_of pf (WObject ms)) k) r_s = member_s ms k"
    and "Option.bind (r_get srt (r_of pf (WObject ms)) k) r_b = member_b ms k"
    and "Option.bind (r_get srt (r_of pf (WObject ms)) k) (r_d num) = member_d num pf ms k"
  unfolding get_written [OF assms] member_s_def member_b_def member_d_def
  by (cases "map_of ms k"; simp add: accessors_r_of)+

lemma request_body_written:
  assumes "member_sort srt" and "distinct (map fst ms)" and "printable pf (WObject ms)" and "nesting (WObject ms) \<le> 5000" and "is_ws sep"
  shows "request_body num srt (dump pf indent sep (WObject ms)) =
    Some \<lparr>b_s = member_s ms, b_d = member_d num pf ms, b_b = member_b ms\<rparr>"
proof -
  have "load (dump pf indent sep (WObject ms)) = Good (r_of pf (WObject ms)) [NUL]" by (rule load_dump [OF assms(3-5)])
  then show ?thesis unfolding request_body_def by (simp only: parse.case members_written [OF assms(1,2)])
qed

section \<open>Replies\<close>

lemma control_route_response:
  "case fst (control_route code cosd sind t0 ticks b rc) of
     Text c m \<Rightarrow> c = 400 | Status c st m \<Rightarrow> c = 200 \<and> st \<in> range status_code | _ \<Rightarrow> True"
proof -
  have r: "case fst (respond x) of Text c m \<Rightarrow> c = 400 | Status c st m \<Rightarrow> c = 200 \<and> st \<in> range status_code | _ \<Rightarrow> True" for x
    by (simp add: respond_def split: prod.splits option.splits)
  have n: "case fst (reply_now x) of Text c m \<Rightarrow> c = 400 | Status c st m \<Rightarrow> c = 200 \<and> st \<in> range status_code | _ \<Rightarrow> True" for x
    unfolding reply_now_def by (cases x) (simp only: prod.case r)
  show ?thesis unfolding control_route_def by (simp add: r n split: option.split)
qed

lemma reply_written:
  fixes pf :: "bool \<Rightarrow> real \<Rightarrow> string"
  assumes "member_sort srt" and "mset (ord (status_members st m)) = mset (status_members st m)" and "st \<in> range status_code"
  defines "reply \<equiv> dump pf (- 1) (CHR '' '') (WObject (ord (status_members st m)))"
  shows "\<exists>v. load reply = Good v [NUL] \<and> Option.bind (r_get srt v ''status'') r_i = Some st \<and>
    Option.bind (r_get srt v ''message'') r_s = Some m"
proof -
  let ?ms = "ord (status_members st m)"
  have set: "set ?ms = {(''status'', WSigned (word_of_int st)), (''message'', WString m)}"
    using mset_eq_setD [OF assms(2)] by (simp add: status_members_def)
  have "mset (map fst ?ms) = mset (map fst (status_members st m))" using assms(2) by simp
  from mset_eq_imp_distinct_iff [OF this] have dist: "distinct (map fst ?ms)" by (simp add: status_members_def)
  have "nesting (WObject ?ms) \<le> 5000"
  proof -
    have "foldr max (map (\<lambda>(k, v). nesting v) xs) 0 = 0" if "\<forall>(k, v)\<in>set xs. nesting v = 0" for xs :: "(string \<times> wvalue) list"
      using that by (induction xs) auto
    then show ?thesis using set by simp
  qed
  then have "load reply = Good (r_of pf (WObject ?ms)) [NUL]"
    unfolding reply_def by (intro load_dump) (use set in \<open>simp_all add: is_ws_def\<close>)
  moreover have "map_of ?ms ''status'' = Some (WSigned (word_of_int st))" "map_of ?ms ''message'' = Some (WString m)"
    using set dist by (simp_all add: map_of_is_SomeI)
  moreover have "lexical_cast_int64 (to_string (sint (word_of_int st :: 64 word))) = st"
  proof -
    obtain x where x: "st = status_code x" using assms(3) by blast
    have "sint (word_of_int st :: 64 word) = st" unfolding x by (cases x) simp_all
    then show ?thesis using to_string_int64 [of st] unfolding x by (cases x) simp_all
  qed
  ultimately show ?thesis
    by (simp add: get_written [OF assms(1) dist] r_i_def r_s_def escaped_key del: r_of.simps(9))
qed

section \<open>What clients can rely on\<close>



text \<open>C17: A client can always read the answer: when the service answers 200, the text is a JSON object, its member \<open>status\<close> is 0, 1 or 2 and its
  member \<open>message\<close> is a string, whatever characters it has, both exactly as the executed command returned them; a text that is
  not JSON is answered with 400 and changes nothing.\<close>

theorem control_reply_readable:
  assumes "member_sort srt" and "member_sort srt'" and "\<And>l. mset (ord l) = mset l"
  shows "(control_service num srt pf ord code cosd sind t0 ticks req rc = (Some (200, reply), rc') \<longrightarrow>
      (\<exists>st m v. control_route code cosd sind t0 ticks (request_body num srt req) rc = (Status 200 (status_code st) m, rc') \<and>
         load reply = Good v [NUL] \<and> Option.bind (r_get srt' v ''status'') r_i = Some (status_code st) \<and>
         Option.bind (r_get srt' v ''message'') r_s = Some m)) \<and>
    (load req = Bad \<longrightarrow> control_service num srt pf ord code cosd sind t0 ticks req rc = (Some (400, ''Invalid JSON''), rc))"
proof (intro conjI impI)
  assume s: "control_service num srt pf ord code cosd sind t0 ticks req rc = (Some (200, reply), rc')"
  obtain r where r: "control_route code cosd sind t0 ticks (request_body num srt req) rc = (r, rc')" "control_reply pf ord r = Some (200, reply)"
    using s by (auto simp: control_service_def split: prod.splits)
  have form: "case r of Text c m \<Rightarrow> c = 400 | Status c st m \<Rightarrow> c = 200 \<and> st \<in> range status_code | _ \<Rightarrow> True"
    using control_route_response [of code cosd sind t0 ticks "request_body num srt req" rc] unfolding r(1) by (simp only: fst_conv)
  obtain st m where st: "r = Status 200 (status_code st) m" using r(2) form by (cases r) auto
  have reply: "reply = dump pf (- 1) (CHR '' '') (WObject (ord (status_members (status_code st) m)))"
    using r(2) by (simp add: st)
  show "\<exists>st m v. control_route code cosd sind t0 ticks (request_body num srt req) rc = (Status 200 (status_code st) m, rc') \<and>
    load reply = Good v [NUL] \<and> Option.bind (r_get srt' v ''status'') r_i = Some (status_code st) \<and>
    Option.bind (r_get srt' v ''message'') r_s = Some m"
    using reply_written [OF assms(2), of ord "status_code st" m pf] assms(3) r(1) unfolding reply st by blast
next
  assume "load req = Bad"
  then show "control_service num srt pf ord code cosd sind t0 ticks req rc = (Some (400, ''Invalid JSON''), rc)"
    by (simp add: control_service_def request_body_def control_route_def)
qed

theorem control_reply_readable_witness:
  "\<exists>reply v st. fst (control_service (\<lambda>_. 0) std_sort (\<lambda>_ _. []) rev (\<lambda>_. 0) (\<lambda>_. 1) (\<lambda>_. 0)
     \<lparr>t_cancel = False, t_now = 0, t_x = 0, t_y = 0, t_yaw = 0\<rparr> []
     (dump (\<lambda>_ _. []) 2 (CHR '' '') (WObject [(''command'', WString ''stop'')])) Go2RemoteControl_new) = Some (200, reply) \<and>
     load reply = Good v [NUL] \<and> Option.bind (r_get std_sort v ''status'') r_i = Some (status_code st)"
proof -
  let ?ms = "[(''command'', WString ''stop'')]"
  let ?t0 = "\<lparr>t_cancel = False, t_now = 0, t_x = 0, t_y = 0, t_yaw = 0\<rparr>"
  let ?req = "dump (\<lambda>_ _. []) 2 (CHR '' '') (WObject ?ms)"
  let ?serve = "control_service (\<lambda>_. 0) std_sort (\<lambda>_ _. []) rev (\<lambda>_. 0) (\<lambda>_. 1) (\<lambda>_. 0) ?t0 [] ?req Go2RemoteControl_new"
  note ax = stable.member_sort_axioms
  have b: "request_body (\<lambda>_. 0) std_sort ?req = Some \<lparr>b_s = member_s ?ms, b_d = member_d (\<lambda>_. 0) (\<lambda>_ _. []) ?ms, b_b = member_b ?ms\<rparr>"
    by (rule request_body_written [OF ax]) (simp_all add: is_ws_def)
  have "member_s ?ms ''command'' = Some ''stop''" by (simp add: member_s_def)
  then obtain reply rc' where r: "?serve = (Some (200, reply), rc')"
    unfolding control_service_def b by (simp add: control_route_def reply_now_def respond_def split_beta)
  then obtain v st where "load reply = Good v [NUL]" "Option.bind (r_get std_sort v ''status'') r_i = Some (status_code st)"
    using control_reply_readable [OF ax ax, of rev "\<lambda>_. 0" "\<lambda>_ _. []" "\<lambda>_. 0" "\<lambda>_. 1" "\<lambda>_. 0" ?t0 "[]" ?req Go2RemoteControl_new reply rc']
    by auto
  then show ?thesis using r by (metis fst_conv)
qed

end
