(* ===== verification/Spec2Isabelle.thy ===== *)
theory Spec2Isabelle
  imports Crc Gamepad StateMachine LowCmd RobotController BlockQueue Any Jsonize Messages Clients
    Udp Livox Wav Publisher Typego Joystick Go2Stand CrowJson CrowDump ControlHttp
begin

text \<open>
  A verification development of the Unitree SDK 2 for the Go2, B2, G1 and H1 robots with the typego services
  (\<^verbatim>\<open>src/\<close>). The SDK is a precompiled library with its headers: data structures and codecs in \<^verbatim>\<open>include/unitree/common\<close>,
  client classes and message classes in \<^verbatim>\<open>include/unitree/robot\<close>, publishers and subscriptions in
  \<^verbatim>\<open>include/unitree/dds_wrapper\<close>. On top of it are controllers and services under \<^verbatim>\<open>example\<close>; the typego services use the web
  framework in \<^verbatim>\<open>include/crow\<close>. What follows says which theory models which part.

  \<^bold>\<open>Conventions.\<close> A C++ class is a record, an enumeration a datatype, a method a function from the state
  to the result and the new state, with the name it has in the source. Integers are words of their width (\<open>u8\<close>, \<open>u16\<close>,
  \<open>u32\<close>, \<open>u64\<close> in \<open>Prelude\<close>) where they can wrap. A finite \<open>float\<close> or \<open>double\<close> is a real number, and each operation is
  followed by the IEEE rounding \<open>rnd32\<close> or \<open>rnd64\<close> of \<open>Floats\<close>; infinities and NaN are values of an option type where the code
  tests for them, and otherwise outside of the model. Exceptions, failed checks and undefined behaviour are results
  (\<open>option\<close>, a sum, \<open>parse\<close>). Threads are inductive step relations whose steps are the accesses to shared state or
  the sections under a lock. Precompiled code, third-party libraries and the C library's functions on reals are arguments, and what is
  assumed of them are the hypotheses of the theorems.

  \<^bold>\<open>Control of the robot.\<close>
  \<^item> \<open>StateMachine\<close>, \<open>Gamepad\<close>, \<open>RobotController\<close>: the example controller of \<^verbatim>\<open>example/state_machine\<close>. Its mode changes only
    as the keys allow: the stop keys and a tipped robot always lead to damping, control needs a finished stand-up and a fresh press of its
    key, every published command has the right checksum and gains, the axes of the remote stay in their range, and a held stand key allows
    control after a bounded number of steps.
  \<^item> \<open>LowCmd\<close>, \<open>Crc\<close>: the command message with its memory image (\<^verbatim>\<open>idl/go2/LowCmd_.hpp\<close>, \<^verbatim>\<open>comm.h\<close>, \<^verbatim>\<open>conversion.hpp\<close>) and the
    checksums of \<^verbatim>\<open>crc.h\<close>. The loops are equivalent to a shift register and to a reflected division; a change in one word is
    detected. The packed command leaves its last bytes outside of the checksum.
  \<^item> \<open>Go2Stand\<close>: the stand-up example. No joint target ever moves by more than 0.02 rad in a step, across all phases, and the last pose is
    reached after 3401 calls.
  \<^item> \<open>Joystick\<close>: the joystick of the DDS wrapper with the subscriptions and publishers that use it.
  \<^item> \<open>Publisher\<close> and this theory: the real-time publisher (\<^verbatim>\<open>Publisher.h\<close>) and the Go2 command publisher (\<^verbatim>\<open>go2_pub.h\<close>). In every
    interleaving what is published is what was committed, in order and with its checksum, and each committed message is eventually published.

  \<^bold>\<open>Infrastructure.\<close>
  \<^item> \<open>BlockQueue\<close>: \<^verbatim>\<open>block_queue.hpp\<close>, as a refinement of a bounded FIFO queue (locale \<open>bounded_fifo\<close>) and as threads that
    block: order and capacity hold in all interleavings and no wake-up is lost; a wait with a timeout may come back empty before its time.
  \<^item> \<open>Any\<close>, \<open>Jsonize\<close>, \<open>Messages\<close>: the type-erased value with its casts, the JSON containers, and all message classes of the services.
    Casts fail exactly as stated, containers and messages survive the way to JSON and back (locale \<open>any_codec\<close>).
  \<^item> \<open>Clients\<close>: the clients that are implemented in headers. Every request they send has a registered interface
    (locale \<open>api_client\<close>), velocities arrive as commanded, and a failed query is
    reported as such by the G1 client; the H1 client parses the reply without looking at the return code.

  \<^bold>\<open>Services.\<close>
  \<^item> \<open>Udp\<close>, \<open>Livox\<close>: the state and lidar services. With the mutex datagrams go only to addresses that were seen; without it the address
    may be torn. The packets of the full service, decoded, are the points of the frame (locale \<open>fixed_codec\<close>), and the
    filtering service sends exactly the near points.
  \<^item> \<open>Wav\<close>: reading and writing of wave files, which are inverse to each other; the search for the data chunk may run forever and is a
    \<open>partial_function (option)\<close>, with a theorem on when it returns.
  \<^item> \<open>Typego\<close>: PID controller, closed-loop motions and command dispatch of the control service, and the upload route
    of the audio service. No commanded velocity exceeds the limit except for \<open>nav\<close>, which is not limited; every motion
    ends once the clock has passed its timeout. The loops are structural recursions over the list of what they observe.
  \<^item> \<open>CrowJson\<close>, \<open>CrowDump\<close>: the JSON reader and writer of \<^verbatim>\<open>crow/json.h\<close>. The reader works on a buffer with a NUL at its end, and
    reading outside of it is the result \<open>Outside\<close>; its mutual recursion has fuel, three times the length of the text plus one, which
    is proved to suffice (\<open>decode_fuel\<close>). So for every text the reader ends without reading outside of the buffer. What is
    written is read back as the same value, for up to 5000 nested containers, which is the exact limit.
  \<^item> \<open>ControlHttp\<close>: the control service from the text of a request to the text of its reply. Requests reach the handler with the
    members that were written, looked up by a sort and a binary search (locale \<open>member_sort\<close>), and replies can be read by the client.

  \<^bold>\<open>Bounds.\<close> All theorems hold for inputs of any size and for executions of any length, where they do not name a
  bound of the code: 5000 levels of JSON, 127 characters for a printed number, 1472 and 512 bytes for a packet.

  \<^bold>\<open>Not modelled.\<close> Everything whose code is not under \<^verbatim>\<open>src/\<close>: the remote calls, the thread, logging and service classes and most
  clients are declared in headers and precompiled; the DDS wrappers hand every call to Cyclone DDS; files, sockets, locks and time are
  system calls; the generated message classes consist of getters and stream operators. Of Crow only the JSON part is modelled: the HTTP
  parser, routing, templates and web sockets are template code around the asynchronous library in \<^verbatim>\<open>include/asio\<close>, and the
  services depend on them only for the body of a request. The other examples move joints along fixed curves or
  call clients from a command line; the stand-up examples of the B2 and the wheeled robots are variants of the one that is
  modelled. Overflow to infinity in floating-point arithmetic, and the copies of a parsed JSON value that share
  its buffer, are not represented.
\<close>

section \<open>The command publisher of the Go2\<close>

text \<open>
  The publisher of low-level commands (\<open>dds_wrapper/robots/go2/go2_pub.h\<close>) fills in the fixed
  fields when it is made, and the checksum in the hook that the real-time publisher calls before each
  message. The checksum reads the message as an array of words, with \<open>pad\<close> in its padding.
\<close>

definition go2_LowCmd_pub_new :: LowCmd_dds where
  "go2_LowCmd_pub_new = LowCmd_default\<lparr>lc_head := [0xFE, 0xEF], lc_level_flag := 0xFF,
     lc_motor_cmd := map (\<lambda>m. m\<lparr>mc_mode := 1\<rparr>) (lc_motor_cmd LowCmd_default)\<rparr>"

definition LowCmd_pre_communication :: "u8 list \<Rightarrow> LowCmd_dds \<Rightarrow> LowCmd_dds" where
  "LowCmd_pre_communication pad c = (case LowCmd_crc pad c of None \<Rightarrow> c | Some crc \<Rightarrow> c\<lparr>lc_crc := crc\<rparr>)"

lemma wf_go2_LowCmd_pub_new: "wf_LowCmd go2_LowCmd_pub_new"
  by (simp add: go2_LowCmd_pub_new_def LowCmd_default_def MotorCmd_default_def wf_LowCmd_def wf_MotorCmd_def
      list_all_iff)

lemma pre_communication_checked:
  assumes "3 \<le> length pad" and "wf_LowCmd c"
  defines "c' \<equiv> LowCmd_pre_communication pad c"
  shows "LowCmd_crc pad c' = Some (lc_crc c')" and "c'\<lparr>lc_crc := lc_crc c\<rparr> = c"
    and "crc32_core (words_of (LowCmd_image pad c')) 203 = Some 0"
proof -
  let ?ws = "words_of (image_prefix pad c)"
  have c': "c' = c\<lparr>lc_crc := crc32_words ?ws\<rparr>"
    by (simp add: c'_def LowCmd_pre_communication_def LowCmd_crc_eq [OF assms(1,2)])
  have len: "length ?ws = 202" by (simp add: length_words_of length_image_prefix [OF assms(1,2)])
  show "LowCmd_crc pad c' = Some (lc_crc c')"
    using LowCmd_crc_eq [of pad c'] assms(1,2) by (simp add: c')
  show "c'\<lparr>lc_crc := lc_crc c\<rparr> = c" by (simp add: c')
  have "words_of (LowCmd_image pad c') = ?ws @ [crc32_words ?ws]"
    using length_image_prefix [OF assms(1,2)] by (simp add: c' LowCmd_image_def words_of_append)
  then show "crc32_core (words_of (LowCmd_image pad c')) 203 = Some 0"
    using crc32_core_residue [of ?ws "crc32_words ?ws" "crc32_words ?ws"] len by (simp add: crc32_core_def)
qed

section \<open>Properties across components\<close>

text \<open>C9: In every interleaving of the control thread and the publishing thread, whatever commands are filled in,
  the command publisher sends the committed commands in order, each unchanged but for its
  checksum, which is the right one, and a receiver that runs the checksum over the whole message obtains 0.\<close>

theorem published_commands_checked:
  assumes "runs_to (LowCmd_pre_communication pad) (publisher_init go2_LowCmd_pub_new) s"
    and "3 \<le> length pad" and "list_all wf_LowCmd (committed s)" and "i < length (published s)"
  shows "i < length (committed s) \<and>
    (published s ! i)\<lparr>lc_crc := lc_crc (committed s ! i)\<rparr> = committed s ! i \<and>
    LowCmd_crc pad (published s ! i) = Some (lc_crc (published s ! i)) \<and>
    crc32_core (words_of (LowCmd_image pad (published s ! i))) 203 = Some 0"
proof -
  obtain rest where eq: "map (LowCmd_pre_communication pad) (committed s) = published s @ rest"
    using published_prefix [OF assms(1)] by (auto simp: prefix_def)
  have i: "i < length (committed s)" using arg_cong [OF eq, of length] assms(4) by simp
  moreover have "published s ! i = LowCmd_pre_communication pad (committed s ! i)"
    using arg_cong [OF eq, of "\<lambda>xs. xs ! i"] i assms(4) by (simp add: nth_append)
  moreover have "wf_LowCmd (committed s ! i)" using assms(3) i by (simp add: list_all_length)
  ultimately show ?thesis using pre_communication_checked [OF assms(2)] by simp
qed

theorem published_commands_checked_witness:
  "\<exists>s. runs_to (LowCmd_pre_communication [0, 0, 0]) (publisher_init go2_LowCmd_pub_new) s \<and>
     length (published s) = 1 \<and> LowCmd_crc [0, 0, 0] (published s ! 0) = Some (lc_crc (published s ! 0))"
proof -
  let ?pre = "LowCmd_pre_communication [0, 0, 0]"
  let ?c = "one_committed go2_LowCmd_pub_new go2_LowCmd_pub_new"
  note reach = one_committed_reachable [of ?pre go2_LowCmd_pub_new go2_LowCmd_pub_new]
  have "running ?pre ?c" using reachable_inv [OF reach] by (simp add: running_def one_committed_def)
  then obtain s where s: "(loop ?pre)\<^sup>*\<^sup>* ?c s" "published s = [?pre go2_LowCmd_pub_new]"
    using loop_delivers by (fastforce simp: one_committed_def)
  have "committed s = committed ?c" using s(1) by (rule loop_committed)
  then have "list_all wf_LowCmd (committed s)" by (simp add: one_committed_def wf_go2_LowCmd_pub_new)
  moreover have run: "runs_to ?pre (publisher_init go2_LowCmd_pub_new) s"
    using reach loop_runs [OF s(1)] by (rule rtranclp_trans)
  ultimately have "LowCmd_crc [0, 0, 0] (published s ! 0) = Some (lc_crc (published s ! 0))"
    using published_commands_checked [of "[0, 0, 0]" s 0] s(2) by simp
  with run s(2) show ?thesis by (intro exI [of _ s]) simp
qed

end
